theory Spec2Isabelle
  imports Complex_Main "HOL-Library.Multiset"
begin

section \<open>Triangle splats: geometry builder, depth sorter and shader stages\<close>

text \<open>
  A shallow embedding of \<^verbatim>\<open>TriangleSplatsHelpers.ts\<close> (the geometry builder
  \<^verbatim>\<open>createTriangleSplatsGeometry\<close> and the GLSL vertex and fragment stages held by
  \<^verbatim>\<open>createTriangleSplatsMaterial\<close>) and of the sorting worker
  (\<^verbatim>\<open>sortAndPrepareIndexBuffer\<close>).

  Numbers. A finite number is a \<^typ>\<open>real\<close> and the arithmetic operations are exact:
  the rounding of binary64 operations (JavaScript) and of binary32 operations (GLSL) is
  not part of the model. The rounding of a store into a \<^verbatim>\<open>Float32Array\<close> is
  modelled in the depth sorter, where the result depends on it; the geometry builder
  stores into such arrays without rounding. The edge loop of the vertex stage takes the
  incentre as an argument, so it can be run on the incentre as binary32 holds it, which
  need not be the exact incentre of the projected triangle.
\<close>

subsection \<open>JavaScript numbers and typed arrays\<close>

text \<open>
  A JavaScript number is a finite real, one of the two infinities, or NaN. The
  operations follow IEEE 754 on the special values; zero has no sign here, and a
  division of a non-zero number by zero takes the divisor as positive zero.
\<close>

datatype jsnum = Num real | PInf | NInf | NaN

fun jsneg :: "jsnum \<Rightarrow> jsnum" where
  "jsneg (Num a) = Num (- a)"
| "jsneg PInf = NInf"
| "jsneg NInf = PInf"
| "jsneg NaN = NaN"

fun jsadd :: "jsnum \<Rightarrow> jsnum \<Rightarrow> jsnum" where
  "jsadd NaN y = NaN"
| "jsadd x NaN = NaN"
| "jsadd (Num a) (Num b) = Num (a + b)"
| "jsadd PInf NInf = NaN"
| "jsadd NInf PInf = NaN"
| "jsadd PInf y = PInf"
| "jsadd NInf y = NInf"
| "jsadd (Num a) y = y"

definition jssub :: "jsnum \<Rightarrow> jsnum \<Rightarrow> jsnum" where
  "jssub x y = jsadd x (jsneg y)"

fun jspositive :: "jsnum \<Rightarrow> bool" where
  "jspositive (Num a) = (0 < a)"
| "jspositive PInf = True"
| "jspositive NInf = False"
| "jspositive NaN = False"

fun jsmul :: "jsnum \<Rightarrow> jsnum \<Rightarrow> jsnum" where
  "jsmul NaN y = NaN"
| "jsmul x NaN = NaN"
| "jsmul (Num a) (Num b) = Num (a * b)"
| "jsmul x y =
     (if x = Num 0 \<or> y = Num 0 then NaN
      else if jspositive x = jspositive y then PInf else NInf)"

fun jsdiv :: "jsnum \<Rightarrow> jsnum \<Rightarrow> jsnum" where
  "jsdiv NaN y = NaN"
| "jsdiv x NaN = NaN"
| "jsdiv (Num a) (Num b) =
     (if b \<noteq> 0 then Num (a / b)
      else if a = 0 then NaN else if 0 < a then PInf else NInf)"
| "jsdiv (Num a) y = Num 0"
| "jsdiv x (Num b) = (if jspositive x = (0 \<le> b) then PInf else NInf)"
| "jsdiv x y = NaN"

text \<open>Comparisons are false as soon as one side is NaN.\<close>

fun jslt :: "jsnum \<Rightarrow> jsnum \<Rightarrow> bool" where
  "jslt (Num a) (Num b) = (a < b)"
| "jslt (Num a) PInf = True"
| "jslt NInf (Num b) = True"
| "jslt NInf PInf = True"
| "jslt x y = False"

definition jsle :: "jsnum \<Rightarrow> jsnum \<Rightarrow> bool" where
  "jsle x y = (jslt x y \<or> (x = y \<and> x \<noteq> NaN))"

fun Math_floor :: "jsnum \<Rightarrow> jsnum" where
  "Math_floor (Num a) = Num (of_int \<lfloor>a\<rfloor>)"
| "Math_floor x = x"

text \<open>
  \<^verbatim>\<open>Math.min\<close> of three arguments: NaN as soon as one argument is NaN, the least
  argument otherwise.
\<close>

definition Math_min3 :: "jsnum \<Rightarrow> jsnum \<Rightarrow> jsnum \<Rightarrow> jsnum" where
  "Math_min3 a b c =
     (if a = NaN \<or> b = NaN \<or> c = NaN then NaN
      else let ab = (if jslt b a then b else a) in if jslt c ab then c else ab)"

text \<open>
  A store into a \<^verbatim>\<open>Uint32Array\<close> converts by ToUint32: NaN and the infinities
  give 0, a finite number is truncated towards zero and taken modulo \<open>2 ^ 32\<close>.
\<close>

fun ToUint32 :: "jsnum \<Rightarrow> nat" where
  "ToUint32 (Num a) = nat ((if a < 0 then \<lceil>a\<rceil> else \<lfloor>a\<rfloor>) mod 2 ^ 32)"
| "ToUint32 x = 0"

text \<open>
  A store into a \<^verbatim>\<open>Float32Array\<close> rounds to binary32 (\<^verbatim>\<open>Math.fround\<close>): to
  the nearest multiple of \<open>2 ^ (e - 23)\<close>, where \<open>2 ^ e \<le> |x| < 2 ^ (e + 1)\<close> and
  \<open>e\<close> is at least \<open>-126\<close>, a tie going to the even multiple, and to an infinity
  when the result reaches \<open>2 ^ 128\<close>.
\<close>

definition round_half_even :: "real \<Rightarrow> int" where
  "round_half_even y =
     (let f = \<lfloor>y\<rfloor>; r = y - of_int f
      in if r < 1 / 2 then f else if 1 / 2 < r then f + 1
         else if even f then f else f + 1)"

fun Math_fround :: "jsnum \<Rightarrow> jsnum" where
  "Math_fround (Num x) =
     (if x = 0 then Num 0
      else let e = max \<lfloor>log 2 \<bar>x\<bar>\<rfloor> (- 126);
               q = 2 powr of_int (e - 23);
               y = q * of_int (round_half_even (x / q))
           in if 2 ^ 128 \<le> \<bar>y\<bar> then (if 0 < x then PInf else NInf) else Num y)"
| "Math_fround x = x"

text \<open>
  Typed arrays are lists. A read outside the array is \<^verbatim>\<open>undefined\<close>; every such
  read of the program is used as a number, where \<^verbatim>\<open>undefined\<close> is NaN. A write
  outside the array does nothing, which is what \<^const>\<open>list_update\<close> does. An index
  that is itself \<^verbatim>\<open>undefined\<close> (read from outside an index array) is \<^const>\<open>None\<close>.
\<close>

definition getF :: "jsnum list \<Rightarrow> nat \<Rightarrow> jsnum" where
  "getF xs i = (if i < length xs then xs ! i else NaN)"

definition getU :: "nat list \<Rightarrow> nat \<Rightarrow> nat option" where
  "getU xs i = (if i < length xs then Some (xs ! i) else None)"

definition getFo :: "jsnum list \<Rightarrow> nat option \<Rightarrow> jsnum" where
  "getFo xs io = (case io of None \<Rightarrow> NaN | Some i \<Rightarrow> getF xs i)"

subsection \<open>The depth sorter: \<^verbatim>\<open>sortAndPrepareIndexBuffer\<close>\<close>

text \<open>
  Step 1 of the source: the camera-space depth of triangle \<open>i\<close>,
  \<^verbatim>\<open>m20 * x + m21 * y + m22 * z + m23\<close> with \<^verbatim>\<open>m20 = viewMatrix[2]\<close>,
  \<^verbatim>\<open>m21 = viewMatrix[6]\<close>, \<^verbatim>\<open>m22 = viewMatrix[10]\<close>, \<^verbatim>\<open>m23 = viewMatrix[14]\<close>.
\<close>

definition z_cam :: "jsnum list \<Rightarrow> jsnum list \<Rightarrow> nat \<Rightarrow> jsnum" where
  "z_cam centers viewMatrix i =
     (let m20 = getF viewMatrix 2; m21 = getF viewMatrix 6;
          m22 = getF viewMatrix 10; m23 = getF viewMatrix 14;
          x = getF centers (i * 3); y = getF centers (i * 3 + 1);
          z = getF centers (i * 3 + 2)
      in jsadd (jsadd (jsadd (jsmul m20 x) (jsmul m21 y)) (jsmul m22 z)) m23)"

text \<open>
  One iteration of the first loop, on the state \<open>(floatDepths, minDepth, maxDepth)\<close>;
  the loop starts from \<open>minDepth = Infinity\<close> and \<open>maxDepth = -Infinity\<close>. The
  depth is stored into the \<^verbatim>\<open>Float32Array\<close> \<open>floatDepths\<close>, which converts it by
  \<open>fround\<close>, while \<open>minDepth\<close> and \<open>maxDepth\<close> take the depth as computed. The
  conversion is a parameter of the sorter's model: under exact arithmetic it is the
  identity, in the program it is \<^const>\<open>Math_fround\<close>.
\<close>

definition depthStep ::
  "(jsnum \<Rightarrow> jsnum) \<Rightarrow> jsnum list \<Rightarrow> jsnum list \<Rightarrow> jsnum list \<times> jsnum \<times> jsnum \<Rightarrow> nat
     \<Rightarrow> jsnum list \<times> jsnum \<times> jsnum" where
  "depthStep fround centers viewMatrix st i =
     (case st of (floatDepths, minDepth, maxDepth) \<Rightarrow>
        let z = z_cam centers viewMatrix i
        in (floatDepths[i := fround z],
            if jslt z minDepth then z else minDepth,
            if jslt maxDepth z then z else maxDepth))"

definition computeDepths ::
  "(jsnum \<Rightarrow> jsnum) \<Rightarrow> nat \<Rightarrow> jsnum list \<Rightarrow> jsnum list
     \<Rightarrow> jsnum list \<times> jsnum \<times> jsnum" where
  "computeDepths fround numTriangles centers viewMatrix =
     foldl (depthStep fround centers viewMatrix)
       (replicate numTriangles (Num 0), PInf, NInf) [0..<numTriangles]"

text \<open>
  The three stores \<^verbatim>\<open>arr[i * 3] = base; arr[i * 3 + 1] = base + 1;
  arr[i * 3 + 2] = base + 2\<close> of the identity loop and of step 4. The stored values are
  below \<open>3 * numTriangles\<close>, the length of the allocated array, so the stores into the
  \<^verbatim>\<open>Uint32Array\<close> do not wrap and the model keeps them as naturals; the same holds
  for the counters of the counting sort, which are bounded by \<open>numTriangles\<close>.
\<close>

definition writeTriple :: "nat list \<Rightarrow> nat \<Rightarrow> nat \<Rightarrow> nat list" where
  "writeTriple arr i base =
     arr[i * 3 := base, i * 3 + 1 := base + 1, i * 3 + 2 := base + 2]"

definition identityIndices :: "nat \<Rightarrow> nat list" where
  "identityIndices numTriangles =
     foldl (\<lambda>indices i. writeTriple indices i (i * 3))
       (replicate (numTriangles * 3) 0) [0..<numTriangles]"

text \<open>
  Step 2: \<^verbatim>\<open>depthsInt[i] = Math.floor((floatDepths[i] - minDepth) * scale)\<close>, stored
  into a \<^verbatim>\<open>Uint32Array\<close>.
\<close>

definition quantizeDepths ::
  "nat \<Rightarrow> jsnum list \<Rightarrow> jsnum \<Rightarrow> jsnum \<Rightarrow> nat list" where
  "quantizeDepths numTriangles floatDepths minDepth scale =
     foldl (\<lambda>depthsInt i.
         depthsInt[i := ToUint32 (Math_floor (jsmul (jssub (getF floatDepths i) minDepth) scale))])
       (replicate numTriangles 0) [0..<numTriangles]"

text \<open>Step 3, the counting sort over the 65536 buckets.\<close>

definition NUM_BUCKETS :: nat where
  "NUM_BUCKETS = 65536"

text \<open>
  \<^verbatim>\<open>counts[depthsInt[i]]++\<close>: outside the array the read is \<^verbatim>\<open>undefined\<close> and the
  write is dropped.
\<close>

definition countStep :: "nat list \<Rightarrow> nat list \<Rightarrow> nat \<Rightarrow> nat list" where
  "countStep depthsInt counts i =
     (let d = depthsInt ! i
      in if d < length counts then counts[d := counts ! d + 1] else counts)"

definition countDepths :: "nat \<Rightarrow> nat list \<Rightarrow> nat list" where
  "countDepths numTriangles depthsInt =
     foldl (countStep depthsInt) (replicate NUM_BUCKETS 0) [0..<numTriangles]"

text \<open>
  \<^verbatim>\<open>offsets[i] = currentOffset; currentOffset += counts[i]\<close>, on the state
  \<open>(offsets, currentOffset)\<close>.
\<close>

definition offsetStep :: "nat list \<Rightarrow> nat list \<times> nat \<Rightarrow> nat \<Rightarrow> nat list \<times> nat" where
  "offsetStep counts st i =
     (case st of (offsets, currentOffset) \<Rightarrow>
        let count = counts ! i
        in (offsets[i := currentOffset], currentOffset + count))"

definition prefixOffsets :: "nat list \<Rightarrow> nat list" where
  "prefixOffsets counts =
     fst (foldl (offsetStep counts) (replicate NUM_BUCKETS 0, 0) [0..<NUM_BUCKETS])"

text \<open>
  \<^verbatim>\<open>sortedIndices[offsets[depthIdx]++] = i\<close>, on the state \<open>(offsets, sortedIndices)\<close>.
  When \<open>depthIdx\<close> is outside \<open>offsets\<close> the read is \<^verbatim>\<open>undefined\<close>, the increment
  is dropped, and the store into \<open>sortedIndices\<close> at the index NaN is dropped too.
\<close>

definition scatterStep ::
  "nat list \<Rightarrow> nat list \<times> nat list \<Rightarrow> nat \<Rightarrow> nat list \<times> nat list" where
  "scatterStep depthsInt st i =
     (case st of (offsets, sortedIndices) \<Rightarrow>
        let depthIdx = depthsInt ! i
        in if depthIdx < length offsets
           then (offsets[depthIdx := offsets ! depthIdx + 1],
                 sortedIndices[offsets ! depthIdx := i])
           else (offsets, sortedIndices))"

definition scatterIndices :: "nat \<Rightarrow> nat list \<Rightarrow> nat list \<Rightarrow> nat list" where
  "scatterIndices numTriangles depthsInt offsets =
     snd (foldl (scatterStep depthsInt) (offsets, replicate numTriangles 0) [0..<numTriangles])"

definition countingSort :: "nat \<Rightarrow> nat list \<Rightarrow> nat list" where
  "countingSort numTriangles depthsInt =
     scatterIndices numTriangles depthsInt (prefixOffsets (countDepths numTriangles depthsInt))"

text \<open>Step 4: the index buffer, three corners for each sorted triangle.\<close>

definition prepareIndexArray :: "nat \<Rightarrow> nat list \<Rightarrow> nat list" where
  "prepareIndexArray numTriangles sortedIndices =
     foldl (\<lambda>prepared i. writeTriple prepared i (sortedIndices ! i * 3))
       (replicate (numTriangles * 3) 0) [0..<numTriangles]"

definition sortAndPrepareIndexBuffer ::
  "(jsnum \<Rightarrow> jsnum) \<Rightarrow> nat \<Rightarrow> jsnum list \<Rightarrow> jsnum list \<Rightarrow> nat list" where
  "sortAndPrepareIndexBuffer fround numTriangles centers viewMatrix =
     (case computeDepths fround numTriangles centers viewMatrix of
        (floatDepths, minDepth, maxDepth) \<Rightarrow>
          let range = jssub maxDepth minDepth
          in if jsle range (Num (1 / 10 ^ 7)) then identityIndices numTriangles
             else
               let scale = jsdiv (Num 65535) range;
                   depthsInt = quantizeDepths numTriangles floatDepths minDepth scale;
                   sortedIndices = countingSort numTriangles depthsInt
               in prepareIndexArray numTriangles sortedIndices)"

text \<open>
  The bucket the source computes for a depth \<open>z\<close>, given the minimum and the maximum
  depth: the value stored in \<open>depthsInt\<close>, with \<open>scale = 65535 / range\<close>.
\<close>

definition bucketOf :: "jsnum \<Rightarrow> jsnum \<Rightarrow> jsnum \<Rightarrow> nat" where
  "bucketOf z mn mx =
     ToUint32 (Math_floor (jsmul (jssub z mn) (jsdiv (Num 65535) (jssub mx mn))))"

text \<open>
  Notions of the specification, to compare the sorter with: the depth formula over the
  reals, the three corner indices of a triangle, and the position of triangle \<open>i\<close> in
  a stable ascending sort by the keys \<open>ds\<close> (the number of triangles with a smaller
  key, or with the same key and a smaller index).
\<close>

definition camZ :: "real list \<Rightarrow> real list \<Rightarrow> nat \<Rightarrow> real" where
  "camZ cs vm i =
     vm ! 2 * cs ! (i * 3) + vm ! 6 * cs ! (i * 3 + 1) + vm ! 10 * cs ! (i * 3 + 2) + vm ! 14"

definition cornerTriple :: "nat \<Rightarrow> nat list" where
  "cornerTriple t = [t * 3, t * 3 + 1, t * 3 + 2]"

definition sortRank :: "nat list \<Rightarrow> nat \<Rightarrow> nat \<Rightarrow> nat" where
  "sortRank ds T i =
     length (filter (\<lambda>j. ds ! j < ds ! i \<or> (ds ! j = ds ! i \<and> j < i)) [0..<T])"

text \<open>
  The scenario of the tests: five triangles whose centres have the depths
  \<open>-10, -5, -15, -1, -20\<close> under the identity view matrix.
\<close>

definition example_centers :: "real list" where
  "example_centers = [0, 0, -10, 0, 0, -5, 0, 0, -15, 0, 0, -1, 0, 0, -20]"

definition identity_view :: "real list" where
  "identity_view = [1, 0, 0, 0, 0, 1, 0, 0, 0, 0, 1, 0, 0, 0, 0, 1]"

text \<open>A request of two triangles, at the depths \<open>-2\<close> and \<open>-5\<close>.\<close>

definition witness_centers :: "real list" where
  "witness_centers = [0, 0, -2, 0, 0, -5]"

text \<open>
  A request of two triangles whose depths are not both binary32 numbers. The view
  matrix is the rotation with third row \<open>(0.6, 0.8, 0)\<close>, its entries rounded to
  binary32 (\<open>0.6\<close> is stored as \<open>5033165 / 2 ^ 23\<close> and \<open>0.8\<close> as
  \<open>13421773 / 2 ^ 24\<close>), in the element order of the source
  (\<open>viewMatrix[2], [6], [10], [14]\<close> are the third row). The centres are
  \<open>(-1/2, 0, 0)\<close> and \<open>(-(1 + 3 / 2 ^ 23), 0, 0)\<close>, both binary32 numbers.
\<close>

definition rotated_view :: "jsnum list" where
  "rotated_view =
     [Num (13421773 / 16777216), Num 0, Num (5033165 / 8388608), Num 0,
      Num (- (5033165 / 8388608)), Num 0, Num (13421773 / 16777216), Num 0,
      Num 0, Num 1, Num 0, Num 0,
      Num 0, Num 0, Num 0, Num 1]"

definition rounded_centers :: "jsnum list" where
  "rounded_centers = [Num (- (1 / 2)), Num 0, Num 0, Num (- (8388611 / 8388608)), Num 0, Num 0]"

subsection \<open>The geometry builder: \<^verbatim>\<open>createTriangleSplatsGeometry\<close>\<close>

text \<open>
  An index read from a \<^verbatim>\<open>Uint32Array\<close> or a \<^verbatim>\<open>Uint8Array\<close> and used as a number:
  the number itself, NaN when the read was outside the array. \<^verbatim>\<open>vIdx * 3 + c\<close> is
  an index again, \<^verbatim>\<open>undefined\<close> (NaN) when \<open>vIdx\<close> is.
\<close>

definition numOf :: "nat option \<Rightarrow> jsnum" where
  "numOf io = (case io of None \<Rightarrow> NaN | Some i \<Rightarrow> Num (real i))"

definition idx3 :: "nat option \<Rightarrow> nat \<Rightarrow> nat option" where
  "idx3 vIdx c = map_option (\<lambda>v. v * 3 + c) vIdx"

definition getUo :: "nat list \<Rightarrow> nat option \<Rightarrow> nat option" where
  "getUo xs io = (case io of None \<Rightarrow> None | Some i \<Rightarrow> getU xs i)"

text \<open>
  \<^verbatim>\<open>new Float32Array(n)\<close> for a number \<open>n \<ge> 0\<close> that need not be whole: the length
  is \<open>n\<close> truncated, the entries are zero. A loop \<^verbatim>\<open>for (i = 0; i < n; i++)\<close> runs
  for the naturals below \<open>n\<close>.
\<close>

definition newFloat32Array :: "real \<Rightarrow> jsnum list" where
  "newFloat32Array n = replicate (nat \<lfloor>n\<rfloor>) (Num 0)"

definition newUint32Array :: "real \<Rightarrow> nat list" where
  "newUint32Array n = replicate (nat \<lfloor>n\<rfloor>) 0"

definition loopBelow :: "real \<Rightarrow> nat list" where
  "loopBelow n = [0..<nat \<lceil>n\<rceil>]"

text \<open>The arrays the builder fills, under their names in the source.\<close>

record unrolled =
  unrolledVertices :: "jsnum list"
  triangleCenters :: "jsnum list"
  unrolledBarycentrics :: "jsnum list"
  unrolledOpacities :: "jsnum list"
  triangleMinWeights :: "jsnum list"
  vertexIndices :: "jsnum list"
  triangleVertexIndices0 :: "jsnum list"
  triangleVertexIndices1 :: "jsnum list"
  triangleVertexIndices2 :: "jsnum list"
  triangleVertices0 :: "jsnum list"
  triangleVertices1 :: "jsnum list"
  triangleVertices2 :: "jsnum list"
  triangleOpacities0 :: "jsnum list"
  triangleOpacities1 :: "jsnum list"
  triangleOpacities2 :: "jsnum list"

definition allocate :: "real \<Rightarrow> real \<Rightarrow> unrolled" where
  "allocate numTriangles numVertices =
     \<lparr> unrolledVertices = newFloat32Array (numVertices * 3),
       triangleCenters = newFloat32Array (numTriangles * 3),
       unrolledBarycentrics = newFloat32Array (numVertices * 3),
       unrolledOpacities = newFloat32Array numVertices,
       triangleMinWeights = newFloat32Array numVertices,
       vertexIndices = newFloat32Array numVertices,
       triangleVertexIndices0 = newFloat32Array numVertices,
       triangleVertexIndices1 = newFloat32Array numVertices,
       triangleVertexIndices2 = newFloat32Array numVertices,
       triangleVertices0 = newFloat32Array (numVertices * 3),
       triangleVertices1 = newFloat32Array (numVertices * 3),
       triangleVertices2 = newFloat32Array (numVertices * 3),
       triangleOpacities0 = newFloat32Array numVertices,
       triangleOpacities1 = newFloat32Array numVertices,
       triangleOpacities2 = newFloat32Array numVertices \<rparr>"

text \<open>
  The three stores \<^verbatim>\<open>dst[t * 3 + c] = src[vIdx * 3 + c]\<close> for \<open>c = 0, 1, 2\<close> that copy
  a vertex position.
\<close>

definition copyVertex :: "jsnum list \<Rightarrow> nat \<Rightarrow> jsnum list \<Rightarrow> nat option \<Rightarrow> jsnum list" where
  "copyVertex dst t src vIdx =
     dst[t * 3 := getFo src (idx3 vIdx 0),
         t * 3 + 1 := getFo src (idx3 vIdx 1),
         t * 3 + 2 := getFo src (idx3 vIdx 2)]"

text \<open>The body of the inner loop \<^verbatim>\<open>for (let j = 0; j < 3; j++)\<close>.\<close>

definition cornerStep ::
  "jsnum list \<Rightarrow> nat list \<Rightarrow> jsnum list \<Rightarrow> nat \<Rightarrow> nat option \<Rightarrow> nat option \<Rightarrow> nat option
     \<Rightarrow> jsnum \<Rightarrow> unrolled \<Rightarrow> nat \<Rightarrow> unrolled" where
  "cornerStep vertices triangle_indices opacities i v0Idx v1Idx v2Idx triangleMinWeight st j =
     (let vIdx = getU triangle_indices (i * 3 + j);
          targetIdx = i * 3 + j
      in st\<lparr> unrolledVertices := copyVertex (unrolledVertices st) targetIdx vertices vIdx,
              vertexIndices := (vertexIndices st)[targetIdx := numOf vIdx],
              triangleVertexIndices0 := (triangleVertexIndices0 st)[targetIdx := numOf v0Idx],
              triangleVertexIndices1 := (triangleVertexIndices1 st)[targetIdx := numOf v1Idx],
              triangleVertexIndices2 := (triangleVertexIndices2 st)[targetIdx := numOf v2Idx],
              unrolledBarycentrics := (unrolledBarycentrics st)[targetIdx * 3 + j := Num 1],
              unrolledOpacities := (unrolledOpacities st)[targetIdx := getFo opacities vIdx],
              triangleVertices0 := copyVertex (triangleVertices0 st) targetIdx vertices v0Idx,
              triangleVertices1 := copyVertex (triangleVertices1 st) targetIdx vertices v1Idx,
              triangleVertices2 := copyVertex (triangleVertices2 st) targetIdx vertices v2Idx,
              triangleOpacities0 := (triangleOpacities0 st)[targetIdx := getFo opacities v0Idx],
              triangleOpacities1 := (triangleOpacities1 st)[targetIdx := getFo opacities v1Idx],
              triangleOpacities2 := (triangleOpacities2 st)[targetIdx := getFo opacities v2Idx],
              triangleMinWeights := (triangleMinWeights st)[targetIdx := triangleMinWeight] \<rparr>)"

text \<open>
  One coordinate of a triangle centre:
  \<^verbatim>\<open>(vertices[v0Idx * 3 + c] + vertices[v1Idx * 3 + c] + vertices[v2Idx * 3 + c]) / 3.0\<close>.
\<close>

definition centerCoord ::
  "jsnum list \<Rightarrow> nat option \<Rightarrow> nat option \<Rightarrow> nat option \<Rightarrow> nat \<Rightarrow> jsnum" where
  "centerCoord vertices v0Idx v1Idx v2Idx c =
     jsdiv (jsadd (jsadd (getFo vertices (idx3 v0Idx c)) (getFo vertices (idx3 v1Idx c)))
                  (getFo vertices (idx3 v2Idx c)))
           (Num 3)"

text \<open>
  The minimum weight of triangle \<open>i\<close>: \<^verbatim>\<open>Math.min(w0, w1, w2)\<close> of the opacities of its
  three vertices. The source reads \<open>opacities\<close> here and nothing else.
\<close>

definition triangleMinWeightOf :: "nat list \<Rightarrow> jsnum list \<Rightarrow> nat \<Rightarrow> jsnum" where
  "triangleMinWeightOf triangle_indices opacities i =
     (let v0Idx = getU triangle_indices (i * 3 + 0);
          v1Idx = getU triangle_indices (i * 3 + 1);
          v2Idx = getU triangle_indices (i * 3 + 2);
          w0 = getFo opacities v0Idx;
          w1 = getFo opacities v1Idx;
          w2 = getFo opacities v2Idx
      in Math_min3 w0 w1 w2)"

text \<open>The body of the loop \<^verbatim>\<open>for (let i = 0; i < numTriangles; i++)\<close>.\<close>

definition triangleStep ::
  "jsnum list \<Rightarrow> nat list \<Rightarrow> jsnum list \<Rightarrow> unrolled \<Rightarrow> nat \<Rightarrow> unrolled" where
  "triangleStep vertices triangle_indices opacities st i =
     (let v0Idx = getU triangle_indices (i * 3 + 0);
          v1Idx = getU triangle_indices (i * 3 + 1);
          v2Idx = getU triangle_indices (i * 3 + 2);
          st1 = st\<lparr> triangleCenters := (triangleCenters st)
                   [i * 3 + 0 := centerCoord vertices v0Idx v1Idx v2Idx 0,
                    i * 3 + 1 := centerCoord vertices v0Idx v1Idx v2Idx 1,
                    i * 3 + 2 := centerCoord vertices v0Idx v1Idx v2Idx 2] \<rparr>;
          triangleMinWeight = triangleMinWeightOf triangle_indices opacities i
      in foldl (cornerStep vertices triangle_indices opacities i v0Idx v1Idx v2Idx
                  triangleMinWeight) st1 [0..<3])"

definition unrollTriangles ::
  "jsnum list \<Rightarrow> nat list \<Rightarrow> jsnum list \<Rightarrow> unrolled" where
  "unrollTriangles vertices triangle_indices opacities =
     (let numTriangles = real (length triangle_indices) / 3;
          numVertices = numTriangles * 3
      in foldl (triangleStep vertices triangle_indices opacities)
           (allocate numTriangles numVertices) (loopBelow numTriangles))"

text \<open>
  The spherical-harmonics table, 48 numbers for each original vertex: the DC component,
  then the rest components when \<open>features_rest\<close> is given and the degree is positive.
\<close>

definition restComponentCount :: "nat \<Rightarrow> nat" where
  "restComponentCount sh_degree = (if sh_degree > 0 then (sh_degree + 1) ^ 2 - 1 else 0)"

definition packVertexSH ::
  "jsnum list \<Rightarrow> jsnum list option \<Rightarrow> nat \<Rightarrow> jsnum list \<Rightarrow> nat \<Rightarrow> jsnum list" where
  "packVertexSH features_dc features_rest sh_degree shData vIdx =
     (let shOff = vIdx * 48;
          shData1 = shData[shOff + 0 := getF features_dc (vIdx * 3 + 0),
                           shOff + 1 := getF features_dc (vIdx * 3 + 1),
                           shOff + 2 := getF features_dc (vIdx * 3 + 2)]
      in case features_rest of
           None \<Rightarrow> shData1
         | Some rest \<Rightarrow>
             if restComponentCount sh_degree > 0
             then let restSize = restComponentCount sh_degree * 3;
                      srcStart = vIdx * restSize
                  in foldl (\<lambda>sh k. sh[shOff + 3 + k := getF rest (srcStart + k)])
                       shData1 [0..<restSize]
             else shData1)"

definition packSH ::
  "jsnum list \<Rightarrow> jsnum list option \<Rightarrow> jsnum list option \<Rightarrow> nat \<Rightarrow> jsnum list option" where
  "packSH vertices features_dc features_rest sh_degree =
     (case features_dc of
        None \<Rightarrow> None
      | Some dc \<Rightarrow>
          let numOriginalVertices = real (length vertices) / 3
          in Some (foldl (packVertexSH dc features_rest sh_degree)
                     (newFloat32Array (numOriginalVertices * 48))
                     (loopBelow numOriginalVertices)))"

text \<open>
  The texture that holds the table: 1024 texels wide, four numbers a texel.
  \<^verbatim>\<open>rgbaData.set(shData)\<close> copies the table to the start of the texture data and throws
  a \<^verbatim>\<open>RangeError\<close> when the table is longer than the texture data.
\<close>

datatype error = RangeError

record DataTexture =
  image_data :: "jsnum list"
  image_width :: nat
  image_height :: nat

definition typedArraySet :: "jsnum list \<Rightarrow> jsnum list \<Rightarrow> error + jsnum list" where
  "typedArraySet target source =
     (if length source > length target then Inl RangeError
      else Inr (source @ drop (length source) target))"

definition makeSHTexture :: "jsnum list \<Rightarrow> jsnum list \<Rightarrow> error + DataTexture" where
  "makeSHTexture vertices shData =
     (let numOriginalVertices = real (length vertices) / 3;
          pixelsPerVertex = 12;
          totalPixels = numOriginalVertices * pixelsPerVertex;
          texWidth = 1024;
          texHeight = \<lceil>totalPixels / texWidth\<rceil>;
          rgbaData = newFloat32Array (texWidth * real_of_int texHeight * 4)
      in case typedArraySet rgbaData shData of
           Inl e \<Rightarrow> Inl e
         | Inr filled \<Rightarrow>
             Inr \<lparr> image_data = filled, image_width = 1024, image_height = nat texHeight \<rparr>)"

text \<open>The colours, one triple for each corner: \<^verbatim>\<open>colors[vIdx * 3 + c] / 255.0\<close>.\<close>

definition colorStep :: "nat list \<Rightarrow> nat list \<Rightarrow> jsnum list \<Rightarrow> nat \<Rightarrow> jsnum list" where
  "colorStep triangle_indices colors unrolledColors i =
     (let vIdx = getU triangle_indices i
      in unrolledColors
           [i * 3 := jsdiv (numOf (getUo colors (idx3 vIdx 0))) (Num 255),
            i * 3 + 1 := jsdiv (numOf (getUo colors (idx3 vIdx 1))) (Num 255),
            i * 3 + 2 := jsdiv (numOf (getUo colors (idx3 vIdx 2))) (Num 255)])"

definition unrollColors :: "nat list \<Rightarrow> nat list \<Rightarrow> jsnum list" where
  "unrollColors triangle_indices colors =
     (let numTriangles = real (length triangle_indices) / 3;
          numVertices = numTriangles * 3
      in foldl (colorStep triangle_indices colors)
           (newFloat32Array (numVertices * 3)) (loopBelow (numTriangles * 3)))"

text \<open>The index buffer, \<^verbatim>\<open>indices[i] = i\<close>.\<close>

definition identityIndexBuffer :: "nat list \<Rightarrow> nat list" where
  "identityIndexBuffer triangle_indices =
     (let numTriangles = real (length triangle_indices) / 3;
          numVertices = numTriangles * 3
      in foldl (\<lambda>indices i. indices[i := i]) (newUint32Array numVertices) (loopBelow numVertices))"

text \<open>
  The geometry returned: its attributes under their names, the triangle centres, the
  texture and the index buffer. The bounding box and sphere, which the library derives
  from \<open>position\<close>, and the console output are left out.
\<close>

record BufferGeometry =
  position :: "jsnum list"
  aBarycentric :: "jsnum list"
  aOpacity :: "jsnum list"
  aVertexIndex :: "jsnum list"
  aTriangleVertexIdx0 :: "jsnum list"
  aTriangleVertexIdx1 :: "jsnum list"
  aTriangleVertexIdx2 :: "jsnum list"
  aTriangleV0 :: "jsnum list"
  aTriangleV1 :: "jsnum list"
  aTriangleV2 :: "jsnum list"
  aTriangleOpacity0 :: "jsnum list"
  aTriangleOpacity1 :: "jsnum list"
  aTriangleOpacity2 :: "jsnum list"
  aTriangleMinWeight :: "jsnum list"
  geomTriangleCenters :: "jsnum list"
  shDataTexture :: "DataTexture option"
  aColor :: "jsnum list option"
  index :: "nat list"

definition assembleGeometry ::
  "unrolled \<Rightarrow> DataTexture option \<Rightarrow> jsnum list option \<Rightarrow> nat list \<Rightarrow> BufferGeometry" where
  "assembleGeometry u tex cols indices =
     \<lparr> position = unrolledVertices u,
       aBarycentric = unrolledBarycentrics u,
       aOpacity = unrolledOpacities u,
       aVertexIndex = vertexIndices u,
       aTriangleVertexIdx0 = triangleVertexIndices0 u,
       aTriangleVertexIdx1 = triangleVertexIndices1 u,
       aTriangleVertexIdx2 = triangleVertexIndices2 u,
       aTriangleV0 = triangleVertices0 u,
       aTriangleV1 = triangleVertices1 u,
       aTriangleV2 = triangleVertices2 u,
       aTriangleOpacity0 = triangleOpacities0 u,
       aTriangleOpacity1 = triangleOpacities1 u,
       aTriangleOpacity2 = triangleOpacities2 u,
       aTriangleMinWeight = triangleMinWeights u,
       geomTriangleCenters = triangleCenters u,
       shDataTexture = tex,
       aColor = cols,
       index = indices \<rparr>"

text \<open>
  The builder. \<open>vertex_weights\<close> is a parameter of the source that its body does not
  mention. The only statement that can throw is \<^verbatim>\<open>rgbaData.set\<close>.
\<close>

definition createTriangleSplatsGeometry ::
  "jsnum list \<Rightarrow> nat list \<Rightarrow> jsnum list \<Rightarrow> jsnum list option \<Rightarrow> nat list option
     \<Rightarrow> jsnum list option \<Rightarrow> jsnum list option \<Rightarrow> nat \<Rightarrow> error + BufferGeometry" where
  "createTriangleSplatsGeometry vertices triangle_indices opacities vertex_weights colors
       features_dc features_rest sh_degree =
     (let shData = packSH vertices features_dc features_rest sh_degree;
          u = unrollTriangles vertices triangle_indices opacities;
          cols = map_option (unrollColors triangle_indices) colors;
          indices = identityIndexBuffer triangle_indices
      in case shData of
           None \<Rightarrow> Inr (assembleGeometry u None cols indices)
         | Some sh \<Rightarrow>
             (case makeSHTexture vertices sh of
                Inl e \<Rightarrow> Inl e
              | Inr tex \<Rightarrow> Inr (assembleGeometry u (Some tex) cols indices)))"

text \<open>
  The scene of the tests: five vertices, the triangles \<open>(0, 1, 2)\<close> and \<open>(2, 3, 4)\<close>, the
  opacities \<open>0.5, 0.005, 0.5, 0.5, 0.02\<close>; and raw weights, some of them negative.
\<close>

definition test_vertices :: "jsnum list" where
  "test_vertices =
     [Num 0, Num 0, Num 0, Num 1, Num 0, Num 0, Num 1, Num 1, Num 0,
      Num 0, Num 1, Num 0, Num 2, Num 0, Num 0]"

definition test_indices :: "nat list" where
  "test_indices = [0, 1, 2, 2, 3, 4]"

definition test_opacities :: "jsnum list" where
  "test_opacities = [Num (1 / 2), Num (1 / 200), Num (1 / 2), Num (1 / 2), Num (1 / 50)]"

definition test_weights :: "jsnum list" where
  "test_weights = [Num (- 3), Num 7, Num (- 1), Num 0, Num 2]"

text \<open>Four triangle indices: one triangle, and one index of a second.\<close>

definition partial_indices :: "nat list" where
  "partial_indices = [0, 1, 2, 2]"

subsection \<open>Pixel projection of the vertex stage\<close>

text \<open>
  The vertex stage maps a normalised device coordinate to a pixel coordinate by
  \<^verbatim>\<open>((c.xy / c.w) + 1.0) * uResolution * 0.5 - 0.5\<close>, once per component.
\<close>

definition projectPixel :: "real \<Rightarrow> real \<Rightarrow> real" where
  "projectPixel ndc S = (ndc + 1) * S * 0.5 - 0.5"

text \<open>
  The reference formula the source's comments and tests name (\<^verbatim>\<open>ndc2Pix\<close>):
  \<^verbatim>\<open>((v + 1.0) * S - 1.0) * 0.5\<close>.
\<close>

definition ndc2Pix_reference :: "real \<Rightarrow> real \<Rightarrow> real" where
  "ndc2Pix_reference v S = ((v + 1) * S - 1) * 0.5"

subsection \<open>GLSL vectors and matrices\<close>

text \<open>
  A GLSL \<^verbatim>\<open>float\<close> is a real. \<^verbatim>\<open>pow(x, y)\<close> is \<^term>\<open>x powr y\<close>: the power for
  \<open>x > 0\<close>, and \<open>0\<close> for \<open>x = 0\<close>, where GLSL defines it for \<open>y > 0\<close> only; the shaders
  call it with \<open>x \<ge> 0\<close>. A division by zero, which GLSL leaves undefined, is \<open>0\<close> as
  in HOL. A matrix is the tuple of its columns, as GLSL stores it.
\<close>

type_synonym vec2 = "real \<times> real"
type_synonym vec3 = "real \<times> real \<times> real"
type_synonym vec4 = "real \<times> real \<times> real \<times> real"
type_synonym mat3 = "vec3 \<times> vec3 \<times> vec3"
type_synonym mat4 = "vec4 \<times> vec4 \<times> vec4 \<times> vec4"

fun sub2 :: "vec2 \<Rightarrow> vec2 \<Rightarrow> vec2" where
  "sub2 (ax, ay) (bx, by) = (ax - bx, ay - by)"

fun add2 :: "vec2 \<Rightarrow> vec2 \<Rightarrow> vec2" where
  "add2 (ax, ay) (bx, by) = (ax + bx, ay + by)"

fun scale2 :: "real \<Rightarrow> vec2 \<Rightarrow> vec2" where
  "scale2 k (ax, ay) = (k * ax, k * ay)"

fun div2 :: "vec2 \<Rightarrow> real \<Rightarrow> vec2" where
  "div2 (ax, ay) k = (ax / k, ay / k)"

fun neg2 :: "vec2 \<Rightarrow> vec2" where
  "neg2 (ax, ay) = (- ax, - ay)"

fun dot2 :: "vec2 \<Rightarrow> vec2 \<Rightarrow> real" where
  "dot2 (ax, ay) (bx, by) = ax * bx + ay * by"

definition length2 :: "vec2 \<Rightarrow> real" where
  "length2 v = sqrt (dot2 v v)"

definition distance2 :: "vec2 \<Rightarrow> vec2 \<Rightarrow> real" where
  "distance2 a b = length2 (sub2 a b)"

fun sub3 :: "vec3 \<Rightarrow> vec3 \<Rightarrow> vec3" where
  "sub3 (ax, ay, az) (bx, by, bz) = (ax - bx, ay - by, az - bz)"

fun add3 :: "vec3 \<Rightarrow> vec3 \<Rightarrow> vec3" where
  "add3 (ax, ay, az) (bx, by, bz) = (ax + bx, ay + by, az + bz)"

fun scale3 :: "real \<Rightarrow> vec3 \<Rightarrow> vec3" where
  "scale3 k (ax, ay, az) = (k * ax, k * ay, k * az)"

fun div3 :: "vec3 \<Rightarrow> real \<Rightarrow> vec3" where
  "div3 (ax, ay, az) k = (ax / k, ay / k, az / k)"

fun neg3 :: "vec3 \<Rightarrow> vec3" where
  "neg3 (ax, ay, az) = (- ax, - ay, - az)"

fun dot3 :: "vec3 \<Rightarrow> vec3 \<Rightarrow> real" where
  "dot3 (ax, ay, az) (bx, by, bz) = ax * bx + ay * by + az * bz"

fun cross :: "vec3 \<Rightarrow> vec3 \<Rightarrow> vec3" where
  "cross (ax, ay, az) (bx, by, bz) = (ay * bz - az * by, az * bx - ax * bz, ax * by - ay * bx)"

definition length3 :: "vec3 \<Rightarrow> real" where
  "length3 v = sqrt (dot3 v v)"

definition normalize3 :: "vec3 \<Rightarrow> vec3" where
  "normalize3 v = div3 v (length3 v)"

fun add4 :: "vec4 \<Rightarrow> vec4 \<Rightarrow> vec4" where
  "add4 (ax, ay, az, aw) (bx, by, bz, bw) = (ax + bx, ay + by, az + bz, aw + bw)"

fun scale4 :: "real \<Rightarrow> vec4 \<Rightarrow> vec4" where
  "scale4 k (ax, ay, az, aw) = (k * ax, k * ay, k * az, k * aw)"

fun point4 :: "vec3 \<Rightarrow> vec4" where
  "point4 (ax, ay, az) = (ax, ay, az, 1)"

fun xyz :: "vec4 \<Rightarrow> vec3" where
  "xyz (ax, ay, az, aw) = (ax, ay, az)"

fun xy :: "vec4 \<Rightarrow> vec2" where
  "xy (ax, ay, az, aw) = (ax, ay)"

fun wOf :: "vec4 \<Rightarrow> real" where
  "wOf (ax, ay, az, aw) = aw"

fun mulMat4Vec4 :: "mat4 \<Rightarrow> vec4 \<Rightarrow> vec4" where
  "mulMat4Vec4 (c0, c1, c2, c3) (vx, vy, vz, vw) =
     add4 (add4 (add4 (scale4 vx c0) (scale4 vy c1)) (scale4 vz c2)) (scale4 vw c3)"

fun mulMat4 :: "mat4 \<Rightarrow> mat4 \<Rightarrow> mat4" where
  "mulMat4 A (b0, b1, b2, b3) =
     (mulMat4Vec4 A b0, mulMat4Vec4 A b1, mulMat4Vec4 A b2, mulMat4Vec4 A b3)"

fun mat3Of :: "mat4 \<Rightarrow> mat3" where
  "mat3Of (c0, c1, c2, c3) = (xyz c0, xyz c1, xyz c2)"

fun mulMat3Vec3 :: "mat3 \<Rightarrow> vec3 \<Rightarrow> vec3" where
  "mulMat3Vec3 (c0, c1, c2) (vx, vy, vz) = add3 (add3 (scale3 vx c0) (scale3 vy c1)) (scale3 vz c2)"

subsection \<open>The vertex stage\<close>

text \<open>
  The attributes and uniforms the vertex stage reads for the edge data, and the
  varyings it writes. The colour varyings (by spherical harmonics or from \<open>aColor\<close>) and
  \<open>gl_Position\<close> of a triangle that is kept are computed after the edge data and do not
  enter it; the model leaves them out. A return with
  \<^verbatim>\<open>gl_Position = vec4(0.0, 0.0, 0.0, -1.0)\<close> culls the triangle: the result is
  \<^const>\<open>None\<close>.
\<close>

record vertex_in =
  aTriangleMinWeight_in :: real
  aTriangleV0_in :: vec3
  aTriangleV1_in :: vec3
  aTriangleV2_in :: vec3
  modelViewMatrix :: mat4
  projectionMatrix :: mat4
  uResolution :: vec2
  sigma_v :: real

record edge_varyings =
  vScreenPos0 :: vec2
  vScreenPos1 :: vec2
  vScreenPos2 :: vec2
  vTriangleMinWeight :: real
  vPhiCenterScale :: real
  vNormal0 :: vec2
  vNormal1 :: vec2
  vNormal2 :: vec2
  vOffset0 :: real
  vOffset1 :: real
  vOffset2 :: real

text \<open>
  Steps 1 to 6 of the backface test: the cosine between the view-space normal and the
  direction to the camera, after the flip that makes it non-positive.
\<close>

definition cosTheta :: "mat4 \<Rightarrow> vec3 \<Rightarrow> vec3 \<Rightarrow> vec3 \<Rightarrow> real" where
  "cosTheta mv V0 V1 V2 =
     (let edge1 = sub3 V1 V0;
          edge2 = sub3 V2 V0;
          normal_world = cross edge1 edge2;
          normalView0 = mulMat3Vec3 (mat3Of mv) normal_world;
          normalLen = length3 normalView0;
          normalView = (if normalLen > 1 / 10 ^ 4 then normalize3 normalView0 else normalView0);
          centerWorld = div3 (add3 (add3 V0 V1) V2) 3;
          centerView = xyz (mulMat4Vec4 mv (point4 centerWorld));
          viewDir = normalize3 (neg3 centerView);
          cos_theta = dot3 normalView viewDir
      in if cos_theta > 0 then - cos_theta else cos_theta)"

text \<open>
  The pixel position of a clip-space position:
  \<^verbatim>\<open>((c.xy / c.w) + 1.0) * uResolution * 0.5 - 0.5\<close>.
\<close>

fun projectClip :: "vec2 \<Rightarrow> vec4 \<Rightarrow> vec2" where
  "projectClip (rx, ry) (cx, cy, cz, cw) = (projectPixel (cx / cw) rx, projectPixel (cy / cw) ry)"

text \<open>
  The incentre of the projected triangle and its perimeter, and the largest distance
  from the incentre to a projected vertex (the loop that starts from \<open>0.0\<close>).
\<close>

definition perimeterOf :: "vec2 \<Rightarrow> vec2 \<Rightarrow> vec2 \<Rightarrow> real" where
  "perimeterOf p0 p1 p2 = distance2 p1 p2 + distance2 p2 p0 + distance2 p0 p1"

definition incenterOf :: "vec2 \<Rightarrow> vec2 \<Rightarrow> vec2 \<Rightarrow> vec2" where
  "incenterOf p0 p1 p2 =
     (let sideA = distance2 p1 p2;
          sideB = distance2 p2 p0;
          sideC = distance2 p0 p1;
          perimeter = sideA + sideB + sideC
      in div2 (add2 (add2 (scale2 sideA p0) (scale2 sideB p1)) (scale2 sideC p2)) perimeter)"

definition distancePoints :: "vec2 list \<Rightarrow> vec2 \<Rightarrow> real" where
  "distancePoints projected incenter =
     foldl (\<lambda>distance_points i.
              let d = distance2 (projected ! i) incenter
              in if d > distance_points then d else distance_points)
           0 [0..<3]"

text \<open>
  The first half of the body of the edge loop: the normal of the edge from \<open>current\<close>
  to \<open>next\<close>, normalised when it is longer than \<open>10^-4\<close>, the offset, and the signed
  distance of the incentre, all three flipped when the distance is positive.
\<close>

definition edgeGeom :: "vec2 \<Rightarrow> vec2 \<Rightarrow> vec2 \<Rightarrow> vec2 \<times> real \<times> real" where
  "edgeGeom current next incenter =
     (let edge = sub2 next current;
          normal0 = (snd edge, - fst edge);
          len = length2 normal0;
          normal = (if len > 1 / 10 ^ 4 then div2 normal0 len else normal0);
          offset = - (fst normal * fst current + snd normal * snd current);
          dst = fst normal * fst incenter + snd normal * snd incenter + offset
      in if dst > 0 then (neg2 normal, - offset, - dst) else (normal, offset, dst))"

text \<open>
  The edge loop, on the state \<open>(computedSize, lastDist, edgeNormals, edgeOffsets)\<close>:
  the shrink size is computed when \<open>computedSize\<close> is still \<open>0.0\<close>.
\<close>

definition edgeStep ::
  "vec2 list \<Rightarrow> vec2 \<Rightarrow> real \<Rightarrow> real \<Rightarrow> real \<times> real \<times> vec2 list \<times> real list \<Rightarrow> nat
     \<Rightarrow> real \<times> real \<times> vec2 list \<times> real list" where
  "edgeStep projected incenter ratio exponent st i =
     (case st of (computedSize, lastDist, edgeNormals, edgeOffsets) \<Rightarrow>
        (case edgeGeom (projected ! i) (projected ! ((i + 1) mod 3)) incenter of
           (normal, offset, dst) \<Rightarrow>
             let shrinkSize = (if computedSize = 0 then dst * (ratio powr exponent)
                               else computedSize);
                 computedSize' = (if computedSize = 0 then shrinkSize else computedSize);
                 offsetWithShrink = offset - shrinkSize
             in (computedSize', dst, edgeNormals[i := normal],
                 edgeOffsets[i := offsetWithShrink])))"

definition edgeLoop ::
  "vec2 list \<Rightarrow> vec2 \<Rightarrow> real \<Rightarrow> real \<Rightarrow> real \<times> real \<times> vec2 list \<times> real list" where
  "edgeLoop projected incenter ratio exponent =
     foldl (edgeStep projected incenter ratio exponent)
       (0, - (1 / 10 ^ 4), [(0, 0), (0, 0), (0, 0)], [0, 0, 0]) [0..<3]"

text \<open>The vertex stage, with its culling sequence in the order of the source.\<close>

definition vertex_main :: "vertex_in \<Rightarrow> edge_varyings option" where
  "vertex_main a =
     (let m = aTriangleMinWeight_in a;
          V0 = aTriangleV0_in a; V1 = aTriangleV1_in a; V2 = aTriangleV2_in a;
          mv = modelViewMatrix a
      in if m < 1 / 100 then None
         else if \<bar>cosTheta mv V0 V1 V2\<bar> < 1 / 1000 then None
         else
           let pmv = mulMat4 (projectionMatrix a) mv;
               c0 = mulMat4Vec4 pmv (point4 V0);
               c1 = mulMat4Vec4 pmv (point4 V1);
               c2 = mulMat4Vec4 pmv (point4 V2)
           in if wOf c0 \<le> 0 \<and> wOf c1 \<le> 0 \<and> wOf c2 \<le> 0 then None
              else
                let projected = [projectClip (uResolution a) c0,
                                 projectClip (uResolution a) c1,
                                 projectClip (uResolution a) c2];
                    perimeter = perimeterOf (projected ! 0) (projected ! 1) (projected ! 2)
                in if perimeter < 1 then None
                   else
                     let incenter = incenterOf (projected ! 0) (projected ! 1) (projected ! 2);
                         distance_points = distancePoints projected incenter
                     in if distance_points > 1600 \<or> distance_points < 1 then None
                        else
                          let stopping_influence = 1 / 100;
                              ratio = stopping_influence / m;
                              exponent = 1 / sigma_v a
                          in (case edgeLoop projected incenter ratio exponent of
                                (computedSize, lastDist, edgeNormals, edgeOffsets) \<Rightarrow>
                                  let safeDist = (if lastDist \<ge> 0 then - (1 / 10 ^ 4) else lastDist)
                                  in Some \<lparr> vScreenPos0 = projected ! 0,
                                            vScreenPos1 = projected ! 1,
                                            vScreenPos2 = projected ! 2,
                                            vTriangleMinWeight = m,
                                            vPhiCenterScale = 1 / safeDist,
                                            vNormal0 = edgeNormals ! 0,
                                            vNormal1 = edgeNormals ! 1,
                                            vNormal2 = edgeNormals ! 2,
                                            vOffset0 = edgeOffsets ! 0,
                                            vOffset1 = edgeOffsets ! 1,
                                            vOffset2 = edgeOffsets ! 2 \<rparr>))"

subsection \<open>The fragment stage\<close>

text \<open>
  The varyings the fragment stage reads: the edge data of the vertex stage and the three
  vertex colours. \<^verbatim>\<open>discard\<close> is \<^const>\<open>None\<close>.
\<close>

record fragment_in =
  vColor0 :: vec3
  vColor1 :: vec3
  vColor2 :: vec3
  edges :: edge_varyings

fun computeBarycentric :: "vec2 \<Rightarrow> vec2 \<Rightarrow> vec2 \<Rightarrow> vec2 \<Rightarrow> vec3" where
  "computeBarycentric p a b c =
     (let v0 = sub2 b a;
          v1 = sub2 c a;
          v2 = sub2 p a;
          denom = fst v0 * snd v1 - fst v1 * snd v0
      in if \<bar>denom\<bar> < 1 / 10 ^ 6 then (1 / 3, 1 / 3, 1 / 3)
         else
           let invDen = 1 / denom;
               b0 = (fst v2 * snd v1 - fst v1 * snd v2) * invDen;
               b1 = (- fst v2 * snd v0 + fst v0 * snd v2) * invDen;
               b2 = 1 - b0 - b1
           in (b2, b0, b1))"

definition fragment_main :: "fragment_in \<Rightarrow> vec2 \<Rightarrow> real \<Rightarrow> vec4 option" where
  "fragment_main v pixf sigma =
     (let e = edges v;
          d0 = dot2 (vNormal0 e) pixf + vOffset0 e;
          d1 = dot2 (vNormal1 e) pixf + vOffset1 e;
          d2 = dot2 (vNormal2 e) pixf + vOffset2 e
      in if d0 > 0 \<or> d1 > 0 \<or> d2 > 0 then None
         else
           let max_val = max d0 (max d1 d2);
               phi_final = max_val * vPhiCenterScale e;
               Cx = max 0 ((max phi_final 0) powr sigma);
               finalAlpha = min (99 / 100) (vTriangleMinWeight e * Cx)
           in if finalAlpha < 1 / 255 then None
              else
                (case computeBarycentric pixf (vScreenPos0 e) (vScreenPos1 e) (vScreenPos2 e) of
                   (bx, by, bz) \<Rightarrow>
                     (case add3 (add3 (scale3 bx (vColor0 v)) (scale3 by (vColor1 v)))
                                (scale3 bz (vColor2 v)) of
                        (r, g, b) \<Rightarrow>
                          Some (r * finalAlpha, g * finalAlpha, b * finalAlpha, finalAlpha))))"

text \<open>
  Notions of the specification for the fragment stage: the colour \<open>C\<close> with alpha
  \<open>alpha\<close> in pre-multiplied form \<open>(C * alpha, alpha)\<close>, and the denominator of the
  barycentric coordinates of the triangle \<open>a, b, c\<close>.
\<close>

fun premultiplied :: "vec3 \<Rightarrow> real \<Rightarrow> vec4" where
  "premultiplied (r, g, b) alpha = (r * alpha, g * alpha, b * alpha, alpha)"

fun baryDenom :: "vec2 \<Rightarrow> vec2 \<Rightarrow> vec2 \<Rightarrow> real" where
  "baryDenom (ax, ay) (bx, by) (cx, cy) = (bx - ax) * (cy - ay) - (cx - ax) * (by - ay)"

text \<open>
  A fragment at the pixel \<open>(4, 6)\<close> of the triangle \<open>(0, 0), (10, 0), (0, 10)\<close> with the
  vertex colours red, green and blue.
\<close>

definition example_fragment :: fragment_in where
  "example_fragment =
     \<lparr> vColor0 = (1, 0, 0), vColor1 = (0, 1, 0), vColor2 = (0, 0, 1),
       edges = \<lparr> vScreenPos0 = (0, 0), vScreenPos1 = (10, 0), vScreenPos2 = (0, 10),
                 vTriangleMinWeight = 1 / 2, vPhiCenterScale = - (1 / 5),
                 vNormal0 = (1, 0), vNormal1 = (0, 1), vNormal2 = (- 1, 0),
                 vOffset0 = - 10, vOffset1 = - 10, vOffset2 = 0 \<rparr> \<rparr>"

text \<open>
  The three results of \<^const>\<open>edgeGeom\<close> by name: the oriented normal \<open>n_k\<close>, the
  oriented offset \<open>o_k\<close> before shrinking, and the signed distance \<open>d_k\<close> of the
  incentre.
\<close>

definition edgeNormal :: "vec2 \<Rightarrow> vec2 \<Rightarrow> vec2 \<Rightarrow> vec2" where
  "edgeNormal current next incenter = fst (edgeGeom current next incenter)"

definition edgeOffset :: "vec2 \<Rightarrow> vec2 \<Rightarrow> vec2 \<Rightarrow> real" where
  "edgeOffset current next incenter = fst (snd (edgeGeom current next incenter))"

definition edgeDist :: "vec2 \<Rightarrow> vec2 \<Rightarrow> vec2 \<Rightarrow> real" where
  "edgeDist current next incenter = snd (snd (edgeGeom current next incenter))"

text \<open>
  Inputs of the vertex stage, both under the identity model-view matrix, the projection
  that maps a world unit to a pixel of an 800 by 600 buffer (a world point \<open>(x, y, -1)\<close>
  lands on the pixel \<open>(x + 399.5, y + 299.5)\<close>), opacity \<open>1/2\<close> and \<open>sigma = 1\<close>:
  a right triangle with the sides 30, 40 and 50 pixels, and a thin isosceles triangle
  with the base \<open>2 * 1599999999 / 800000000\<close> (almost four pixels), the height \<open>10^-4\<close>
  pixels and the two other sides \<open>1600000001 / 800000000\<close>, so that its perimeter is 8 and
  its incentre is \<open>1599999999 / 32000000000000\<close> (almost \<open>5 * 10^-5\<close>) pixels away from each
  edge.
\<close>

definition identity4 :: mat4 where
  "identity4 = ((1, 0, 0, 0), (0, 1, 0, 0), (0, 0, 1, 0), (0, 0, 0, 1))"

definition pixel_projection :: mat4 where
  "pixel_projection = ((1 / 400, 0, 0, 0), (0, 1 / 300, 0, 0), (0, 0, 1, 0), (0, 0, 0, 1))"

definition example_vertex :: vertex_in where
  "example_vertex =
     \<lparr> aTriangleMinWeight_in = 1 / 2,
       aTriangleV0_in = (- 10, - (40 / 3), - 1),
       aTriangleV1_in = (20, - (40 / 3), - 1),
       aTriangleV2_in = (- 10, 80 / 3, - 1),
       modelViewMatrix = identity4,
       projectionMatrix = pixel_projection,
       uResolution = (800, 600),
       sigma_v = 1 \<rparr>"

definition thin_vertex :: vertex_in where
  "thin_vertex =
     \<lparr> aTriangleMinWeight_in = 1 / 2,
       aTriangleV0_in = (- (1599999999 / 800000000), - (1 / 30000), - 1),
       aTriangleV1_in = (1599999999 / 800000000, - (1 / 30000), - 1),
       aTriangleV2_in = (0, 2 / 30000, - 1),
       modelViewMatrix = identity4,
       projectionMatrix = pixel_projection,
       uResolution = (800, 600),
       sigma_v = 1 \<rparr>"

text \<open>
  The varyings the vertex stage writes for the two inputs: the shrink amounts are
  \<open>-10 * (1/50) = -1/5\<close> and \<open>-(1599999999 / 32000000000000) * (1/50)\<close>.
\<close>

definition example_varyings :: edge_varyings where
  "example_varyings =
     \<lparr> vScreenPos0 = (779 / 2, 1717 / 6),
       vScreenPos1 = (839 / 2, 1717 / 6),
       vScreenPos2 = (779 / 2, 1957 / 6),
       vTriangleMinWeight = 1 / 2,
       vPhiCenterScale = - (1 / 10),
       vNormal0 = (0, - 1), vNormal1 = (4 / 5, 3 / 5), vNormal2 = (- 1, 0),
       vOffset0 = 1717 / 6 + 1 / 5, vOffset1 = - (5073 / 10) + 1 / 5, vOffset2 = 779 / 2 + 1 / 5 \<rparr>"

definition thin_varyings :: edge_varyings where
  "thin_varyings =
     \<lparr> vScreenPos0 = (799 / 2 - 1599999999 / 800000000, 599 / 2 - 1 / 30000),
       vScreenPos1 = (799 / 2 + 1599999999 / 800000000, 599 / 2 - 1 / 30000),
       vScreenPos2 = (799 / 2, 599 / 2 + 2 / 30000),
       vTriangleMinWeight = 1 / 2,
       vPhiCenterScale = - (32000000000000 / 1599999999),
       vNormal0 = (0, - 1),
       vNormal1 = (80000 / 1600000001, 1599999999 / 1600000001),
       vNormal2 = (- (80000 / 1600000001), 1599999999 / 1600000001),
       vOffset0 = 599 / 2 - 1 / 30000 + 1599999999 / 1600000000000000,
       vOffset1 = - (80000 / 1600000001 * (799 / 2 + 1599999999 / 800000000)
                     + 1599999999 / 1600000001 * (599 / 2 - 1 / 30000))
                  + 1599999999 / 1600000000000000,
       vOffset2 = - (- (80000 / 1600000001) * (799 / 2)
                     + 1599999999 / 1600000001 * (599 / 2 + 2 / 30000))
                  + 1599999999 / 1600000000000000 \<rparr>"

text \<open>
  Notions of the specification for the scale of the soft edge: \<open>d_last\<close>, the distance
  of the incentre to the third edge (from \<open>p_2\<close> back to \<open>p_0\<close>) after orientation, and the
  scale \<open>1 / min(d_last, -10^-4)\<close> as the specification words it.
\<close>

definition d_last :: "edge_varyings \<Rightarrow> real" where
  "d_last v = edgeDist (vScreenPos2 v) (vScreenPos0 v)
                (incenterOf (vScreenPos0 v) (vScreenPos1 v) (vScreenPos2 v))"

definition phi_scale_spec :: "edge_varyings \<Rightarrow> real" where
  "phi_scale_spec v = 1 / min (d_last v) (- (1 / 10 ^ 4))"

text \<open>
  An input of the vertex stage whose numbers are all binary32 numbers: the identity
  model-view matrix, the orthographic projection of a view of 128 by 128 pixels with one
  world unit to the pixel (the world point \<open>(x, y, -1)\<close> lands on the pixel
  \<open>(x + 63.5, y + 63.5)\<close>), opacity \<open>1/64\<close> and \<open>sigma = 1\<close>, and a flat triangle
  whose projected vertices are \<open>(56.5, 64)\<close>, \<open>(72.5, 64)\<close> and
  \<open>(60.5, 64 + 2^-17)\<close>: the third vertex is one binary32 step above the line of the
  first edge. The incentre of the projected triangle lies less than half a step above
  that line; \<open>flat_incenter\<close> is the incentre as binary32 holds it, on the line.
\<close>

definition ortho_128 :: mat4 where
  "ortho_128 = ((1 / 64, 0, 0, 0), (0, 1 / 64, 0, 0), (0, 0, - 1, 0), (0, 0, - 1, 1))"

definition flat_vertex :: vertex_in where
  "flat_vertex =
     \<lparr> aTriangleMinWeight_in = 1 / 64,
       aTriangleV0_in = (- 7, 1 / 2, - 1),
       aTriangleV1_in = (9, 1 / 2, - 1),
       aTriangleV2_in = (- 3, 1 / 2 + 1 / 2 ^ 17, - 1),
       modelViewMatrix = identity4,
       projectionMatrix = ortho_128,
       uResolution = (128, 128),
       sigma_v = 1 \<rparr>"

definition flat_p0 :: vec2 where
  "flat_p0 = (113 / 2, 64)"

definition flat_p1 :: vec2 where
  "flat_p1 = (145 / 2, 64)"

definition flat_p2 :: vec2 where
  "flat_p2 = (121 / 2, 64 + 1 / 2 ^ 17)"

definition flat_incenter :: vec2 where
  "flat_incenter = (121 / 2, 64)"
section \<open>Properties\<close>

subsection \<open>Pixel projection\<close>

text \<open>
  C8. For every ndc value and every resolution S the implemented projection
  (ndc + 1) * S * 0.5 - 0.5 equals the reference ((ndc + 1) * S - 1) * 0.5 over the
  reals, and for S = 1920 the ndc values -1, 0, +1 map to the pixels -0.5, 959.5 and
  1919.5.
\<close>

theorem projectPixel_reference:
  "projectPixel ndc S = ndc2Pix_reference ndc S
   \<and> projectPixel (-1) 1920 = -0.5
   \<and> projectPixel 0 1920 = 959.5
   \<and> projectPixel 1 1920 = 1919.5"
  by (simp add: projectPixel_def ndc2Pix_reference_def algebra_simps)

subsection \<open>The counting sort is a stable sort by bucket\<close>

lemma length_countDepths_aux:
  "length (foldl (countStep ds) cs xs) = length cs"
  by (induction xs arbitrary: cs) (auto simp: countStep_def Let_def)

lemma countDepths_aux:
  "b < length cs \<Longrightarrow>
   foldl (countStep ds) cs xs ! b = cs ! b + length (filter (\<lambda>i. ds ! i = b) xs)"
proof (induction xs arbitrary: cs)
  case Nil
  then show ?case by simp
next
  case (Cons x xs)
  have len: "b < length (countStep ds cs x)"
    using Cons.prems by (simp add: countStep_def Let_def)
  have step: "countStep ds cs x ! b = cs ! b + (if ds ! x = b then 1 else 0)"
    using Cons.prems by (auto simp: countStep_def Let_def nth_list_update)
  show ?case
    using Cons.IH[OF len] step by simp
qed

lemma length_countDepths: "length (countDepths T ds) = NUM_BUCKETS"
  by (simp add: countDepths_def length_countDepths_aux)

lemma countDepths_nth:
  "b < NUM_BUCKETS \<Longrightarrow> countDepths T ds ! b = length (filter (\<lambda>i. ds ! i = b) [0..<T])"
  by (simp add: countDepths_def countDepths_aux)


lemma filter_less_Suc_length:
  "length (filter (\<lambda>i. f i < Suc b) xs) =
   length (filter (\<lambda>i. f i < b) xs) + length (filter (\<lambda>i. f i = (b::nat)) xs)"
  by (induction xs) auto

lemma offsets_aux:
  "k \<le> length offs \<Longrightarrow>
   foldl (offsetStep cs) (offs, c) [0..<k] = (offs', c') \<Longrightarrow>
   length offs' = length offs \<and> c' = c + (\<Sum>b<k. cs ! b) \<and>
   (\<forall>b<k. offs' ! b = c + (\<Sum>b'<b. cs ! b'))"
proof (induction k arbitrary: offs' c')
  case 0
  then show ?case by simp
next
  case (Suc k)
  obtain o1 c1 where f: "foldl (offsetStep cs) (offs, c) [0..<k] = (o1, c1)"
    by (cases "foldl (offsetStep cs) (offs, c) [0..<k]")
  have ih: "length o1 = length offs \<and> c1 = c + (\<Sum>b<k. cs ! b) \<and>
            (\<forall>b<k. o1 ! b = c + (\<Sum>b'<b. cs ! b'))"
    using Suc.IH[OF _ f] Suc.prems(1) by simp
  have "offsetStep cs (o1, c1) k = (offs', c')"
    using Suc.prems(2) f by simp
  then have st: "offs' = o1[k := c1]" "c' = c1 + cs ! k"
    by (simp_all add: offsetStep_def Let_def)
  show ?case
    using ih st Suc.prems(1) by (auto simp: nth_list_update less_Suc_eq)
qed

lemma prefixOffsets_props:
  "length (prefixOffsets cs) = NUM_BUCKETS \<and>
   (\<forall>b<NUM_BUCKETS. prefixOffsets cs ! b = (\<Sum>b'<b. cs ! b'))"
proof -
  obtain o1 c1 where f:
    "foldl (offsetStep cs) (replicate NUM_BUCKETS 0, 0) [0..<NUM_BUCKETS] = (o1, c1)"
    by (cases "foldl (offsetStep cs) (replicate NUM_BUCKETS 0, 0) [0..<NUM_BUCKETS]")
  have "length o1 = NUM_BUCKETS \<and> (\<forall>b<NUM_BUCKETS. o1 ! b = 0 + (\<Sum>b'<b. cs ! b'))"
    using offsets_aux[OF _ f] by simp
  then show ?thesis by (simp add: prefixOffsets_def f)
qed

lemma sum_counts_below:
  "b \<le> NUM_BUCKETS \<Longrightarrow>
   (\<Sum>b'<b. countDepths T ds ! b') = length (filter (\<lambda>i. ds ! i < b) [0..<T])"
proof (induction b)
  case 0
  then show ?case by simp
next
  case (Suc b)
  then show ?case
    by (simp add: countDepths_nth filter_less_Suc_length)
qed

lemma offsets_base:
  "b < NUM_BUCKETS \<Longrightarrow>
   prefixOffsets (countDepths T ds) ! b = length (filter (\<lambda>i. ds ! i < b) [0..<T])"
  using prefixOffsets_props[of "countDepths T ds"] sum_counts_below[of b T ds] by simp


lemma length_filter_disj:
  "(\<And>x. x \<in> set xs \<Longrightarrow> \<not> (P x \<and> Q x)) \<Longrightarrow>
   length (filter (\<lambda>x. P x \<or> Q x) xs) = length (filter P xs) + length (filter Q xs)"
  by (induction xs) auto

lemma filter_upt_below:
  "i \<le> T \<Longrightarrow> filter (\<lambda>j. P j \<and> j < i) [0..<T] = filter P [0..<i]"
proof -
  assume le: "i \<le> T"
  have split: "[0..<T] = [0..<i] @ [i..<T]"
    using le by (metis le_add_diff_inverse upt_add_eq_append zero_le)
  have a: "filter (\<lambda>j. P j \<and> j < i) [0..<i] = filter P [0..<i]"
    by (rule filter_cong) auto
  have b: "filter (\<lambda>j. P j \<and> j < i) [i..<T] = []"
    by (simp add: filter_empty_conv)
  show ?thesis
    by (simp add: split a b del: upt_Suc)
qed

lemma sortRank_split:
  assumes "i \<le> T"
  shows "sortRank ds T i =
         length (filter (\<lambda>j. ds ! j < ds ! i) [0..<T])
         + length (filter (\<lambda>j. ds ! j = ds ! i) [0..<i])"
proof -
  have "sortRank ds T i =
        length (filter (\<lambda>j. ds ! j < ds ! i) [0..<T])
        + length (filter (\<lambda>j. ds ! j = ds ! i \<and> j < i) [0..<T])"
    unfolding sortRank_def by (rule length_filter_disj) auto
  then show ?thesis
    using filter_upt_below[OF assms, of "\<lambda>j. ds ! j = ds ! i"] by simp
qed

lemma sortRank_card:
  "sortRank ds T i = card {j. j < T \<and> (ds ! j < ds ! i \<or> (ds ! j = ds ! i \<and> j < i))}"
proof -
  have "sortRank ds T i =
        card ({j. ds ! j < ds ! i \<or> (ds ! j = ds ! i \<and> j < i)} \<inter> set [0..<T])"
    unfolding sortRank_def by (rule distinct_length_filter) simp
  also have "{j. ds ! j < ds ! i \<or> (ds ! j = ds ! i \<and> j < i)} \<inter> set [0..<T] =
             {j. j < T \<and> (ds ! j < ds ! i \<or> (ds ! j = ds ! i \<and> j < i))}"
    by auto
  finally show ?thesis .
qed

lemma sortRank_mono:
  assumes "i < T" and "ds ! i < ds ! j \<or> (ds ! i = ds ! j \<and> i < j)"
  shows "sortRank ds T i < sortRank ds T j"
proof -
  let ?A = "{x. x < T \<and> (ds ! x < ds ! i \<or> (ds ! x = ds ! i \<and> x < i))}"
  let ?B = "{x. x < T \<and> (ds ! x < ds ! j \<or> (ds ! x = ds ! j \<and> x < j))}"
  have fin: "finite ?B" by simp
  have sub: "?A \<subseteq> ?B" using assms(2) by auto
  have "i \<in> ?B" using assms by simp
  moreover have "i \<notin> ?A" by simp
  ultimately have "?A \<subset> ?B" using sub by blast
  then show ?thesis
    unfolding sortRank_card using fin by (rule psubset_card_mono[rotated])
qed

lemma sortRank_less:
  assumes "i < T"
  shows "sortRank ds T i < T"
proof -
  let ?A = "{x. x < T \<and> (ds ! x < ds ! i \<or> (ds ! x = ds ! i \<and> x < i))}"
  have "?A \<subseteq> {0..<T} - {i}" by auto
  then have "card ?A \<le> card ({0..<T} - {i})"
    by (intro card_mono) auto
  also have "\<dots> = T - 1" using assms by simp
  finally show ?thesis
    unfolding sortRank_card using assms by simp
qed

lemma sortRank_inj:
  assumes "i < T" "j < T" "sortRank ds T i = sortRank ds T j"
  shows "i = j"
proof (rule ccontr)
  assume ne: "i \<noteq> j"
  have "ds ! i < ds ! j \<or> (ds ! i = ds ! j \<and> i < j) \<or>
        ds ! j < ds ! i \<or> (ds ! j = ds ! i \<and> j < i)"
    using ne by auto
  then show False
    using sortRank_mono[of i T ds j] sortRank_mono[of j T ds i] assms by auto
qed


lemma scatter_invariant:
  assumes keys: "\<forall>i<T. ds ! i < NUM_BUCKETS"
    and offs0: "length offs0 = NUM_BUCKETS"
      "\<forall>b<NUM_BUCKETS. offs0 ! b = length (filter (\<lambda>i. ds ! i < b) [0..<T])"
  shows "k \<le> T \<Longrightarrow>
     foldl (scatterStep ds) (offs0, replicate T 0) [0..<k] = (offs, out) \<Longrightarrow>
     length offs = NUM_BUCKETS \<and> length out = T \<and>
     (\<forall>b<NUM_BUCKETS. offs ! b = offs0 ! b + length (filter (\<lambda>i. ds ! i = b) [0..<k])) \<and>
     (\<forall>i<k. out ! sortRank ds T i = i)"
proof (induction k arbitrary: offs out)
  case 0
  then show ?case using offs0 by auto
next
  case (Suc k)
  obtain o1 s1 where f: "foldl (scatterStep ds) (offs0, replicate T 0) [0..<k] = (o1, s1)"
    by (cases "foldl (scatterStep ds) (offs0, replicate T 0) [0..<k]")
  have kT: "k < T" using Suc.prems(1) by simp
  have ih: "length o1 = NUM_BUCKETS" "length s1 = T"
    "\<forall>b<NUM_BUCKETS. o1 ! b = offs0 ! b + length (filter (\<lambda>i. ds ! i = b) [0..<k])"
    "\<forall>i<k. s1 ! sortRank ds T i = i"
    using Suc.IH[OF _ f] kT by simp_all
  have dk: "ds ! k < NUM_BUCKETS" using keys kT by simp
  have pos: "o1 ! (ds ! k) = sortRank ds T k"
    using ih(3) dk offs0(2) sortRank_split[of k T ds] kT by simp
  have "scatterStep ds (o1, s1) k = (offs, out)"
    using Suc.prems(2) f by simp
  then have st: "offs = o1[ds ! k := o1 ! (ds ! k) + 1]" "out = s1[sortRank ds T k := k]"
    using dk ih(1) pos by (simp_all add: scatterStep_def Let_def)
  have a: "\<forall>b<NUM_BUCKETS. offs ! b = offs0 ! b + length (filter (\<lambda>i. ds ! i = b) [0..<Suc k])"
    using st(1) ih(1) ih(3) by (auto simp: nth_list_update)
  have b: "\<forall>i<Suc k. out ! sortRank ds T i = i"
  proof (intro allI impI)
    fix i assume i: "i < Suc k"
    show "out ! sortRank ds T i = i"
    proof (cases "i = k")
      case True
      then show ?thesis
        using st(2) ih(2) sortRank_less[OF kT, of ds] by simp
    next
      case False
      then have ik: "i < k" using i by simp
      then have "sortRank ds T i \<noteq> sortRank ds T k"
        using sortRank_inj[of i T k ds] kT by auto
      then show ?thesis
        using st(2) ih(4) ik by (simp add: nth_list_update)
    qed
  qed
  show ?case
    using st ih(1,2) a b by simp
qed

lemma countingSort_rank:
  assumes keys: "\<forall>i<T. ds ! i < NUM_BUCKETS"
  shows "length (countingSort T ds) = T \<and>
         (\<forall>i<T. countingSort T ds ! sortRank ds T i = i)"
proof -
  let ?offs0 = "prefixOffsets (countDepths T ds)"
  obtain o1 s1 where f:
    "foldl (scatterStep ds) (?offs0, replicate T 0) [0..<T] = (o1, s1)"
    by (cases "foldl (scatterStep ds) (?offs0, replicate T 0) [0..<T]")
  have l0: "length ?offs0 = NUM_BUCKETS"
    using prefixOffsets_props by simp
  have b0: "\<forall>b<NUM_BUCKETS. ?offs0 ! b = length (filter (\<lambda>i. ds ! i < b) [0..<T])"
    using offsets_base by simp
  have "length s1 = T \<and> (\<forall>i<T. s1 ! sortRank ds T i = i)"
    using scatter_invariant[OF keys l0 b0 _ f] by simp
  then show ?thesis
    by (simp add: countingSort_def scatterIndices_def f)
qed

lemma rank_list_is_sort_key:
  fixes out :: "nat list"
  assumes len: "length out = T"
    and rk: "\<forall>i<T. out ! sortRank ds T i = i"
  shows "out = sort_key (\<lambda>i. ds ! i) [0..<T]"
proof -
  let ?r = "sortRank ds T"
  have inj: "inj_on ?r {0..<T}"
    by (rule inj_onI) (use sortRank_inj in auto)
  have "?r ` {0..<T} \<subseteq> {0..<T}"
    using sortRank_less by auto
  then have surj: "?r ` {0..<T} = {0..<T}"
    using inj by (simp add: card_image card_subset_eq)
  have inv: "\<And>p. p < T \<Longrightarrow> out ! p < T \<and> ?r (out ! p) = p"
  proof -
    fix p assume "p < T"
    then have "p \<in> ?r ` {0..<T}" using surj by simp
    then obtain i where "i < T" "p = ?r i" by auto
    then show "out ! p < T \<and> ?r (out ! p) = p" using rk by simp
  qed
  have dist: "distinct out"
    unfolding distinct_conv_nth
  proof (intro allI impI)
    fix p q assume "p < length out" "q < length out" "p \<noteq> q"
    then show "out ! p \<noteq> out ! q"
      using inv[of p] inv[of q] len by metis
  qed
  have sub: "set out \<subseteq> {0..<T}"
    using inv len by (auto simp: in_set_conv_nth)
  have "card (set out) = T"
    using dist len by (simp add: distinct_card)
  then have seteq: "set out = {0..<T}"
    using sub by (simp add: card_subset_eq)
  have ms: "mset out = mset [0..<T]"
    using dist seteq set_eq_iff_mset_eq_distinct[of out "[0..<T]"] by simp
  have order: "\<And>p q. p < q \<Longrightarrow> q < T \<Longrightarrow>
      ds ! (out ! p) < ds ! (out ! q) \<or> (ds ! (out ! p) = ds ! (out ! q) \<and> out ! p < out ! q)"
  proof (rule ccontr)
    fix p q assume pq: "p < q" "q < T"
    assume n: "\<not> (ds ! (out ! p) < ds ! (out ! q) \<or>
                  (ds ! (out ! p) = ds ! (out ! q) \<and> out ! p < out ! q))"
    have ne: "out ! p \<noteq> out ! q"
      using inv[of p] inv[of q] pq by auto
    have "ds ! (out ! q) < ds ! (out ! p) \<or>
          (ds ! (out ! q) = ds ! (out ! p) \<and> out ! q < out ! p)"
      using n ne by auto
    then have "?r (out ! q) < ?r (out ! p)"
      using sortRank_mono[of "out ! q" T ds "out ! p"] inv[of q] pq by simp
    then show False
      using inv[of p] inv[of q] pq by simp
  qed
  have srt: "sorted (map (\<lambda>i. ds ! i) out)"
    unfolding sorted_iff_nth_mono_less
  proof (intro allI impI)
    fix i j assume "i < j" "j < length (map (\<lambda>i. ds ! i) out)"
    then show "map (\<lambda>i. ds ! i) out ! i \<le> map (\<lambda>i. ds ! i) out ! j"
      using order[of i j] len by auto
  qed
  have stab: "\<And>k. k \<in> set out \<Longrightarrow>
      filter (\<lambda>x. ds ! k = ds ! x) out = filter (\<lambda>x. ds ! k = ds ! x) [0..<T]"
  proof -
    fix k
    have "sorted_wrt (\<lambda>x y. ds ! x = ds ! y \<longrightarrow> x < y) out"
      unfolding sorted_wrt_iff_nth_less
    proof (intro allI impI)
      fix i j assume "i < j" "j < length out" "ds ! (out ! i) = ds ! (out ! j)"
      then show "out ! i < out ! j"
        using order[of i j] len by auto
    qed
    then have "sorted_wrt (\<lambda>x y. ds ! x = ds ! y \<longrightarrow> x < y) (filter (\<lambda>x. ds ! k = ds ! x) out)"
      by (rule sorted_wrt_filter)
    then have "sorted_wrt (<) (filter (\<lambda>x. ds ! k = ds ! x) out)"
      by (rule sorted_wrt_mono_rel[rotated]) auto
    then have s1: "sorted (filter (\<lambda>x. ds ! k = ds ! x) out)"
      and d1: "distinct (filter (\<lambda>x. ds ! k = ds ! x) out)"
      by (simp_all add: strict_sorted_iff)
    have s2: "sorted (filter (\<lambda>x. ds ! k = ds ! x) [0..<T])"
      and d2: "distinct (filter (\<lambda>x. ds ! k = ds ! x) [0..<T])"
      by (simp_all add: sorted_filter[where f = "\<lambda>x. x", simplified])
    have "set (filter (\<lambda>x. ds ! k = ds ! x) out) = set (filter (\<lambda>x. ds ! k = ds ! x) [0..<T])"
      using seteq by auto
    then show "filter (\<lambda>x. ds ! k = ds ! x) out = filter (\<lambda>x. ds ! k = ds ! x) [0..<T]"
      using sorted_distinct_set_unique[OF s1 d1 s2 d2] by simp
  qed
  show ?thesis
    using properties_for_sort_key[OF ms stab srt] by simp
qed

lemma countingSort_sort_key:
  assumes "\<forall>i<T. ds ! i < NUM_BUCKETS"
  shows "countingSort T ds = sort_key (\<lambda>i. ds ! i) [0..<T]"
  using countingSort_rank[OF assms] rank_list_is_sort_key by blast


lemma foldl_update_map:
  "k \<le> length a \<Longrightarrow>
   foldl (\<lambda>a i. a[i := g i]) a [0..<k] = map g [0..<k] @ drop k a"
proof (induction k)
  case 0
  then show ?case by simp
next
  case (Suc k)
  then have k: "k < length a" by simp
  have "(map g [0..<k] @ drop k a)[k := g k] = map g [0..<k] @ (drop k a)[0 := g k]"
    by (simp add: list_update_append)
  also have "(drop k a)[0 := g k] = g k # drop (Suc k) a"
    using k by (simp add: Cons_nth_drop_Suc[symmetric])
  finally show ?case
    using Suc.IH k by simp
qed

lemma quantizeDepths_map:
  "quantizeDepths T fd mn sc =
   map (\<lambda>i. ToUint32 (Math_floor (jsmul (jssub (getF fd i) mn) sc))) [0..<T]"
  unfolding quantizeDepths_def
  using foldl_update_map[of T "replicate T 0"
      "\<lambda>i. ToUint32 (Math_floor (jsmul (jssub (getF fd i) mn) sc))"]
  by simp

lemma writeTriple_append:
  "length A = k * 3 \<Longrightarrow>
   writeTriple (A @ 0 # 0 # 0 # R) k b = A @ [b, b + 1, b + 2] @ R"
  by (simp add: writeTriple_def list_update_append)

lemma writeTriple_loop:
  "k \<le> T \<Longrightarrow>
   foldl (\<lambda>arr i. writeTriple arr i (f i * 3)) (replicate (T * 3) 0) [0..<k] =
   concat (map (\<lambda>i. cornerTriple (f i)) [0..<k]) @ replicate ((T - k) * 3) 0"
proof (induction k)
  case 0
  then show ?case by simp
next
  case (Suc k)
  let ?A = "concat (map (\<lambda>i. cornerTriple (f i)) [0..<k])"
  have lenA: "length ?A = k * 3"
    by (induction k) (simp_all add: cornerTriple_def)
  have rep: "replicate ((T - k) * 3) (0::nat) = 0 # 0 # 0 # replicate ((T - Suc k) * 3) 0"
  proof -
    have "(T - k) * 3 = Suc (Suc (Suc ((T - Suc k) * 3)))"
      using Suc.prems by simp
    then show ?thesis by (simp only: replicate_Suc)
  qed
  have "writeTriple (?A @ replicate ((T - k) * 3) 0) k (f k * 3) =
        ?A @ cornerTriple (f k) @ replicate ((T - Suc k) * 3) 0"
    unfolding rep using writeTriple_append[OF lenA] by (simp add: cornerTriple_def)
  then show ?case
    using Suc.IH Suc.prems by simp
qed

lemma prepareIndexArray_concat:
  "prepareIndexArray T si = concat (map (\<lambda>i. cornerTriple (si ! i)) [0..<T])"
  unfolding prepareIndexArray_def using writeTriple_loop[of T T "\<lambda>i. si ! i"] by simp

lemma prepareIndexArray_map:
  "length si = T \<Longrightarrow> prepareIndexArray T si = concat (map cornerTriple si)"
proof -
  assume len: "length si = T"
  have "map (\<lambda>i. cornerTriple (si ! i)) [0..<T] = map cornerTriple (map (\<lambda>i. si ! i) [0..<T])"
    by simp
  also have "map (\<lambda>i. si ! i) [0..<T] = si"
    using len map_nth[of si] by simp
  finally show ?thesis
    by (simp add: prepareIndexArray_concat)
qed

lemma identityIndices_concat:
  "identityIndices T = concat (map cornerTriple [0..<T])"
  unfolding identityIndices_def using writeTriple_loop[of T T "\<lambda>i. i"] by simp


lemma jslt_trans: "jslt a b \<Longrightarrow> jslt b c \<Longrightarrow> jslt a c"
  by (cases a; cases b; cases c) auto

lemma jslt_irrefl: "\<not> jslt a a"
  by (cases a) auto

lemma computeDepths_invariant:
  "k \<le> T \<Longrightarrow>
   foldl (depthStep fr cs vm) (replicate T (Num 0), PInf, NInf) [0..<k] = (fd, mn, mx) \<Longrightarrow>
   length fd = T \<and> (\<forall>i<k. fd ! i = fr (z_cam cs vm i)) \<and>
   (\<forall>i<k. \<not> jslt (z_cam cs vm i) mn \<and> \<not> jslt mx (z_cam cs vm i)) \<and>
   (mn = PInf \<or> (\<exists>i<k. mn = z_cam cs vm i)) \<and>
   (mx = NInf \<or> (\<exists>i<k. mx = z_cam cs vm i))"
proof (induction k arbitrary: fd mn mx)
  case 0
  then show ?case by auto
next
  case (Suc k)
  obtain fd1 mn1 mx1 where f:
    "foldl (depthStep fr cs vm) (replicate T (Num 0), PInf, NInf) [0..<k] = (fd1, mn1, mx1)"
    by (cases "foldl (depthStep fr cs vm) (replicate T (Num 0), PInf, NInf) [0..<k]")
  have kT: "k < T" using Suc.prems(1) by simp
  have ih: "length fd1 = T" "\<forall>i<k. fd1 ! i = fr (z_cam cs vm i)"
    "\<forall>i<k. \<not> jslt (z_cam cs vm i) mn1 \<and> \<not> jslt mx1 (z_cam cs vm i)"
    "mn1 = PInf \<or> (\<exists>i<k. mn1 = z_cam cs vm i)"
    "mx1 = NInf \<or> (\<exists>i<k. mx1 = z_cam cs vm i)"
    using Suc.IH[OF _ f] kT by simp_all
  let ?z = "z_cam cs vm k"
  have "depthStep fr cs vm (fd1, mn1, mx1) k = (fd, mn, mx)"
    using Suc.prems(2) f by simp
  then have st: "fd = fd1[k := fr ?z]" "mn = (if jslt ?z mn1 then ?z else mn1)"
    "mx = (if jslt mx1 ?z then ?z else mx1)"
    by (simp_all add: depthStep_def Let_def)
  have a: "\<forall>i<Suc k. fd ! i = fr (z_cam cs vm i)"
    using st(1) ih(1,2) kT by (auto simp: nth_list_update less_Suc_eq)
  have b: "\<forall>i<Suc k. \<not> jslt (z_cam cs vm i) mn \<and> \<not> jslt mx (z_cam cs vm i)"
    using st(2,3) ih(3) jslt_trans jslt_irrefl by (auto simp: less_Suc_eq)
  have c: "mn = PInf \<or> (\<exists>i<Suc k. mn = z_cam cs vm i)"
    using st(2) ih(4) by (auto simp: less_Suc_eq)
  have d: "mx = NInf \<or> (\<exists>i<Suc k. mx = z_cam cs vm i)"
    using st(3) ih(5) by (auto simp: less_Suc_eq)
  show ?case
    using st(1) ih(1) a b c d by simp
qed

lemma computeDepths_props:
  assumes "computeDepths fr T cs vm = (fd, mn, mx)"
  shows "length fd = T" "\<forall>i<T. fd ! i = fr (z_cam cs vm i)"
    "\<forall>i<T. \<not> jslt (z_cam cs vm i) mn \<and> \<not> jslt mx (z_cam cs vm i)"
    "mn = PInf \<or> (\<exists>i<T. mn = z_cam cs vm i)"
    "mx = NInf \<or> (\<exists>i<T. mx = z_cam cs vm i)"
  using computeDepths_invariant[OF _ assms[unfolded computeDepths_def]] by simp_all

lemma bucket_real:
  assumes "m \<le> z" "z \<le> M" "1 / 10 ^ 7 < M - m"
  shows "bucketOf (Num z) (Num m) (Num M) = nat \<lfloor>(z - m) * (65535 / (M - m))\<rfloor>"
    and "nat \<lfloor>(z - m) * (65535 / (M - m))\<rfloor> < NUM_BUCKETS"
proof -
  define v where "v = (z - m) * (65535 / (M - m))"
  have "(0::real) < 1 / 10 ^ 7" by simp
  then have pos: "0 < M - m" using assms(3) by linarith
  have v0: "0 \<le> v" unfolding v_def using assms(1) pos by simp
  have "(z - m) / (M - m) \<le> 1" using assms(2) pos by simp
  then have "65535 * ((z - m) / (M - m)) \<le> 65535 * 1"
    by (intro mult_left_mono) simp_all
  moreover have "v = 65535 * ((z - m) / (M - m))" unfolding v_def by simp
  ultimately have v1: "v \<le> 65535" by (simp only: mult_1_right)
  have f0: "0 \<le> \<lfloor>v\<rfloor>" using v0 by simp
  have f1: "\<lfloor>v\<rfloor> \<le> 65535" using v1 by (simp add: floor_le_iff)
  have md: "\<lfloor>v\<rfloor> mod 2 ^ 32 = \<lfloor>v\<rfloor>" using f0 f1 by simp
  have ne: "M - m \<noteq> 0" using pos by simp
  have "bucketOf (Num z) (Num m) (Num M) = ToUint32 (Num (of_int \<lfloor>v\<rfloor>))"
    using ne by (simp add: bucketOf_def jssub_def v_def)
  also have "\<dots> = nat \<lfloor>v\<rfloor>"
    using f0 md by (simp del: of_int_less_iff)
  finally show "bucketOf (Num z) (Num m) (Num M) = nat \<lfloor>(z - m) * (65535 / (M - m))\<rfloor>"
    unfolding v_def .
  have "nat \<lfloor>v\<rfloor> < NUM_BUCKETS"
    using f0 f1 unfolding NUM_BUCKETS_def by linarith
  then show "nat \<lfloor>(z - m) * (65535 / (M - m))\<rfloor> < NUM_BUCKETS"
    unfolding v_def .
qed

lemma bucket_bound:
  assumes "\<not> jslt z mn" "\<not> jslt mx z" "\<not> jsle (jssub mx mn) (Num (1 / 10 ^ 7))"
  shows "bucketOf z mn mx < NUM_BUCKETS"
proof (cases "\<exists>a b c. z = Num a \<and> mn = Num b \<and> mx = Num c")
  case True
  then obtain a b c where e: "z = Num a" "mn = Num b" "mx = Num c" by blast
  have "b \<le> a" "a \<le> c" "1 / 10 ^ 7 < c - b"
    using assms unfolding e by (auto simp: jsle_def jssub_def)
  then show ?thesis
    using bucket_real[of b a c] unfolding e by simp
next
  case False
  then have "bucketOf z mn mx = 0"
    by (cases z; cases mn; cases mx) (auto simp: bucketOf_def jssub_def)
  then show ?thesis by (simp add: NUM_BUCKETS_def)
qed


lemma set_sort_key_insort: "set (insort_key f x ys) = insert x (set ys)"
  by (induction ys) auto

lemma insort_key_cong_on:
  "f x = g x \<Longrightarrow> (\<And>y. y \<in> set ys \<Longrightarrow> f y = g y) \<Longrightarrow>
   insort_key f x ys = insort_key g x ys"
  by (induction ys) auto

lemma sort_key_cong_on:
  "(\<And>x. x \<in> set xs \<Longrightarrow> f x = g x) \<Longrightarrow> sort_key f xs = sort_key g xs"
proof (induction xs)
  case Nil
  then show ?case by simp
next
  case (Cons x xs)
  have ih: "sort_key f xs = sort_key g xs" using Cons by simp
  have "insort_key f x (sort_key g xs) = insort_key g x (sort_key g xs)"
    by (rule insort_key_cong_on) (use Cons.prems in auto)
  then show ?case using ih by simp
qed

lemma sorter_buckets:
  assumes cd: "computeDepths fr T cs vm = (fd, mn, mx)"
    and far: "\<not> jsle (jssub mx mn) (Num (1 / 10 ^ 7))"
    and exact: "\<forall>i<T. fr (z_cam cs vm i) = z_cam cs vm i"
  shows "quantizeDepths T fd mn (jsdiv (Num 65535) (jssub mx mn)) =
           map (\<lambda>i. bucketOf (z_cam cs vm i) mn mx) [0..<T]"
    and "\<forall>i<T. bucketOf (z_cam cs vm i) mn mx < NUM_BUCKETS"
proof -
  note p = computeDepths_props[OF cd]
  have "\<And>i. i < T \<Longrightarrow> getF fd i = z_cam cs vm i"
    using p(1,2) exact by (simp add: getF_def)
  then show "quantizeDepths T fd mn (jsdiv (Num 65535) (jssub mx mn)) =
           map (\<lambda>i. bucketOf (z_cam cs vm i) mn mx) [0..<T]"
    by (simp add: quantizeDepths_map bucketOf_def)
  show "\<forall>i<T. bucketOf (z_cam cs vm i) mn mx < NUM_BUCKETS"
    using p(3) far bucket_bound by blast
qed

lemma sorter_general:
  assumes cd: "computeDepths fr T cs vm = (fd, mn, mx)"
    and exact: "\<forall>i<T. fr (z_cam cs vm i) = z_cam cs vm i"
  shows "sortAndPrepareIndexBuffer fr T cs vm =
         (if jsle (jssub mx mn) (Num (1 / 10 ^ 7))
          then concat (map cornerTriple [0..<T])
          else concat (map cornerTriple
                 (sort_key (\<lambda>i. bucketOf (z_cam cs vm i) mn mx) [0..<T])))"
proof (cases "jsle (jssub mx mn) (Num (1 / 10 ^ 7))")
  case True
  then show ?thesis
    by (simp add: sortAndPrepareIndexBuffer_def cd identityIndices_concat)
next
  case False
  let ?ds = "map (\<lambda>i. bucketOf (z_cam cs vm i) mn mx) [0..<T]"
  note b = sorter_buckets[OF cd False exact]
  have keys: "\<forall>i<T. ?ds ! i < NUM_BUCKETS"
    using b(2) by simp
  have cs: "countingSort T ?ds = sort_key (\<lambda>i. ?ds ! i) [0..<T]"
    by (rule countingSort_sort_key[OF keys])
  also have "\<dots> = sort_key (\<lambda>i. bucketOf (z_cam cs vm i) mn mx) [0..<T]"
    by (rule sort_key_cong_on) simp
  finally have srt: "countingSort T ?ds =
      sort_key (\<lambda>i. bucketOf (z_cam cs vm i) mn mx) [0..<T]" .
  have prep: "prepareIndexArray T (sort_key (\<lambda>i. bucketOf (z_cam cs vm i) mn mx) [0..<T]) =
      concat (map cornerTriple (sort_key (\<lambda>i. bucketOf (z_cam cs vm i) mn mx) [0..<T]))"
    by (rule prepareIndexArray_map) simp
  show ?thesis
    using False by (simp add: sortAndPrepareIndexBuffer_def cd b(1) Let_def prep srt)
qed

lemma sorter_permutation:
  assumes exact: "\<forall>i<T. fr (z_cam cs vm i) = z_cam cs vm i"
  shows "\<exists>p. mset p = mset [0..<T] \<and>
             sortAndPrepareIndexBuffer fr T cs vm = concat (map cornerTriple p)"
proof -
  obtain fd mn mx where cd: "computeDepths fr T cs vm = (fd, mn, mx)"
    by (cases "computeDepths fr T cs vm")
  show ?thesis
  proof (cases "jsle (jssub mx mn) (Num (1 / 10 ^ 7))")
    case True
    then have "sortAndPrepareIndexBuffer fr T cs vm = concat (map cornerTriple [0..<T])"
      using sorter_general[OF cd exact] by simp
    then show ?thesis by blast
  next
    case False
    have "mset (sort_key (\<lambda>i. bucketOf (z_cam cs vm i) mn mx) [0..<T]) = mset [0..<T]"
      by simp
    then show ?thesis using sorter_general[OF cd exact] False by metis
  qed
qed

lemma concat_cornerTriple_nth:
  "k < length p \<Longrightarrow>
   concat (map cornerTriple p) ! (k * 3) = p ! k * 3 \<and>
   concat (map cornerTriple p) ! (k * 3 + 1) = p ! k * 3 + 1 \<and>
   concat (map cornerTriple p) ! (k * 3 + 2) = p ! k * 3 + 2"
proof (induction p arbitrary: k)
  case Nil
  then show ?case by simp
next
  case (Cons a p)
  show ?case
  proof (cases k)
    case 0
    then show ?thesis by (simp add: cornerTriple_def)
  next
    case (Suc k')
    then have "k' < length p" using Cons.prems by simp
    from Cons.IH[OF this] show ?thesis
      unfolding Suc by (simp add: cornerTriple_def)
  qed
qed

lemma length_concat_cornerTriple: "length (concat (map cornerTriple p)) = length p * 3"
  by (induction p) (simp_all add: cornerTriple_def)

lemma mset_concat_cornerTriple_upt:
  "mset (concat (map cornerTriple [0..<T])) = mset [0..<T * 3]"
proof (induction T)
  case 0
  then show ?case by simp
next
  case (Suc T)
  have "[0..<T * 3 + 3] = [0..<T * 3] @ [T * 3..<T * 3 + 3]"
    by (rule upt_add_eq_append) simp
  moreover have "[T * 3..<T * 3 + 3] = [T * 3, T * 3 + 1, T * 3 + 2]"
    by (simp add: upt_rec)
  moreover have "Suc T * 3 = T * 3 + 3" by simp
  ultimately have "[0..<Suc T * 3] = [0..<T * 3] @ [T * 3, T * 3 + 1, T * 3 + 2]"
    by (simp only:)
  then have "mset [0..<Suc T * 3] = mset [0..<T * 3] + mset (cornerTriple T)"
    by (simp only: mset_append cornerTriple_def)
  moreover have "mset (concat (map cornerTriple [0..<Suc T])) =
      mset (concat (map cornerTriple [0..<T])) + mset (cornerTriple T)"
    by simp
  ultimately show ?case using Suc by (simp only:)
qed

lemma mset_concat_map_cong:
  "mset p = mset q \<Longrightarrow> mset (concat (map f p)) = mset (concat (map f q))"
proof -
  assume e: "mset p = mset q"
  have "\<And>r. mset (concat (map f r)) = sum_mset (image_mset (\<lambda>x. mset (f x)) (mset r))"
    by (induct_tac r) simp_all
  then show ?thesis using e by simp
qed


lemma z_cam_finite:
  assumes "i < T" "length cs = T * 3" "length vm = 16"
  shows "z_cam (map Num cs) (map Num vm) i = Num (camZ cs vm i)"
  using assms by (simp add: z_cam_def getF_def camZ_def)

lemma computeDepths_finite_minmax:
  assumes fin: "\<forall>i<T. z_cam C V i = Num (zr i)" and T: "0 < T"
    and cd: "computeDepths fr T C V = (fd, mn, mx)"
  shows "mn = Num (Min (zr ` {..<T}))" and "mx = Num (Max (zr ` {..<T}))"
proof -
  note p = computeDepths_props[OF cd]
  have z0: "z_cam C V 0 = Num (zr 0)" using fin T by simp
  have "mn \<noteq> PInf"
    using p(3) T z0 by (metis jslt.simps(2))
  then obtain i where i: "i < T" "mn = Num (zr i)"
    using p(4) fin by auto
  have "\<forall>j<T. zr i \<le> zr j"
    using p(3) fin i by (metis jslt.simps(1) not_le)
  then have "Min (zr ` {..<T}) = zr i"
    using i(1) by (intro Min_eqI) auto
  then show "mn = Num (Min (zr ` {..<T}))" using i(2) by simp
  have "mx \<noteq> NInf"
    using p(3) T z0 by (metis jslt.simps(3))
  then obtain k where k: "k < T" "mx = Num (zr k)"
    using p(5) fin by auto
  have "\<forall>j<T. zr j \<le> zr k"
    using p(3) fin k by (metis jslt.simps(1) not_le)
  then have "Max (zr ` {..<T}) = zr k"
    using k(1) by (intro Max_eqI) auto
  then show "mx = Num (Max (zr ` {..<T}))" using k(2) by simp
qed

lemma sorter_finite:
  assumes len: "length cs = T * 3" "length vm = 16" and T: "0 < T"
    and stored: "\<forall>i<T. fr (Num (camZ cs vm i)) = Num (camZ cs vm i)"
  shows "sortAndPrepareIndexBuffer fr T (map Num cs) (map Num vm) =
     (let mn = Min (camZ cs vm ` {..<T}); mx = Max (camZ cs vm ` {..<T})
      in if mx - mn \<le> 1 / 10 ^ 7 then concat (map cornerTriple [0..<T])
         else concat (map cornerTriple
                (sort_key (\<lambda>i. nat \<lfloor>(camZ cs vm i - mn) * 65535 / (mx - mn)\<rfloor>) [0..<T])))"
proof -
  let ?C = "map Num cs" and ?V = "map Num vm"
  define mn where "mn = Min (camZ cs vm ` {..<T})"
  define mx where "mx = Max (camZ cs vm ` {..<T})"
  obtain fd mn' mx' where cd: "computeDepths fr T ?C ?V = (fd, mn', mx')"
    by (cases "computeDepths fr T ?C ?V")
  have fin: "\<forall>i<T. z_cam ?C ?V i = Num (camZ cs vm i)"
    using z_cam_finite[OF _ len] by simp
  have exact: "\<forall>i<T. fr (z_cam ?C ?V i) = z_cam ?C ?V i"
    using fin stored by simp
  have mm: "mn' = Num mn" "mx' = Num mx"
    using computeDepths_finite_minmax[OF fin T cd] by (simp_all add: mn_def mx_def)
  have rng: "jsle (jssub mx' mn') (Num (1 / 10 ^ 7)) = (mx - mn \<le> 1 / 10 ^ 7)"
    unfolding mm by (auto simp: jsle_def jssub_def)
  have bnd: "\<And>i. i < T \<Longrightarrow> mn \<le> camZ cs vm i \<and> camZ cs vm i \<le> mx"
    unfolding mn_def mx_def by (auto intro: Min_le Max_ge)
  have key: "\<not> mx - mn \<le> 1 / 10 ^ 7 \<Longrightarrow>
      sort_key (\<lambda>i. bucketOf (z_cam ?C ?V i) mn' mx') [0..<T] =
      sort_key (\<lambda>i. nat \<lfloor>(camZ cs vm i - mn) * 65535 / (mx - mn)\<rfloor>) [0..<T]"
  proof (rule sort_key_cong_on)
    fix i assume far: "\<not> mx - mn \<le> 1 / 10 ^ 7" and "i \<in> set [0..<T]"
    then have i: "i < T" by simp
    have "bucketOf (Num (camZ cs vm i)) (Num mn) (Num mx) =
          nat \<lfloor>(camZ cs vm i - mn) * (65535 / (mx - mn))\<rfloor>"
      using bucket_real(1)[of mn "camZ cs vm i" mx] bnd[OF i] far by simp
    then show "bucketOf (z_cam ?C ?V i) mn' mx' =
          nat \<lfloor>(camZ cs vm i - mn) * 65535 / (mx - mn)\<rfloor>"
      using fin i mm by simp
  qed
  show ?thesis
    using sorter_general[OF cd exact] rng key
    by (simp add: Let_def mn_def[symmetric] mx_def[symmetric])
qed

lemma sorter_empty: "sortAndPrepareIndexBuffer fr 0 cs vm = []"
  using sorter_permutation[of 0 fr cs vm] by auto
subsection \<open>The sorter on depths that binary32 rounds down\<close>

lemma Math_fround_eval:
  assumes "x \<noteq> 0" "2 powr of_int e \<le> \<bar>x\<bar>" "\<bar>x\<bar> < 2 powr of_int (e + 1)" "- 126 \<le> e"
    and "\<bar>(2::real) powr of_int (e - 23) * of_int (round_half_even (x / 2 powr of_int (e - 23)))\<bar>
           < 2 ^ 128"
  shows "Math_fround (Num x) =
         Num (2 powr of_int (e - 23) * of_int (round_half_even (x / 2 powr of_int (e - 23))))"
proof -
  have "\<lfloor>log 2 \<bar>x\<bar>\<rfloor> = e"
    using assms(1-3) floor_log_eq_powr_iff[of "\<bar>x\<bar>" 2 e] by simp
  then have "max \<lfloor>log 2 \<bar>x\<bar>\<rfloor> (- 126) = e" using assms(4) by simp
  then show ?thesis
    using assms(1,5) by (simp add: Let_def del: of_int_diff)
qed

lemma fround_far:
  "Math_fround (Num (- (42221263283815 / 70368744177664))) = Num (- (5033167 / 8388608))"
proof -
  have p24: "(2::real) powr of_int (- 1 - 23) = 1 / 2 ^ 24"
    by (simp add: powr_neg_numeral)
  have r: "round_half_even (- (42221263283815 / 70368744177664) / (1 / 2 ^ 24)) = - 10066334"
    by (simp add: round_half_even_def Let_def)
  show ?thesis
    using Math_fround_eval[of "- (42221263283815 / 70368744177664)" "- 1"]
    unfolding p24 r by (simp add: powr_neg_numeral)
qed

lemma fround_near:
  "Math_fround (Num (- (5033165 / 16777216))) = Num (- (5033165 / 16777216))"
proof -
  have p: "(2::real) powr of_int (- 2 - 23) = 1 / 2 ^ 25"
    by (simp add: powr_neg_numeral)
  have r: "round_half_even (- (5033165 / 16777216) / (1 / 2 ^ 25)) = - 10066330"
    by (simp add: round_half_even_def Let_def)
  show ?thesis
    using Math_fround_eval[of "- (5033165 / 16777216)" "- 2"]
    unfolding p r by (simp add: powr_neg_numeral)
qed

lemma rounded_z:
  "z_cam rounded_centers rotated_view 0 = Num (- (5033165 / 16777216))"
  "z_cam rounded_centers rotated_view (Suc 0) = Num (- (42221263283815 / 70368744177664))"
  by (simp_all add: z_cam_def getF_def rounded_centers_def rotated_view_def)

lemma rounded_depths:
  "computeDepths Math_fround 2 rounded_centers rotated_view =
     ([Num (- (5033165 / 16777216)), Num (- (5033167 / 8388608))],
      Num (- (42221263283815 / 70368744177664)), Num (- (5033165 / 16777216)))"
proof -
  have u2: "[0..<2] = [0, Suc 0]" by (simp add: upt_rec)
  have r2: "replicate 2 (Num 0) = [Num 0, Num 0]" by (simp add: numeral_2_eq_2)
  show ?thesis
    unfolding computeDepths_def u2 r2
    by (simp add: depthStep_def rounded_z fround_far fround_near Let_def del: Math_fround.simps)
qed

lemma rounded_buckets:
  "quantizeDepths 2 [Num (- (5033165 / 16777216)), Num (- (5033167 / 8388608))]
      (Num (- (42221263283815 / 70368744177664)))
      (jsdiv (Num 65535)
         (jssub (Num (- (5033165 / 16777216))) (Num (- (42221263283815 / 70368744177664)))))
   = [65535, 4294967295]"
proof -
  have u2: "[0..<2] = [0, Suc 0]" by (simp add: upt_rec)
  show ?thesis
    unfolding quantizeDepths_map u2
    by (simp add: getF_def jssub_def ceiling_minus)
qed

lemma dropped_scatter: "countingSort 2 [65535, 4294967295] = [0, 0]"
proof -
  let ?ds = "[65535, 4294967295 :: nat]"
  define offs0 where "offs0 = prefixOffsets (countDepths 2 ?ds)"
  have u2: "[0..<2] = [0, Suc 0]" by (simp add: upt_rec)
  have r2: "replicate 2 (0::nat) = [0, 0]" by (simp add: numeral_2_eq_2)
  have len: "length offs0 = 65536"
    unfolding offs0_def using prefixOffsets_props by (simp add: NUM_BUCKETS_def)
  have "offs0 ! 65535 = length (filter (\<lambda>i. ?ds ! i < 65535) [0..<2])"
    unfolding offs0_def by (rule offsets_base) (simp add: NUM_BUCKETS_def)
  then have o: "offs0 ! 65535 = 0" unfolding u2 by simp
  show ?thesis
    unfolding countingSort_def scatterIndices_def offs0_def[symmetric] u2 r2
    by (simp add: scatterStep_def len o)
qed

lemma rounded_request_exact_stores:
  "sortAndPrepareIndexBuffer (\<lambda>x. x) 2 rounded_centers rotated_view = [3, 4, 5, 0, 1, 2]"
proof -
  define cs :: "real list" where "cs = [- (1 / 2), 0, 0, - (8388611 / 8388608), 0, 0]"
  define vm :: "real list" where
    "vm = [13421773 / 16777216, 0, 5033165 / 8388608, 0,
           - (5033165 / 8388608), 0, 13421773 / 16777216, 0,
           0, 1, 0, 0, 0, 0, 0, 1]"
  have c: "rounded_centers = map Num cs" by (simp add: rounded_centers_def cs_def)
  have v: "rotated_view = map Num vm" by (simp add: rotated_view_def vm_def)
  have l: "length cs = 2 * 3" "length vm = 16" by (simp_all add: cs_def vm_def)
  have s2: "{..<2::nat} = {0, Suc 0}" by auto
  have u2: "[0..<2] = [0, Suc 0]" by (simp add: upt_rec)
  have z: "camZ cs vm 0 = - (5033165 / 16777216)"
    "camZ cs vm (Suc 0) = - (42221263283815 / 70368744177664)"
    by (simp_all add: camZ_def cs_def vm_def)
  have mn: "Min (camZ cs vm ` {..<2}) = - (42221263283815 / 70368744177664)"
    by (simp add: s2 z)
  have mx: "Max (camZ cs vm ` {..<2}) = - (5033165 / 16777216)"
    by (simp add: s2 z)
  have "sortAndPrepareIndexBuffer (\<lambda>x. x) 2 (map Num cs) (map Num vm) =
     concat (map cornerTriple
       (sort_key (\<lambda>i. nat \<lfloor>(camZ cs vm i - (- (42221263283815 / 70368744177664))) * 65535
            / (- (5033165 / 16777216) - (- (42221263283815 / 70368744177664)))\<rfloor>) [0..<2]))"
    using sorter_finite[OF l, of "\<lambda>x. x"] unfolding mn mx Let_def by simp
  also have "sort_key (\<lambda>i. nat \<lfloor>(camZ cs vm i - (- (42221263283815 / 70368744177664))) * 65535
            / (- (5033165 / 16777216) - (- (42221263283815 / 70368744177664)))\<rfloor>) [0..<2]
      = [1, 0]"
    unfolding u2 by (simp add: z)
  finally show ?thesis unfolding c v by (simp add: cornerTriple_def)
qed

lemma rounded_request_program:
  "sortAndPrepareIndexBuffer Math_fround 2 rounded_centers rotated_view = [0, 1, 2, 0, 1, 2]"
proof -
  have "prepareIndexArray 2 [0, 0] = concat (map cornerTriple [0, 0])"
    by (rule prepareIndexArray_map) simp
  then show ?thesis
    unfolding sortAndPrepareIndexBuffer_def rounded_depths prod.case Let_def rounded_buckets
      dropped_scatter
    by (simp add: jsle_def jssub_def cornerTriple_def)
qed

lemma rounded_request_bucket:
  "bucketOf (Num (- (5033167 / 8388608)))
     (Num (- (42221263283815 / 70368744177664))) (Num (- (5033165 / 16777216))) = 4294967295"
  by (simp add: bucketOf_def jssub_def ceiling_minus)
lemma example_sorted:
  "sortAndPrepareIndexBuffer (\<lambda>x. x) 5 (map Num example_centers) (map Num identity_view) =
   [12, 13, 14, 6, 7, 8, 0, 1, 2, 3, 4, 5, 9, 10, 11]"
proof -
  have s5: "{..<5::nat} = {0, Suc 0, 2, 3, 4}" by auto
  have u5: "[0..<5] = [0, Suc 0, 2, 3, 4]" by (simp add: upt_rec)
  have z: "camZ example_centers identity_view 0 = -10"
    "camZ example_centers identity_view (Suc 0) = -5"
    "camZ example_centers identity_view 2 = -15"
    "camZ example_centers identity_view 3 = -1"
    "camZ example_centers identity_view 4 = -20"
    by (simp_all add: camZ_def example_centers_def identity_view_def)
  have mn: "Min (camZ example_centers identity_view ` {..<5}) = -20"
    by (simp add: s5 z)
  have mx: "Max (camZ example_centers identity_view ` {..<5}) = -1"
    by (simp add: s5 z)
  have "length example_centers = 5 * 3" "length identity_view = 16"
    by (simp_all add: example_centers_def identity_view_def)
  from sorter_finite[OF this, of "\<lambda>x. x"]
  have "sortAndPrepareIndexBuffer (\<lambda>x. x) 5 (map Num example_centers) (map Num identity_view) =
     concat (map cornerTriple
       (sort_key (\<lambda>i. nat \<lfloor>(camZ example_centers identity_view i - (-20)) * 65535
                             / (-1 - (-20))\<rfloor>) [0..<5]))"
    unfolding mn mx Let_def by simp
  also have "sort_key (\<lambda>i. nat \<lfloor>(camZ example_centers identity_view i - (-20)) * 65535
                             / (-1 - (-20))\<rfloor>) [0..<5] = [4, 2, 0, 1, 3]"
    unfolding u5 by (simp add: z)
  finally show ?thesis by (simp add: cornerTriple_def)
qed

text \<open>
  Under exact arithmetic the sorter is the stable bucket sort. For a sort request of
  \<open>T\<close> triangles with finite centres \<open>cs\<close> (three per triangle) and a finite 4x4 view
  matrix \<open>vm\<close>, every depth being stored exactly (as when \<open>fr\<close> is the identity; the
  operations on doubles are exact in the model): the depth the sorter stores for
  triangle \<open>i\<close> is \<open>vm[2] * c_x + vm[6] * c_y + vm[10] * c_z + vm[14]\<close>; with no
  triangle the result is empty; if the largest depth exceeds the smallest by at most
  \<open>10^-7\<close> the result is the identity index array; otherwise the triangles are sorted
  stably and ascending by the bucket \<open>floor ((z_i - min) * 65535 / (max - min))\<close>
  (\<^const>\<open>sort_key\<close> is the stable insertion sort), and the result lists the corner
  indices \<open>3t, 3t+1, 3t+2\<close> of each triangle \<open>t\<close> in sorted order.
\<close>

lemma sorter_stable_bucket_sort_exact_stores:
  assumes "length cs = T * 3" and "length vm = 16"
    and "\<forall>i<T. fr (Num (camZ cs vm i)) = Num (camZ cs vm i)"
  shows "(\<forall>i<T. fst (computeDepths fr T (map Num cs) (map Num vm)) ! i = Num (camZ cs vm i))
    \<and> sortAndPrepareIndexBuffer fr T (map Num cs) (map Num vm) =
        (if T = 0 then []
         else let mn = Min (camZ cs vm ` {..<T}); mx = Max (camZ cs vm ` {..<T})
              in if mx - mn \<le> 1 / 10 ^ 7 then concat (map cornerTriple [0..<T])
                 else concat (map cornerTriple
                   (sort_key (\<lambda>i. nat \<lfloor>(camZ cs vm i - mn) * 65535 / (mx - mn)\<rfloor>) [0..<T])))"
proof -
  obtain fd mn mx where cd: "computeDepths fr T (map Num cs) (map Num vm) = (fd, mn, mx)"
    by (cases "computeDepths fr T (map Num cs) (map Num vm)")
  have a: "\<forall>i<T. fst (computeDepths fr T (map Num cs) (map Num vm)) ! i = Num (camZ cs vm i)"
    using computeDepths_props(2)[OF cd] z_cam_finite[OF _ assms(1,2)] assms(3) by (simp add: cd)
  have b: "sortAndPrepareIndexBuffer fr T (map Num cs) (map Num vm) =
        (if T = 0 then []
         else let mn = Min (camZ cs vm ` {..<T}); mx = Max (camZ cs vm ` {..<T})
              in if mx - mn \<le> 1 / 10 ^ 7 then concat (map cornerTriple [0..<T])
                 else concat (map cornerTriple
                   (sort_key (\<lambda>i. nat \<lfloor>(camZ cs vm i - mn) * 65535 / (mx - mn)\<rfloor>) [0..<T])))"
  proof (cases "T = 0")
    case True
    then show ?thesis by (simp add: sorter_empty)
  next
    case False
    then show ?thesis using sorter_finite[OF assms(1,2) _ assms(3)] by simp
  qed
  show ?thesis using a b by blast
qed

lemma sorter_mset:
  assumes "\<forall>i<T. fr (z_cam centers viewMatrix i) = z_cam centers viewMatrix i"
  shows "mset (sortAndPrepareIndexBuffer fr T centers viewMatrix) = mset [0..<T * 3]"
proof -
  obtain p where p: "mset p = mset [0..<T]"
    "sortAndPrepareIndexBuffer fr T centers viewMatrix = concat (map cornerTriple p)"
    using sorter_permutation[OF assms] by blast
  have "mset (concat (map cornerTriple p)) = mset (concat (map cornerTriple [0..<T]))"
    by (rule mset_concat_map_cong[OF p(1)])
  then show ?thesis
    by (simp only: p(2) mset_concat_cornerTriple_upt)
qed

text \<open>
  When every depth is stored exactly (as under exact arithmetic), the returned index
  array has length \<open>3 * T\<close> and is the corner triples of one permutation \<open>p\<close> of the
  triangles \<open>0, ..., T - 1\<close>, whatever the arrays hold: the positions
  \<open>3k, 3k+1, 3k+2\<close> hold \<open>3t, 3t+1, 3t+2\<close> for \<open>t = p[k]\<close>, every triangle occurs once
  in \<open>p\<close>, and every corner index below \<open>3 * T\<close> occurs once in the array.
\<close>

lemma sorter_permutation_exact_stores:
  assumes "\<forall>i<T. fr (z_cam centers viewMatrix i) = z_cam centers viewMatrix i"
  shows "length (sortAndPrepareIndexBuffer fr T centers viewMatrix) = T * 3
   \<and> (\<exists>p. mset p = mset [0..<T]
          \<and> sortAndPrepareIndexBuffer fr T centers viewMatrix = concat (map cornerTriple p)
          \<and> (\<forall>k<T. sortAndPrepareIndexBuffer fr T centers viewMatrix ! (k * 3) = p ! k * 3
                 \<and> sortAndPrepareIndexBuffer fr T centers viewMatrix ! (k * 3 + 1) = p ! k * 3 + 1
                 \<and> sortAndPrepareIndexBuffer fr T centers viewMatrix ! (k * 3 + 2) = p ! k * 3 + 2))
   \<and> mset (sortAndPrepareIndexBuffer fr T centers viewMatrix) = mset [0..<T * 3]"
proof -
  obtain p where p: "mset p = mset [0..<T]"
    "sortAndPrepareIndexBuffer fr T centers viewMatrix = concat (map cornerTriple p)"
    using sorter_permutation[OF assms] by blast
  have lp: "length p = T"
    using p(1) by (metis length_upt mset_eq_length minus_nat.diff_0)
  have len: "length (sortAndPrepareIndexBuffer fr T centers viewMatrix) = T * 3"
    by (simp add: p(2) length_concat_cornerTriple lp)
  have nth: "\<forall>k<T. sortAndPrepareIndexBuffer fr T centers viewMatrix ! (k * 3) = p ! k * 3
                 \<and> sortAndPrepareIndexBuffer fr T centers viewMatrix ! (k * 3 + 1) = p ! k * 3 + 1
                 \<and> sortAndPrepareIndexBuffer fr T centers viewMatrix ! (k * 3 + 2) = p ! k * 3 + 2"
    unfolding p(2) using concat_cornerTriple_nth[of _ p] lp by blast
  have ms: "mset (sortAndPrepareIndexBuffer fr T centers viewMatrix) = mset [0..<T * 3]"
    by (rule sorter_mset[OF assms])
  show ?thesis using len p nth ms by blast
qed

text \<open>
  C3. The index array is to hold one permutation of the triangle triples for every sort
  request. The program stores each depth rounded to binary32 and takes the minimum of
  the depths as computed, so the farthest triangle can get a negative bucket: on the
  request \<^const>\<open>rounded_centers\<close>, \<^const>\<open>rotated_view\<close> the farthest triangle, 1,
  has the depth \<open>-42221263283815 / 2 ^ 46\<close>, stored as \<open>-5033167 / 2 ^ 23\<close>, which is
  smaller; its bucket is \<open>floor\<close> of a negative number, \<open>-1\<close>, stored as
  \<open>4294967295\<close>; the counting sort drops it, and the index array holds the triple of
  triangle 0 twice and no corner of triangle 1.
\<close>

theorem rounded_minimum_depth_drops_triangle:
  "sortAndPrepareIndexBuffer Math_fround 2 rounded_centers rotated_view = [0, 1, 2, 0, 1, 2]
   \<and> mset (sortAndPrepareIndexBuffer Math_fround 2 rounded_centers rotated_view)
       \<noteq> mset [0..<2 * 3]"
proof -
  have "prepareIndexArray 2 [0, 0] = concat (map cornerTriple [0, 0])"
    by (rule prepareIndexArray_map) simp
  then have r: "sortAndPrepareIndexBuffer Math_fround 2 rounded_centers rotated_view
      = [0, 1, 2, 0, 1, 2]"
    unfolding sortAndPrepareIndexBuffer_def rounded_depths prod.case Let_def rounded_buckets
      dropped_scatter
    by (simp add: jsle_def jssub_def cornerTriple_def)
  have "3 \<in> set [0..<2 * 3]" by simp
  moreover have "(3::nat) \<notin> set [0, 1, 2, 0, 1, 2]" by simp
  ultimately have "mset [0, 1, 2, 0, 1, 2] \<noteq> mset [0..<2 * 3]"
    by (metis mset_eq_setD)
  then show ?thesis unfolding r by simp
qed

text \<open>
  C2. Every sort request is to be sorted stably and ascending by the bucket
  \<open>floor ((z_i - min) * 65535 / (max - min))\<close> of the depth \<open>z_i\<close>. On the request
  \<^const>\<open>rounded_centers\<close>, \<^const>\<open>rotated_view\<close> the depths are
  \<open>z_0 = -5033165 / 2 ^ 24\<close> and \<open>z_1 = -42221263283815 / 2 ^ 46\<close>, the smaller; by
  the formula their buckets are 65535 and 0, and the sorted order is triangle 1, then
  triangle 0, which is what the sorter returns when it stores the depths exactly. The
  program stores \<open>z_1\<close>
  rounded to binary32, \<open>-5033167 / 2 ^ 23\<close>, below the minimum it compares with; the
  bucket it computes for triangle 1 is \<open>floor\<close> of a negative number, stored as
  \<open>4294967295\<close>, and it returns the corners of triangle 0 twice: not the sorted order.
\<close>

theorem rounded_minimum_depth_breaks_bucket_sort:
  "z_cam rounded_centers rotated_view 0 = Num (- (5033165 / 16777216))
   \<and> z_cam rounded_centers rotated_view 1 = Num (- (42221263283815 / 70368744177664))
   \<and> sort_key (\<lambda>i. nat \<lfloor>([- (5033165 / 16777216), - (42221263283815 / 70368744177664)] ! i
                              - (- (42221263283815 / 70368744177664))) * 65535
                           / (- (5033165 / 16777216) - (- (42221263283815 / 70368744177664)))\<rfloor>)
        [0..<2] = [1, 0]
   \<and> sortAndPrepareIndexBuffer (\<lambda>x. x) 2 rounded_centers rotated_view
        = concat (map cornerTriple [1, 0])
   \<and> fst (computeDepths Math_fround 2 rounded_centers rotated_view) ! 1
        = Num (- (5033167 / 8388608))
   \<and> bucketOf (fst (computeDepths Math_fround 2 rounded_centers rotated_view) ! 1)
        (z_cam rounded_centers rotated_view 1) (z_cam rounded_centers rotated_view 0)
        = 4294967295
   \<and> sortAndPrepareIndexBuffer Math_fround 2 rounded_centers rotated_view
        = concat (map cornerTriple [0, 0])
   \<and> sortAndPrepareIndexBuffer Math_fround 2 rounded_centers rotated_view
        \<noteq> concat (map cornerTriple [1, 0])"
proof -
  have z: "z_cam rounded_centers rotated_view 0 = Num (- (5033165 / 16777216))"
    "z_cam rounded_centers rotated_view 1 = Num (- (42221263283815 / 70368744177664))"
    using rounded_z by simp_all
  have u2: "[0..<2] = [0, Suc 0]" by (simp add: upt_rec)
  have k: "sort_key (\<lambda>i. nat \<lfloor>([- (5033165 / 16777216), - (42221263283815 / 70368744177664)] ! i
                              - (- (42221263283815 / 70368744177664))) * 65535
                           / (- (5033165 / 16777216) - (- (42221263283815 / 70368744177664)))\<rfloor>)
        [0..<2] = [1, 0]"
    unfolding u2 by simp
  have d: "fst (computeDepths Math_fround 2 rounded_centers rotated_view) ! 1
        = Num (- (5033167 / 8388608))"
    unfolding rounded_depths by simp
  have e: "sortAndPrepareIndexBuffer (\<lambda>x. x) 2 rounded_centers rotated_view
        = concat (map cornerTriple [1, 0])"
    unfolding rounded_request_exact_stores by (simp add: cornerTriple_def)
  have p: "sortAndPrepareIndexBuffer Math_fround 2 rounded_centers rotated_view
        = concat (map cornerTriple [0, 0])"
    unfolding rounded_request_program by (simp add: cornerTriple_def)
  have n: "sortAndPrepareIndexBuffer Math_fround 2 rounded_centers rotated_view
        \<noteq> concat (map cornerTriple [1, 0])"
    unfolding rounded_request_program by (simp add: cornerTriple_def)
  have b: "bucketOf (fst (computeDepths Math_fround 2 rounded_centers rotated_view) ! 1)
        (z_cam rounded_centers rotated_view 1) (z_cam rounded_centers rotated_view 0)
        = 4294967295"
    unfolding z d by (rule rounded_request_bucket)
  show ?thesis
    using z k d e p n b by (simp only: simp_thms)
qed

text \<open>
  C10. Under exact arithmetic (every depth is stored exactly), for a sort request with
  finite centres and view matrix whose depth range \<open>max - min\<close> exceeds \<open>10^-7\<close>: the bucket stored for triangle
  \<open>i\<close> is \<open>floor ((z_i - min) * (65535 / (max - min)))\<close>, which lies between 0 and
  65535; a triangle at the maximum depth gets the bucket 65535; the \<open>counts\<close> and
  \<open>offsets\<close> arrays have 65536 entries, so each access \<open>counts[depthsInt[i]]\<close> and
  \<open>offsets[depthsInt[i]]\<close> is inside its array; and every triangle is in the sorted
  order and has its three corners in the returned index array.
\<close>

theorem bucket_indices_in_bounds:
  assumes "length cs = T * 3" and "length vm = 16" and "0 < T"
    and "1 / 10 ^ 7 < Max (camZ cs vm ` {..<T}) - Min (camZ cs vm ` {..<T})"
    and "\<forall>i<T. fr (Num (camZ cs vm i)) = Num (camZ cs vm i)"
  shows "(case computeDepths fr T (map Num cs) (map Num vm) of
      (floatDepths, minDepth, maxDepth) \<Rightarrow>
        let mn = Min (camZ cs vm ` {..<T}); mx = Max (camZ cs vm ` {..<T});
            depthsInt = quantizeDepths T floatDepths minDepth
                          (jsdiv (Num 65535) (jssub maxDepth minDepth))
        in minDepth = Num mn \<and> maxDepth = Num mx
           \<and> (\<forall>i<T. depthsInt ! i = nat \<lfloor>(camZ cs vm i - mn) * (65535 / (mx - mn))\<rfloor>
                  \<and> 0 \<le> \<lfloor>(camZ cs vm i - mn) * (65535 / (mx - mn))\<rfloor>
                  \<and> \<lfloor>(camZ cs vm i - mn) * (65535 / (mx - mn))\<rfloor> \<le> 65535
                  \<and> depthsInt ! i < length (countDepths T depthsInt)
                  \<and> depthsInt ! i < length (prefixOffsets (countDepths T depthsInt)))
           \<and> (\<forall>i<T. camZ cs vm i = mx \<longrightarrow> depthsInt ! i = 65535)
           \<and> length (countDepths T depthsInt) = 65536
           \<and> length (prefixOffsets (countDepths T depthsInt)) = 65536
           \<and> (\<forall>t<T. t \<in> set (countingSort T depthsInt)))
    \<and> (\<forall>t<T. t * 3 \<in> set (sortAndPrepareIndexBuffer fr T (map Num cs) (map Num vm))
           \<and> t * 3 + 1 \<in> set (sortAndPrepareIndexBuffer fr T (map Num cs) (map Num vm))
           \<and> t * 3 + 2 \<in> set (sortAndPrepareIndexBuffer fr T (map Num cs) (map Num vm)))"
proof -
  let ?C = "map Num cs" and ?V = "map Num vm"
  define mn where "mn = Min (camZ cs vm ` {..<T})"
  define mx where "mx = Max (camZ cs vm ` {..<T})"
  obtain fd mn' mx' where cd: "computeDepths fr T ?C ?V = (fd, mn', mx')"
    by (cases "computeDepths fr T ?C ?V")
  define ds where "ds = quantizeDepths T fd mn' (jsdiv (Num 65535) (jssub mx' mn'))"
  have fin: "\<forall>i<T. z_cam ?C ?V i = Num (camZ cs vm i)"
    using z_cam_finite[OF _ assms(1,2)] by simp
  have exact: "\<forall>i<T. fr (z_cam ?C ?V i) = z_cam ?C ?V i"
    using fin assms(5) by simp
  have mm: "mn' = Num mn" "mx' = Num mx"
    using computeDepths_finite_minmax[OF fin assms(3) cd] by (simp_all add: mn_def mx_def)
  have far: "1 / 10 ^ 7 < mx - mn"
    using assms(4) by (simp add: mn_def mx_def)
  have nfar: "\<not> jsle (jssub mx' mn') (Num (1 / 10 ^ 7))"
    unfolding mm using far by (auto simp: jsle_def jssub_def)
  have bnd: "\<And>i. i < T \<Longrightarrow> mn \<le> camZ cs vm i \<and> camZ cs vm i \<le> mx"
    unfolding mn_def mx_def by (auto intro: Min_le Max_ge)
  note sb = sorter_buckets[OF cd nfar exact]
  have dsn: "\<And>i. i < T \<Longrightarrow> ds ! i = bucketOf (Num (camZ cs vm i)) (Num mn) (Num mx)"
    unfolding ds_def sb(1) using fin mm by simp
  have lc: "length (countDepths T ds) = 65536"
    using length_countDepths by (simp add: NUM_BUCKETS_def)
  have lo: "length (prefixOffsets (countDepths T ds)) = 65536"
    using prefixOffsets_props by (simp add: NUM_BUCKETS_def)
  have per: "\<forall>i<T. ds ! i = nat \<lfloor>(camZ cs vm i - mn) * (65535 / (mx - mn))\<rfloor>
                  \<and> 0 \<le> \<lfloor>(camZ cs vm i - mn) * (65535 / (mx - mn))\<rfloor>
                  \<and> \<lfloor>(camZ cs vm i - mn) * (65535 / (mx - mn))\<rfloor> \<le> 65535
                  \<and> ds ! i < length (countDepths T ds)
                  \<and> ds ! i < length (prefixOffsets (countDepths T ds))"
  proof (intro allI impI)
    fix i assume i: "i < T"
    define v where "v = (camZ cs vm i - mn) * (65535 / (mx - mn))"
    have b: "ds ! i = nat \<lfloor>v\<rfloor>" "nat \<lfloor>v\<rfloor> < NUM_BUCKETS"
      using bucket_real[of mn "camZ cs vm i" mx] bnd[OF i] far dsn[OF i]
      by (simp_all add: v_def)
    have "(0::real) < 1 / 10 ^ 7" by simp
    then have pos: "0 < mx - mn" using far by linarith
    have "0 \<le> v" unfolding v_def using bnd[OF i] pos by simp
    then have f0: "0 \<le> \<lfloor>v\<rfloor>" by simp
    have f1: "\<lfloor>v\<rfloor> \<le> 65535"
      using b(2) f0 unfolding NUM_BUCKETS_def by linarith
    have "ds ! i < 65536" using b unfolding NUM_BUCKETS_def by simp
    then show "ds ! i = nat \<lfloor>(camZ cs vm i - mn) * (65535 / (mx - mn))\<rfloor>
                  \<and> 0 \<le> \<lfloor>(camZ cs vm i - mn) * (65535 / (mx - mn))\<rfloor>
                  \<and> \<lfloor>(camZ cs vm i - mn) * (65535 / (mx - mn))\<rfloor> \<le> 65535
                  \<and> ds ! i < length (countDepths T ds)
                  \<and> ds ! i < length (prefixOffsets (countDepths T ds))"
      using b(1) f0 f1 unfolding lc lo v_def by blast
  qed
  have top: "\<forall>i<T. camZ cs vm i = mx \<longrightarrow> ds ! i = 65535"
  proof (intro allI impI)
    fix i assume i: "i < T" and e: "camZ cs vm i = mx"
    define r where "r = mx - mn"
    have "(0::real) < 1 / 10 ^ 7" by simp
    then have "r \<noteq> 0" using far unfolding r_def by linarith
    then have h: "r * (65535 / r) = 65535" by simp
    have "ds ! i = nat \<lfloor>(camZ cs vm i - mn) * (65535 / (mx - mn))\<rfloor>"
      using per i by blast
    then have "ds ! i = nat \<lfloor>r * (65535 / r)\<rfloor>"
      unfolding e r_def .
    then show "ds ! i = 65535" unfolding h by simp
  qed
  have keys: "\<forall>i<T. ds ! i < NUM_BUCKETS"
    using per unfolding lc NUM_BUCKETS_def by blast
  have "countingSort T ds = sort_key (\<lambda>i. ds ! i) [0..<T]"
    by (rule countingSort_sort_key[OF keys])
  then have all: "\<forall>t<T. t \<in> set (countingSort T ds)" by simp
  have "set (sortAndPrepareIndexBuffer fr T ?C ?V) = set [0..<T * 3]"
    using sorter_mset[OF exact] by (metis mset_eq_setD)
  then have corners: "\<forall>t<T. t * 3 \<in> set (sortAndPrepareIndexBuffer fr T ?C ?V)
           \<and> t * 3 + 1 \<in> set (sortAndPrepareIndexBuffer fr T ?C ?V)
           \<and> t * 3 + 2 \<in> set (sortAndPrepareIndexBuffer fr T ?C ?V)"
    by auto
  show ?thesis
    unfolding cd prod.case Let_def mn_def[symmetric] mx_def[symmetric] ds_def[symmetric]
    using mm per top lc lo all corners by blast
qed

theorem bucket_indices_in_bounds_witness:
  "length witness_centers = 2 * 3 \<and> length identity_view = 16 \<and> (0::nat) < 2
   \<and> 1 / 10 ^ 7 < Max (camZ witness_centers identity_view ` {..<2})
                    - Min (camZ witness_centers identity_view ` {..<2})
   \<and> quantizeDepths 2 [Num (- 2), Num (- 5)] (Num (- 5)) (jsdiv (Num 65535) (jssub (Num (- 2)) (Num (- 5))))
       = [65535, 0]
   \<and> 0 \<in> set (sortAndPrepareIndexBuffer (\<lambda>x. x) 2 (map Num witness_centers) (map Num identity_view))"
proof -
  have l: "length witness_centers = 2 * 3" "length identity_view = 16" "(0::nat) < 2"
    by (simp_all add: witness_centers_def identity_view_def)
  have s2: "{..<2::nat} = {0, Suc 0}" by auto
  have z: "camZ witness_centers identity_view 0 = -2"
    "camZ witness_centers identity_view (Suc 0) = -5"
    by (simp_all add: camZ_def witness_centers_def identity_view_def)
  have mn: "Min (camZ witness_centers identity_view ` {..<2}) = -5"
    by (simp add: s2 z)
  have mx: "Max (camZ witness_centers identity_view ` {..<2}) = -2"
    by (simp add: s2 z)
  have far: "1 / 10 ^ 7 < Max (camZ witness_centers identity_view ` {..<2})
                    - Min (camZ witness_centers identity_view ` {..<2})"
    unfolding mn mx by simp
  have ex: "\<forall>i<2. (\<lambda>x. x) (Num (camZ witness_centers identity_view i))
                  = Num (camZ witness_centers identity_view i)" by simp
  note t = bucket_indices_in_bounds[OF l far ex]
  have c: "0 \<in> set (sortAndPrepareIndexBuffer (\<lambda>x. x) 2 (map Num witness_centers) (map Num identity_view))"
    using t[THEN conjunct2, rule_format, of 0] by simp
  have q: "quantizeDepths 2 [Num (- 2), Num (- 5)] (Num (- 5))
        (jsdiv (Num 65535) (jssub (Num (- 2)) (Num (- 5)))) = [65535, 0]"
    by (simp add: quantizeDepths_map upt_rec getF_def jssub_def)
  show ?thesis using l far c q by blast
qed

subsection \<open>The geometry builder\<close>

lemma cornerStep_minWeights:
  "triangleMinWeights (cornerStep v ti op i a b c m st j) = (triangleMinWeights st)[i * 3 + j := m]"
  by (simp add: cornerStep_def Let_def)

lemma upt3: "[0..<3] = [0, 1, 2]"
  by (simp add: upt_rec)

lemma cornerLoop_minWeights:
  "triangleMinWeights (foldl (cornerStep v ti op i a b c m) st [0..<3]) =
   (triangleMinWeights st)[i * 3 := m, i * 3 + 1 := m, i * 3 + 2 := m]"
  unfolding upt3 by (simp add: cornerStep_minWeights)

lemma triangleStep_minWeights:
  "triangleMinWeights (triangleStep v ti op st i) =
   (triangleMinWeights st)[i * 3 := triangleMinWeightOf ti op i,
                           i * 3 + 1 := triangleMinWeightOf ti op i,
                           i * 3 + 2 := triangleMinWeightOf ti op i]"
  unfolding triangleStep_def Let_def cornerLoop_minWeights by simp

lemma triple_update_loop:
  "length (foldl (\<lambda>a i. a[i * 3 := m i, i * 3 + 1 := m i, i * 3 + 2 := m i]) a [0..<k]) = length a
   \<and> (\<forall>t<length a.
        foldl (\<lambda>a i. a[i * 3 := m i, i * 3 + 1 := m i, i * 3 + 2 := m i]) a [0..<k] ! t =
        (if t div 3 < k then m (t div 3) else a ! t))"
proof (induction k)
  case 0
  then show ?case by simp
next
  case (Suc k)
  let ?b = "foldl (\<lambda>a i. a[i * 3 := m i, i * 3 + 1 := m i, i * 3 + 2 := m i]) a [0..<k]"
  have len: "length ?b = length a" using Suc by simp
  have nth: "\<And>t. t < length a \<Longrightarrow> ?b ! t = (if t div 3 < k then m (t div 3) else a ! t)"
    using Suc by simp
  have step: "foldl (\<lambda>a i. a[i * 3 := m i, i * 3 + 1 := m i, i * 3 + 2 := m i]) a [0..<Suc k]
      = ?b[k * 3 := m k, k * 3 + 1 := m k, k * 3 + 2 := m k]"
    by simp
  show ?case
  proof (intro conjI allI impI)
    show "length (foldl (\<lambda>a i. a[i * 3 := m i, i * 3 + 1 := m i, i * 3 + 2 := m i]) a [0..<Suc k])
        = length a"
      unfolding step using len by simp
  next
    fix t assume t: "t < length a"
    have d: "t div 3 = k \<longleftrightarrow> (t = k * 3 \<or> t = k * 3 + 1 \<or> t = k * 3 + 2)"
      by presburger
    show "foldl (\<lambda>a i. a[i * 3 := m i, i * 3 + 1 := m i, i * 3 + 2 := m i]) a [0..<Suc k] ! t =
        (if t div 3 < Suc k then m (t div 3) else a ! t)"
    proof (cases "t div 3 = k")
      case True
      then show ?thesis
        unfolding step using t len d by (auto simp: nth_list_update)
    next
      case False
      then have "t \<noteq> k * 3" "t \<noteq> k * 3 + 1" "t \<noteq> k * 3 + 2" using d by auto
      then have "?b[k * 3 := m k, k * 3 + 1 := m k, k * 3 + 2 := m k] ! t = ?b ! t"
        by simp
      then show ?thesis
        unfolding step using nth[OF t] False by (auto simp: less_Suc_eq)
    qed
  qed
qed

lemma triangleLoop_minWeights:
  "triangleMinWeights (foldl (triangleStep v ti op) st [0..<k]) =
   foldl (\<lambda>a i. a[i * 3 := triangleMinWeightOf ti op i,
                   i * 3 + 1 := triangleMinWeightOf ti op i,
                   i * 3 + 2 := triangleMinWeightOf ti op i]) (triangleMinWeights st) [0..<k]"
  by (induction k) (simp_all add: triangleStep_minWeights)

lemma unrollTriangles_minWeights:
  "length (triangleMinWeights (unrollTriangles v ti op)) = length ti"
  "t < length ti \<Longrightarrow>
   triangleMinWeights (unrollTriangles v ti op) ! t = triangleMinWeightOf ti op (t div 3)"
proof -
  let ?n = "real (length ti) / 3"
  have a: "triangleMinWeights (allocate ?n (?n * 3)) = replicate (length ti) (Num 0)"
    by (simp add: allocate_def newFloat32Array_def)
  note l = triple_update_loop[of "triangleMinWeightOf ti op" "replicate (length ti) (Num 0)"
      "nat \<lceil>?n\<rceil>"]
  show "length (triangleMinWeights (unrollTriangles v ti op)) = length ti"
    unfolding unrollTriangles_def Let_def loopBelow_def triangleLoop_minWeights a
    using l by simp
  assume t: "t < length ti"
  have "real (t div 3) < ?n"
  proof -
    have "t div 3 * 3 \<le> t" by simp
    then have "t div 3 * 3 < length ti" using t by linarith
    then have "real (t div 3 * 3) < real (length ti)" by simp
    then show ?thesis by simp
  qed
  then have "t div 3 < nat \<lceil>?n\<rceil>" by linarith
  then show "triangleMinWeights (unrollTriangles v ti op) ! t
      = triangleMinWeightOf ti op (t div 3)"
    unfolding unrollTriangles_def Let_def loopBelow_def triangleLoop_minWeights a
    using l t by simp
qed


lemma length_foldl_update:
  "length (foldl (\<lambda>sh k. sh[f k := g k]) a ks) = length a"
  by (induction ks arbitrary: a) simp_all

lemma length_packVertexSH:
  "length (packVertexSH dc rest d sh vIdx) = length sh"
  by (simp add: packVertexSH_def Let_def length_foldl_update split: option.splits)

lemma length_packSH:
  assumes "packSH v (Some dc) rest d = Some sh"
  shows "length sh = 16 * length v"
proof -
  have "\<And>a ks. length (foldl (packVertexSH dc rest d) a ks) = length a"
  proof -
    fix a :: "jsnum list" and ks :: "nat list"
    show "length (foldl (packVertexSH dc rest d) a ks) = length a"
      by (induction ks arbitrary: a) (simp_all add: length_packVertexSH)
  qed
  moreover have "nat \<lfloor>real (length v) / 3 * 48\<rfloor> = 16 * length v"
  proof -
    have "real (length v) / 3 * 48 = real (16 * length v)" by simp
    then show ?thesis by (simp only: floor_of_nat nat_int)
  qed
  ultimately show ?thesis
    using assms by (auto simp: packSH_def Let_def newFloat32Array_def)
qed

lemma makeSHTexture_returns:
  assumes "length sh = 16 * length v"
  shows "\<exists>tex. makeSHTexture v sh = Inr tex"
proof -
  define h where "h = \<lceil>real (length v) / 256\<rceil>"
  have "real (length v) / 256 \<le> real_of_int h"
    unfolding h_def by (rule le_of_int_ceiling)
  then have "real (16 * length v) \<le> real_of_int (4096 * h)" by simp
  then have le: "int (16 * length v) \<le> 4096 * h"
    by (metis of_int_le_iff of_int_of_nat_eq)
  have "4096 * real_of_int h = real_of_int (4096 * h)" by simp
  then have "nat \<lfloor>4096 * real_of_int h\<rfloor> = nat (4096 * h)"
    by (simp only: floor_of_int)
  then have "length sh \<le> length (newFloat32Array (4096 * real_of_int h))"
    using le assms by (simp add: newFloat32Array_def)
  then have "\<not> length (newFloat32Array (4096 * real_of_int \<lceil>real (length v) / 256\<rceil>)) < length sh"
    unfolding h_def by simp
  then show ?thesis
    by (simp add: makeSHTexture_def Let_def typedArraySet_def)
qed

lemma createTriangleSplatsGeometry_returns:
  "\<exists>tex. createTriangleSplatsGeometry v ti op vw cols dc rest d =
     Inr (assembleGeometry (unrollTriangles v ti op) tex
            (map_option (unrollColors ti) cols) (identityIndexBuffer ti))"
proof (cases "packSH v dc rest d")
  case None
  then show ?thesis
    by (intro exI[of _ None]) (simp add: createTriangleSplatsGeometry_def)
next
  case (Some sh)
  then obtain dc' where dc: "dc = Some dc'"
    by (cases dc) (simp_all add: packSH_def)
  obtain tex where "makeSHTexture v sh = Inr tex"
    using makeSHTexture_returns[OF length_packSH[OF Some[unfolded dc]]] by blast
  then show ?thesis
    using Some by (intro exI[of _ "Some tex"]) (simp add: createTriangleSplatsGeometry_def)
qed

lemma minWeights_map:
  "triangleMinWeights (unrollTriangles v ti op) =
   map (\<lambda>t. triangleMinWeightOf ti op (t div 3)) [0..<length ti]"
  by (rule nth_equalityI) (simp_all add: unrollTriangles_minWeights)

lemma Math_min3_Num: "Math_min3 (Num a) (Num b) (Num c) = Num (min a (min b c))"
  by (auto simp: Math_min3_def Let_def min_def)

text \<open>
  C1. For every scene input the builder returns a geometry whose min-weight attribute
  holds, in the record \<open>t\<close>, the value the source computes for triangle \<open>t div 3\<close> from
  the \<open>opacities\<close> array: \<^verbatim>\<open>Math.min\<close> of the opacities of the triangle's three vertices.
  So the three records \<open>3i, 3i+1, 3i+2\<close> of a triangle hold the same value, and when
  the three vertex indices are inside \<open>opacities\<close> and the opacities \<open>w0, w1, w2\<close> are
  finite it is \<open>min w0 (min w1 w2)\<close>. The value does not depend on \<open>vertex_weights\<close>.
\<close>

theorem triangle_min_weight_from_opacities:
  "\<exists>g. createTriangleSplatsGeometry vertices triangle_indices opacities vertex_weights colors
          features_dc features_rest sh_degree = Inr g
     \<and> aTriangleMinWeight g =
         map (\<lambda>t. triangleMinWeightOf triangle_indices opacities (t div 3))
           [0..<length triangle_indices]
     \<and> (\<forall>i w0 w1 w2.
           i * 3 + 2 < length triangle_indices
           \<and> triangle_indices ! (i * 3) < length opacities
           \<and> triangle_indices ! (i * 3 + 1) < length opacities
           \<and> triangle_indices ! (i * 3 + 2) < length opacities
           \<and> opacities ! (triangle_indices ! (i * 3)) = Num w0
           \<and> opacities ! (triangle_indices ! (i * 3 + 1)) = Num w1
           \<and> opacities ! (triangle_indices ! (i * 3 + 2)) = Num w2
           \<longrightarrow> aTriangleMinWeight g ! (i * 3) = Num (min w0 (min w1 w2))
               \<and> aTriangleMinWeight g ! (i * 3 + 1) = Num (min w0 (min w1 w2))
               \<and> aTriangleMinWeight g ! (i * 3 + 2) = Num (min w0 (min w1 w2)))"
proof -
  obtain tex where g: "createTriangleSplatsGeometry vertices triangle_indices opacities
      vertex_weights colors features_dc features_rest sh_degree =
      Inr (assembleGeometry (unrollTriangles vertices triangle_indices opacities) tex
            (map_option (unrollColors triangle_indices) colors)
            (identityIndexBuffer triangle_indices))"
    using createTriangleSplatsGeometry_returns by blast
  let ?g = "assembleGeometry (unrollTriangles vertices triangle_indices opacities) tex
            (map_option (unrollColors triangle_indices) colors)
            (identityIndexBuffer triangle_indices)"
  have m: "aTriangleMinWeight ?g =
         map (\<lambda>t. triangleMinWeightOf triangle_indices opacities (t div 3))
           [0..<length triangle_indices]"
    by (simp add: assembleGeometry_def minWeights_map)
  have f: "\<forall>i w0 w1 w2.
           i * 3 + 2 < length triangle_indices
           \<and> triangle_indices ! (i * 3) < length opacities
           \<and> triangle_indices ! (i * 3 + 1) < length opacities
           \<and> triangle_indices ! (i * 3 + 2) < length opacities
           \<and> opacities ! (triangle_indices ! (i * 3)) = Num w0
           \<and> opacities ! (triangle_indices ! (i * 3 + 1)) = Num w1
           \<and> opacities ! (triangle_indices ! (i * 3 + 2)) = Num w2
           \<longrightarrow> aTriangleMinWeight ?g ! (i * 3) = Num (min w0 (min w1 w2))
               \<and> aTriangleMinWeight ?g ! (i * 3 + 1) = Num (min w0 (min w1 w2))
               \<and> aTriangleMinWeight ?g ! (i * 3 + 2) = Num (min w0 (min w1 w2))"
  proof (intro allI impI)
    fix i w0 w1 w2
    assume h: "i * 3 + 2 < length triangle_indices
           \<and> triangle_indices ! (i * 3) < length opacities
           \<and> triangle_indices ! (i * 3 + 1) < length opacities
           \<and> triangle_indices ! (i * 3 + 2) < length opacities
           \<and> opacities ! (triangle_indices ! (i * 3)) = Num w0
           \<and> opacities ! (triangle_indices ! (i * 3 + 1)) = Num w1
           \<and> opacities ! (triangle_indices ! (i * 3 + 2)) = Num w2"
    have d: "(i * 3) div 3 = i" "(i * 3 + 1) div 3 = i" "(i * 3 + 2) div 3 = i" by simp_all
    have w: "triangleMinWeightOf triangle_indices opacities i = Num (min w0 (min w1 w2))"
      using h by (simp add: triangleMinWeightOf_def getU_def getFo_def getF_def Math_min3_Num)
    show "aTriangleMinWeight ?g ! (i * 3) = Num (min w0 (min w1 w2))
               \<and> aTriangleMinWeight ?g ! (i * 3 + 1) = Num (min w0 (min w1 w2))
               \<and> aTriangleMinWeight ?g ! (i * 3 + 2) = Num (min w0 (min w1 w2))"
      unfolding m using h d w by simp
  qed
  show ?thesis using g m f by blast
qed


lemma upt6: "[0..<6] = [0, 1, 2, 3, 4, 5]"
  by (simp add: upt_rec)

theorem triangle_min_weight_from_opacities_witness:
  "map_sum id aTriangleMinWeight
     (createTriangleSplatsGeometry test_vertices test_indices test_opacities (Some test_weights)
        None None None 0)
   = Inr [Num (1 / 200), Num (1 / 200), Num (1 / 200), Num (1 / 50), Num (1 / 50), Num (1 / 50)]"
proof -
  obtain g where g: "createTriangleSplatsGeometry test_vertices test_indices test_opacities
        (Some test_weights) None None None 0 = Inr g"
    and m: "aTriangleMinWeight g =
         map (\<lambda>t. triangleMinWeightOf test_indices test_opacities (t div 3))
           [0..<length test_indices]"
    using triangle_min_weight_from_opacities[of test_vertices test_indices test_opacities
        "Some test_weights" None None None 0] by blast
  have l: "length test_indices = 6" by (simp add: test_indices_def)
  have w: "triangleMinWeightOf test_indices test_opacities 0 = Num (1 / 200)"
    "triangleMinWeightOf test_indices test_opacities (Suc 0) = Num (1 / 50)"
    by (simp_all add: triangleMinWeightOf_def getU_def getFo_def getF_def Math_min3_def Let_def
        test_indices_def test_opacities_def)
  have "aTriangleMinWeight g =
      [Num (1 / 200), Num (1 / 200), Num (1 / 200), Num (1 / 50), Num (1 / 50), Num (1 / 50)]"
    unfolding m l upt6 by (simp add: w)
  then show ?thesis by (simp add: g)
qed

text \<open>
  C9. Two calls of the builder that differ in the \<open>vertex_weights\<close> argument only
  (absent or any array) return the same result: every attribute, the centre table, the
  SH texture, the colours and the index buffer are equal.
\<close>

theorem vertex_weights_not_read:
  "createTriangleSplatsGeometry vertices triangle_indices opacities vertex_weights colors
     features_dc features_rest sh_degree
   = createTriangleSplatsGeometry vertices triangle_indices opacities vertex_weights' colors
       features_dc features_rest sh_degree"
  by (simp add: createTriangleSplatsGeometry_def)

lemma identityIndexBuffer_upt: "identityIndexBuffer ti = [0..<length ti]"
proof -
  have n: "nat \<lfloor>real (length ti) / 3 * 3\<rfloor> = length ti" "nat \<lceil>real (length ti) / 3 * 3\<rceil> = length ti"
    by simp_all
  show ?thesis
    unfolding identityIndexBuffer_def Let_def newUint32Array_def loopBelow_def n
    using foldl_update_map[of "length ti" "replicate (length ti) 0" "\<lambda>i. i"]
    by (simp add: map_idI)
qed

lemma triangleMinWeightOf_outside:
  assumes "k < 3"
    and "length ti \<le> i * 3 + k \<or> length op \<le> ti ! (i * 3 + k)"
  shows "triangleMinWeightOf ti op i = NaN"
proof -
  have r: "getFo op (getU ti (i * 3 + k)) = NaN"
    using assms(2) by (auto simp: getFo_def getU_def getF_def)
  from assms(1) consider "k = 0" | "k = 1" | "k = 2" by linarith
  then show ?thesis
  proof cases
    case 1
    then show ?thesis using r by (simp add: triangleMinWeightOf_def Math_min3_def Let_def)
  next
    case 2
    then show ?thesis using r by (simp add: triangleMinWeightOf_def Math_min3_def Let_def)
  next
    case 3
    then show ?thesis using r by (simp add: triangleMinWeightOf_def Math_min3_def Let_def)
  qed
qed

text \<open>
  C7, as the code has it. The builder checks no shape and does not fail: for every
  input it returns a geometry, with one min-weight entry for each triangle index and the
  identity index buffer. The min-weight of a record is NaN as soon as one of the three
  reads \<open>opacities[triangle_indices[3i + k]]\<close> of its triangle \<open>i\<close> falls outside
  \<open>triangle_indices\<close> or outside \<open>opacities\<close>.
\<close>

theorem createTriangleSplatsGeometry_never_fails:
  "\<exists>g. createTriangleSplatsGeometry vertices triangle_indices opacities vertex_weights colors
          features_dc features_rest sh_degree = Inr g
     \<and> length (aTriangleMinWeight g) = length triangle_indices
     \<and> index g = [0..<length triangle_indices]
     \<and> (\<forall>t k. t < length triangle_indices \<and> k < 3
              \<and> (length triangle_indices \<le> t div 3 * 3 + k
                   \<or> length opacities \<le> triangle_indices ! (t div 3 * 3 + k))
            \<longrightarrow> aTriangleMinWeight g ! t = NaN)"
proof -
  obtain tex where g: "createTriangleSplatsGeometry vertices triangle_indices opacities
      vertex_weights colors features_dc features_rest sh_degree =
      Inr (assembleGeometry (unrollTriangles vertices triangle_indices opacities) tex
            (map_option (unrollColors triangle_indices) colors)
            (identityIndexBuffer triangle_indices))"
    using createTriangleSplatsGeometry_returns by blast
  let ?g = "assembleGeometry (unrollTriangles vertices triangle_indices opacities) tex
            (map_option (unrollColors triangle_indices) colors)
            (identityIndexBuffer triangle_indices)"
  have a: "length (aTriangleMinWeight ?g) = length triangle_indices"
    "index ?g = [0..<length triangle_indices]"
    by (simp_all add: assembleGeometry_def unrollTriangles_minWeights(1) identityIndexBuffer_upt)
  have n: "\<forall>t k. t < length triangle_indices \<and> k < 3
              \<and> (length triangle_indices \<le> t div 3 * 3 + k
                   \<or> length opacities \<le> triangle_indices ! (t div 3 * 3 + k))
            \<longrightarrow> aTriangleMinWeight ?g ! t = NaN"
  proof (intro allI impI)
    fix t k
    assume h: "t < length triangle_indices \<and> k < 3
              \<and> (length triangle_indices \<le> t div 3 * 3 + k
                   \<or> length opacities \<le> triangle_indices ! (t div 3 * 3 + k))"
    have "aTriangleMinWeight ?g ! t = triangleMinWeightOf triangle_indices opacities (t div 3)"
      using h by (simp add: assembleGeometry_def unrollTriangles_minWeights(2))
    also have "\<dots> = NaN"
      using h by (intro triangleMinWeightOf_outside[of k]) simp_all
    finally show "aTriangleMinWeight ?g ! t = NaN" .
  qed
  show ?thesis using g a n by blast
qed

theorem createTriangleSplatsGeometry_never_fails_witness:
  "(3::nat) < length partial_indices \<and> (1::nat) < 3
   \<and> length partial_indices \<le> 3 div 3 * 3 + 1
   \<and> \<not> isl (createTriangleSplatsGeometry test_vertices partial_indices test_opacities
              None None None None 0)
   \<and> aTriangleMinWeight (projr (createTriangleSplatsGeometry test_vertices partial_indices
        test_opacities None None None None 0)) ! 3 = NaN
   \<and> index (projr (createTriangleSplatsGeometry test_vertices partial_indices
        test_opacities None None None None 0)) = [0, 1, 2, 3]"
proof -
  have h: "(3::nat) < length partial_indices" "(1::nat) < 3"
    "length partial_indices \<le> 3 div 3 * 3 + 1"
    by (simp_all add: partial_indices_def)
  obtain g where g: "createTriangleSplatsGeometry test_vertices partial_indices test_opacities
        None None None None 0 = Inr g"
    and i: "index g = [0..<length partial_indices]"
    and n: "\<forall>t k. t < length partial_indices \<and> k < 3
              \<and> (length partial_indices \<le> t div 3 * 3 + k
                   \<or> length test_opacities \<le> partial_indices ! (t div 3 * 3 + k))
            \<longrightarrow> aTriangleMinWeight g ! t = NaN"
    using createTriangleSplatsGeometry_never_fails[of test_vertices partial_indices test_opacities
        None None None None 0] by blast
  have "aTriangleMinWeight g ! 3 = NaN"
    using n h by blast
  moreover have "index g = [0, 1, 2, 3]"
    unfolding i by (simp add: partial_indices_def upt_rec)
  ultimately show ?thesis using h by (simp add: g)
qed

text \<open>
  C7, as the specification has it, fails: a scene with two opacities for five vertices,
  a scene with four triangle indices, and a scene of degree 1 whose rest buffer holds one
  number are all built. In the first, each min-weight is NaN, from the opacity read
  outside the array; in the second, the fourth record belongs to a triangle with one
  index, and its min-weight is NaN.
\<close>

theorem bad_shape_is_built:
  "\<not> isl (createTriangleSplatsGeometry test_vertices test_indices [Num (1 / 2), Num (1 / 200)]
            None None None None 0)
   \<and> map_sum id aTriangleMinWeight
        (createTriangleSplatsGeometry test_vertices test_indices [Num (1 / 2), Num (1 / 200)]
           None None None None 0)
       = Inr [NaN, NaN, NaN, NaN, NaN, NaN]
   \<and> map_sum id aTriangleMinWeight
        (createTriangleSplatsGeometry test_vertices partial_indices test_opacities
           None None None None 0)
       = Inr [Num (1 / 200), Num (1 / 200), Num (1 / 200), NaN]
   \<and> \<not> isl (createTriangleSplatsGeometry test_vertices test_indices test_opacities
              None None (Some test_vertices) (Some [Num 1]) 1)"
proof -
  let ?op = "[Num (1 / 2), Num (1 / 200)]"
  obtain tex where g: "createTriangleSplatsGeometry test_vertices test_indices ?op
      None None None None 0 =
      Inr (assembleGeometry (unrollTriangles test_vertices test_indices ?op) tex
            (map_option (unrollColors test_indices) None) (identityIndexBuffer test_indices))"
    using createTriangleSplatsGeometry_returns by blast
  have l: "length test_indices = 6" by (simp add: test_indices_def)
  have w: "triangleMinWeightOf test_indices ?op 0 = NaN"
    "triangleMinWeightOf test_indices ?op (Suc 0) = NaN"
    by (simp_all add: triangleMinWeightOf_def getU_def getFo_def getF_def Math_min3_def Let_def
        test_indices_def)
  have a: "\<not> isl (createTriangleSplatsGeometry test_vertices test_indices ?op
            None None None None 0)"
    unfolding g by simp
  have b: "map_sum id aTriangleMinWeight
        (createTriangleSplatsGeometry test_vertices test_indices ?op None None None None 0)
       = Inr [NaN, NaN, NaN, NaN, NaN, NaN]"
    unfolding g by (simp add: assembleGeometry_def minWeights_map l upt6 w)
  obtain tex' where g': "createTriangleSplatsGeometry test_vertices partial_indices test_opacities
      None None None None 0 =
      Inr (assembleGeometry (unrollTriangles test_vertices partial_indices test_opacities) tex'
            (map_option (unrollColors partial_indices) None) (identityIndexBuffer partial_indices))"
    using createTriangleSplatsGeometry_returns by blast
  have u4: "[0..<4] = [0, 1, 2, 3]" by (simp add: upt_rec)
  have w': "triangleMinWeightOf partial_indices test_opacities 0 = Num (1 / 200)"
    "triangleMinWeightOf partial_indices test_opacities (Suc 0) = NaN"
    by (simp_all add: triangleMinWeightOf_def getU_def getFo_def getF_def Math_min3_def Let_def
        test_opacities_def partial_indices_def)
  have l4: "length partial_indices = 4" by (simp add: partial_indices_def)
  have c: "map_sum id aTriangleMinWeight
        (createTriangleSplatsGeometry test_vertices partial_indices test_opacities
           None None None None 0)
       = Inr [Num (1 / 200), Num (1 / 200), Num (1 / 200), NaN]"
    unfolding g' by (simp add: assembleGeometry_def minWeights_map l4 u4 w')
  have d: "\<not> isl (createTriangleSplatsGeometry test_vertices test_indices test_opacities
              None None (Some test_vertices) (Some [Num 1]) 1)"
    using createTriangleSplatsGeometry_returns[of test_vertices test_indices test_opacities
        None None "Some test_vertices" "Some [Num 1]" 1] by auto
  show ?thesis using a b c d by blast
qed

subsection \<open>The fragment stage\<close>

lemma computeBarycentric_degenerate:
  "\<bar>baryDenom a b c\<bar> < 1 / 10 ^ 6 \<Longrightarrow> computeBarycentric p a b c = (1 / 3, 1 / 3, 1 / 3)"
  by (cases a; cases b; cases c; cases p) (simp add: Let_def)

lemma bary_combination:
  fixes u1 u2 v1 v2 q1 q2 :: real
  assumes "u1 * v2 - v1 * u2 \<noteq> 0"
  shows "(q1 * v2 - v1 * q2) / (u1 * v2 - v1 * u2) * u1
         + (- q1 * u2 + u1 * q2) / (u1 * v2 - v1 * u2) * v1 = q1"
    and "(q1 * v2 - v1 * q2) / (u1 * v2 - v1 * u2) * u2
         + (- q1 * u2 + u1 * q2) / (u1 * v2 - v1 * u2) * v2 = q2"
proof -
  define D where "D = u1 * v2 - v1 * u2"
  define A where "A = q1 * v2 - v1 * q2"
  define B where "B = - q1 * u2 + u1 * q2"
  have D0: "D \<noteq> 0" using assms by (simp add: D_def)
  have comb: "\<And>s t. A / D * s + B / D * t = (A * s + B * t) / D"
    by (simp add: add_divide_distrib)
  have "A * u1 + B * v1 = q1 * D"
    unfolding A_def B_def D_def by (simp add: algebra_simps)
  then have "A / D * u1 + B / D * v1 = q1"
    unfolding comb using D0 by simp
  then show "(q1 * v2 - v1 * q2) / (u1 * v2 - v1 * u2) * u1
         + (- q1 * u2 + u1 * q2) / (u1 * v2 - v1 * u2) * v1 = q1"
    unfolding A_def B_def D_def .
  have "A * u2 + B * v2 = q2 * D"
    unfolding A_def B_def D_def by (simp add: algebra_simps)
  then have "A / D * u2 + B / D * v2 = q2"
    unfolding comb using D0 by simp
  then show "(q1 * v2 - v1 * q2) / (u1 * v2 - v1 * u2) * u2
         + (- q1 * u2 + u1 * q2) / (u1 * v2 - v1 * u2) * v2 = q2"
    unfolding A_def B_def D_def .
qed

lemma computeBarycentric_weights:
  assumes "\<not> \<bar>baryDenom a b c\<bar> < 1 / 10 ^ 6" and "computeBarycentric p a b c = (wa, wb, wc)"
  shows "wa + wb + wc = 1"
    and "add2 (add2 (scale2 wa a) (scale2 wb b)) (scale2 wc c) = p"
proof -
  obtain ax ay bx "by" cx cy px py where
    e: "a = (ax, ay)" "b = (bx, by)" "c = (cx, cy)" "p = (px, py)"
    by (cases a; cases b; cases c; cases p) auto
  define u1 where "u1 = bx - ax"
  define u2 where "u2 = by - ay"
  define v1 where "v1 = cx - ax"
  define v2 where "v2 = cy - ay"
  define q1 where "q1 = px - ax"
  define q2 where "q2 = py - ay"
  have D0: "u1 * v2 - v1 * u2 \<noteq> 0"
    using assms(1) unfolding e u1_def u2_def v1_def v2_def by auto
  have w: "wb = (q1 * v2 - v1 * q2) / (u1 * v2 - v1 * u2)"
    "wc = (- q1 * u2 + u1 * q2) / (u1 * v2 - v1 * u2)"
    "wa = 1 - wb - wc"
    using assms unfolding e u1_def u2_def v1_def v2_def q1_def q2_def
    by (simp_all add: Let_def)
  show "wa + wb + wc = 1" using w(3) by simp
  note bc = bary_combination[OF D0, of q1 q2]
  have "wa * ax + wb * bx + wc * cx = ax + (wb * u1 + wc * v1)"
    unfolding w(3) u1_def v1_def by (simp add: algebra_simps)
  also have "wb * u1 + wc * v1 = q1" unfolding w(1,2) by (rule bc(1))
  finally have x: "wa * ax + wb * bx + wc * cx = px" by (simp add: q1_def)
  have "wa * ay + wb * by + wc * cy = ay + (wb * u2 + wc * v2)"
    unfolding w(3) u2_def v2_def by (simp add: algebra_simps)
  also have "wb * u2 + wc * v2 = q2" unfolding w(1,2) by (rule bc(2))
  finally have y: "wa * ay + wb * by + wc * cy = py" by (simp add: q2_def)
  show "add2 (add2 (scale2 wa a) (scale2 wb b)) (scale2 wc c) = p"
    unfolding e using x y by simp
qed


text \<open>
  C4. For a fragment at the pixel \<open>p\<close> inside the three shrunken half-planes (each
  \<open>n_k \<cdot> p + o'_k \<le> 0\<close>), with \<open>M\<close> the largest of the three distances: the fragment
  stage computes \<open>Cx = (max 0 (M * phi_scale)) ^ sigma\<close> and
  \<open>alpha = min 0.99 (m * Cx)\<close>, discards the fragment exactly when \<open>alpha < 1/255\<close>, and
  otherwise writes \<open>(C * alpha, alpha)\<close>, where \<open>C\<close> combines the three vertex colours
  with the weights of \<^const>\<open>computeBarycentric\<close>. The weights are \<open>(1/3, 1/3, 1/3)\<close>
  when the denominator is below \<open>10^-6\<close> in absolute value; otherwise they sum to 1
  and combine the three screen positions to \<open>p\<close>, which makes them the barycentric
  coordinates of \<open>p\<close>.
\<close>

theorem fragment_main_inside:
  assumes "dot2 (vNormal0 (edges v)) p + vOffset0 (edges v) \<le> 0"
    and "dot2 (vNormal1 (edges v)) p + vOffset1 (edges v) \<le> 0"
    and "dot2 (vNormal2 (edges v)) p + vOffset2 (edges v) \<le> 0"
  shows "fragment_main v p sigma =
      (let e = edges v;
           M = max (dot2 (vNormal0 e) p + vOffset0 e)
                 (max (dot2 (vNormal1 e) p + vOffset1 e) (dot2 (vNormal2 e) p + vOffset2 e));
           Cx = (max 0 (M * vPhiCenterScale e)) powr sigma;
           alpha = min (99 / 100) (vTriangleMinWeight e * Cx);
           w = computeBarycentric p (vScreenPos0 e) (vScreenPos1 e) (vScreenPos2 e);
           C = add3 (add3 (scale3 (fst w) (vColor0 v)) (scale3 (fst (snd w)) (vColor1 v)))
                 (scale3 (snd (snd w)) (vColor2 v))
       in if alpha < 1 / 255 then None else Some (premultiplied C alpha))
    \<and> (\<bar>baryDenom p0 p1 p2\<bar> < 1 / 10 ^ 6
         \<longrightarrow> computeBarycentric p p0 p1 p2 = (1 / 3, 1 / 3, 1 / 3))
    \<and> (\<not> \<bar>baryDenom p0 p1 p2\<bar> < 1 / 10 ^ 6
         \<longrightarrow> (let w = computeBarycentric p p0 p1 p2
              in fst w + fst (snd w) + snd (snd w) = 1
                 \<and> add2 (add2 (scale2 (fst w) p0) (scale2 (fst (snd w)) p1))
                      (scale2 (snd (snd w)) p2) = p))"
proof -
  define e where "e = edges v"
  define M where "M = max (dot2 (vNormal0 e) p + vOffset0 e)
                 (max (dot2 (vNormal1 e) p + vOffset1 e) (dot2 (vNormal2 e) p + vOffset2 e))"
  define Cx where "Cx = (max 0 (M * vPhiCenterScale e)) powr sigma"
  define alpha where "alpha = min (99 / 100) (vTriangleMinWeight e * Cx)"
  obtain wa wb wc where w: "computeBarycentric p (vScreenPos0 e) (vScreenPos1 e) (vScreenPos2 e)
      = (wa, wb, wc)"
    by (cases "computeBarycentric p (vScreenPos0 e) (vScreenPos1 e) (vScreenPos2 e)")
  obtain r g b where C: "add3 (add3 (scale3 wa (vColor0 v)) (scale3 wb (vColor1 v)))
      (scale3 wc (vColor2 v)) = (r, g, b)"
    by (cases "add3 (add3 (scale3 wa (vColor0 v)) (scale3 wb (vColor1 v)))
      (scale3 wc (vColor2 v))")
  have inside: "\<not> (dot2 (vNormal0 e) p + vOffset0 e > 0 \<or> dot2 (vNormal1 e) p + vOffset1 e > 0
      \<or> dot2 (vNormal2 e) p + vOffset2 e > 0)"
    using assms unfolding e_def by auto
  have cx: "max 0 ((max (M * vPhiCenterScale e) 0) powr sigma) = Cx"
    unfolding Cx_def by (simp add: max.commute)
  have "fragment_main v p sigma =
      (if alpha < 1 / 255 then None else Some (r * alpha, g * alpha, b * alpha, alpha))"
    unfolding fragment_main_def e_def[symmetric] Let_def
    using inside
    unfolding M_def[symmetric] cx alpha_def[symmetric] w prod.case C
    by simp
  then have main: "fragment_main v p sigma =
      (let e = edges v;
           M = max (dot2 (vNormal0 e) p + vOffset0 e)
                 (max (dot2 (vNormal1 e) p + vOffset1 e) (dot2 (vNormal2 e) p + vOffset2 e));
           Cx = (max 0 (M * vPhiCenterScale e)) powr sigma;
           alpha = min (99 / 100) (vTriangleMinWeight e * Cx);
           w = computeBarycentric p (vScreenPos0 e) (vScreenPos1 e) (vScreenPos2 e);
           C = add3 (add3 (scale3 (fst w) (vColor0 v)) (scale3 (fst (snd w)) (vColor1 v)))
                 (scale3 (snd (snd w)) (vColor2 v))
       in if alpha < 1 / 255 then None else Some (premultiplied C alpha))"
    unfolding Let_def e_def[symmetric] M_def[symmetric] Cx_def[symmetric] alpha_def[symmetric] w
    by (simp add: C)
  have deg: "\<bar>baryDenom p0 p1 p2\<bar> < 1 / 10 ^ 6
         \<longrightarrow> computeBarycentric p p0 p1 p2 = (1 / 3, 1 / 3, 1 / 3)"
    using computeBarycentric_degenerate by blast
  have nondeg: "\<not> \<bar>baryDenom p0 p1 p2\<bar> < 1 / 10 ^ 6
         \<longrightarrow> (let w = computeBarycentric p p0 p1 p2
              in fst w + fst (snd w) + snd (snd w) = 1
                 \<and> add2 (add2 (scale2 (fst w) p0) (scale2 (fst (snd w)) p1))
                      (scale2 (snd (snd w)) p2) = p)"
  proof
    assume n: "\<not> \<bar>baryDenom p0 p1 p2\<bar> < 1 / 10 ^ 6"
    obtain ua ub uc where u: "computeBarycentric p p0 p1 p2 = (ua, ub, uc)"
      by (cases "computeBarycentric p p0 p1 p2")
    show "let w = computeBarycentric p p0 p1 p2
              in fst w + fst (snd w) + snd (snd w) = 1
                 \<and> add2 (add2 (scale2 (fst w) p0) (scale2 (fst (snd w)) p1))
                      (scale2 (snd (snd w)) p2) = p"
      unfolding Let_def u using computeBarycentric_weights[OF n u] by simp
  qed
  show ?thesis using main deg nondeg by blast
qed

theorem fragment_main_inside_witness:
  "dot2 (vNormal0 (edges example_fragment)) (4, 6) + vOffset0 (edges example_fragment) \<le> 0
   \<and> dot2 (vNormal1 (edges example_fragment)) (4, 6) + vOffset1 (edges example_fragment) \<le> 0
   \<and> dot2 (vNormal2 (edges example_fragment)) (4, 6) + vOffset2 (edges example_fragment) \<le> 0
   \<and> fragment_main example_fragment (4, 6) 1 = Some (0, 4 / 25, 6 / 25, 2 / 5)"
proof -
  have h: "dot2 (vNormal0 (edges example_fragment)) (4, 6) + vOffset0 (edges example_fragment) \<le> 0"
    "dot2 (vNormal1 (edges example_fragment)) (4, 6) + vOffset1 (edges example_fragment) \<le> 0"
    "dot2 (vNormal2 (edges example_fragment)) (4, 6) + vOffset2 (edges example_fragment) \<le> 0"
    by (simp_all add: example_fragment_def)
  have "fragment_main example_fragment (4, 6) 1 = Some (0, 4 / 25, 6 / 25, 2 / 5)"
    using fragment_main_inside[OF h, of 1, THEN conjunct1]
    by (simp add: example_fragment_def Let_def)
  then show ?thesis using h by blast
qed

subsection \<open>The vertex stage\<close>

lemma edgeGeom_parts:
  "edgeGeom c n i = (edgeNormal c n i, edgeOffset c n i, edgeDist c n i)"
  by (simp add: edgeNormal_def edgeOffset_def edgeDist_def)

lemma edgeLoop_unfold:
  "edgeLoop [p0, p1, p2] I ratio ex =
     (let pw = ratio powr ex;
          s0 = edgeDist p0 p1 I * pw;
          s1 = (if s0 = 0 then edgeDist p1 p2 I * pw else s0);
          s2 = (if s1 = 0 then edgeDist p2 p0 I * pw else s1)
      in (s2, edgeDist p2 p0 I,
          [edgeNormal p0 p1 I, edgeNormal p1 p2 I, edgeNormal p2 p0 I],
          [edgeOffset p0 p1 I - s0, edgeOffset p1 p2 I - s1, edgeOffset p2 p0 I - s2]))"
  unfolding edgeLoop_def upt3
  by (simp add: edgeStep_def edgeGeom_parts Let_def)

lemma edgeDist_nonpos: "edgeDist c n i \<le> 0"
  by (cases c; cases n; cases i) (simp add: edgeDist_def edgeGeom_def Let_def)

lemma edgeDist_zero_iff:
  "edgeDist (cx, cy) (nx, ny) (ix, iy) = 0 \<longleftrightarrow>
   (ny - cy) * (ix - cx) - (nx - cx) * (iy - cy) = 0"
proof -
  define len where "len = length2 (ny - cy, - (nx - cx))"
  define k where "k = (if len > 1 / 10 ^ 4 then 1 / len else 1)"
  define E where "E = (ny - cy) * (ix - cx) - (nx - cx) * (iy - cy)"
  have k0: "k \<noteq> 0" unfolding k_def by auto
  have n: "(if len > 1 / 10 ^ 4 then div2 (ny - cy, - (nx - cx)) len else (ny - cy, - (nx - cx)))
      = (k * (ny - cy), k * - (nx - cx))"
    unfolding k_def by simp
  have d: "k * (ny - cy) * ix + k * - (nx - cx) * iy + - (k * (ny - cy) * cx + k * - (nx - cx) * cy)
      = k * E"
    unfolding E_def by (simp add: algebra_simps)
  have "edgeDist (cx, cy) (nx, ny) (ix, iy) = (if k * E > 0 then - (k * E) else k * E)"
    unfolding edgeDist_def edgeGeom_def Let_def sub2.simps fst_conv snd_conv len_def[symmetric] n d
    by simp
  then show ?thesis
    using k0 unfolding E_def[symmetric] by auto
qed


lemma weighted_point_offset:
  fixes a b c :: real
  assumes "a + b + c \<noteq> 0"
  shows "(a * x0 + b * x1 + c * x2) / (a + b + c) - x0
         = (b * (x1 - x0) + c * (x2 - x0)) / (a + b + c)"
    and "(a * x0 + b * x1 + c * x2) / (a + b + c) - x1
         = (a * (x0 - x1) + c * (x2 - x1)) / (a + b + c)"
    and "(a * x0 + b * x1 + c * x2) / (a + b + c) - x2
         = (a * (x0 - x2) + b * (x1 - x2)) / (a + b + c)"
proof -
  define P where "P = a + b + c"
  have P0: "P \<noteq> 0" using assms by (simp add: P_def)
  have e: "\<And>u t. u / P - t = (u - t * P) / P"
    using P0 by (simp add: diff_divide_distrib)
  have "a * x0 + b * x1 + c * x2 - x0 * P = b * (x1 - x0) + c * (x2 - x0)"
    unfolding P_def by (simp add: algebra_simps)
  then show "(a * x0 + b * x1 + c * x2) / (a + b + c) - x0
         = (b * (x1 - x0) + c * (x2 - x0)) / (a + b + c)"
    unfolding P_def[symmetric] e by simp
  have "a * x0 + b * x1 + c * x2 - x1 * P = a * (x0 - x1) + c * (x2 - x1)"
    unfolding P_def by (simp add: algebra_simps)
  then show "(a * x0 + b * x1 + c * x2) / (a + b + c) - x1
         = (a * (x0 - x1) + c * (x2 - x1)) / (a + b + c)"
    unfolding P_def[symmetric] e by simp
  have "a * x0 + b * x1 + c * x2 - x2 * P = a * (x0 - x2) + b * (x1 - x2)"
    unfolding P_def by (simp add: algebra_simps)
  then show "(a * x0 + b * x1 + c * x2) / (a + b + c) - x2
         = (a * (x0 - x2) + b * (x1 - x2)) / (a + b + c)"
    unfolding P_def[symmetric] e by simp
qed

lemma incenter_edge_expressions:
  fixes a b c xa xb xc ya yb yc :: real
  assumes P0: "a + b + c \<noteq> 0"
  defines "ix \<equiv> (a * xa + b * xb + c * xc) / (a + b + c)"
    and "iy \<equiv> (a * ya + b * yb + c * yc) / (a + b + c)"
    and "D \<equiv> (xb - xa) * (yc - ya) - (yb - ya) * (xc - xa)"
  shows "(yb - ya) * (ix - xa) - (xb - xa) * (iy - ya) = - (c * D) / (a + b + c)"
    and "(yc - yb) * (ix - xb) - (xc - xb) * (iy - yb) = - (a * D) / (a + b + c)"
    and "(ya - yc) * (ix - xc) - (xa - xc) * (iy - yc) = - (b * D) / (a + b + c)"
proof -
  define P where "P = a + b + c"
  have comb: "\<And>s u t v. s * (u / P) - t * (v / P) = (s * u - t * v) / P"
    by (simp add: diff_divide_distrib)
  have w0: "ix - xa = (b * (xb - xa) + c * (xc - xa)) / P"
    "iy - ya = (b * (yb - ya) + c * (yc - ya)) / P"
    unfolding ix_def iy_def P_def by (rule weighted_point_offset(1)[OF P0])+
  have w1: "ix - xb = (a * (xa - xb) + c * (xc - xb)) / P"
    "iy - yb = (a * (ya - yb) + c * (yc - yb)) / P"
    unfolding ix_def iy_def P_def by (rule weighted_point_offset(2)[OF P0])+
  have w2: "ix - xc = (a * (xa - xc) + b * (xb - xc)) / P"
    "iy - yc = (a * (ya - yc) + b * (yb - yc)) / P"
    unfolding ix_def iy_def P_def by (rule weighted_point_offset(3)[OF P0])+
  have "(yb - ya) * (b * (xb - xa) + c * (xc - xa)) - (xb - xa) * (b * (yb - ya) + c * (yc - ya))
      = - (c * D)"
    unfolding D_def by (simp add: algebra_simps)
  then show "(yb - ya) * (ix - xa) - (xb - xa) * (iy - ya) = - (c * D) / (a + b + c)"
    unfolding w0 comb P_def[symmetric] by (simp only:)
  have "(yc - yb) * (a * (xa - xb) + c * (xc - xb)) - (xc - xb) * (a * (ya - yb) + c * (yc - yb))
      = - (a * D)"
    unfolding D_def by (simp add: algebra_simps)
  then show "(yc - yb) * (ix - xb) - (xc - xb) * (iy - yb) = - (a * D) / (a + b + c)"
    unfolding w1 comb P_def[symmetric] by (simp only:)
  have "(ya - yc) * (a * (xa - xc) + b * (xb - xc)) - (xa - xc) * (a * (ya - yc) + b * (yb - yc))
      = - (b * D)"
    unfolding D_def by (simp add: algebra_simps)
  then show "(ya - yc) * (ix - xc) - (xa - xc) * (iy - yc) = - (b * D) / (a + b + c)"
    unfolding w2 comb P_def[symmetric] by (simp only:)
qed

lemma distance2_zero: "distance2 (ax, ay) (bx, by) = 0 \<Longrightarrow> ax = bx \<and> ay = by"
proof -
  assume "distance2 (ax, ay) (bx, by) = 0"
  then have "(ax - bx) * (ax - bx) + (ay - by) * (ay - by) = 0"
    by (simp add: distance2_def length2_def)
  then show ?thesis
    by (simp add: sum_squares_eq_zero_iff)
qed

lemma incenterOf_coords:
  "incenterOf (x0, y0) (x1, y1) (x2, y2) =
     ((distance2 (x1, y1) (x2, y2) * x0 + distance2 (x2, y2) (x0, y0) * x1
          + distance2 (x0, y0) (x1, y1) * x2)
        / (distance2 (x1, y1) (x2, y2) + distance2 (x2, y2) (x0, y0) + distance2 (x0, y0) (x1, y1)),
      (distance2 (x1, y1) (x2, y2) * y0 + distance2 (x2, y2) (x0, y0) * y1
          + distance2 (x0, y0) (x1, y1) * y2)
        / (distance2 (x1, y1) (x2, y2) + distance2 (x2, y2) (x0, y0) + distance2 (x0, y0) (x1, y1)))"
  by (simp add: incenterOf_def Let_def)

lemma first_edge_zero_all_zero:
  assumes per: "perimeterOf p0 p1 p2 \<noteq> 0"
    and d0: "edgeDist p0 p1 (incenterOf p0 p1 p2) = 0"
  shows "edgeDist p1 p2 (incenterOf p0 p1 p2) = 0" and "edgeDist p2 p0 (incenterOf p0 p1 p2) = 0"
proof -
  obtain x0 y0 x1 y1 x2 y2 where e: "p0 = (x0, y0)" "p1 = (x1, y1)" "p2 = (x2, y2)"
    by (cases p0; cases p1; cases p2) auto
  define a where "a = distance2 (x1, y1) (x2, y2)"
  define b where "b = distance2 (x2, y2) (x0, y0)"
  define c where "c = distance2 (x0, y0) (x1, y1)"
  define D where "D = (x1 - x0) * (y2 - y0) - (y1 - y0) * (x2 - x0)"
  have P0: "a + b + c \<noteq> 0"
    using per unfolding e perimeterOf_def a_def b_def c_def .
  note ex = incenter_edge_expressions[OF P0, where xa = x0 and xb = x1 and xc = x2
      and ya = y0 and yb = y1 and yc = y2, folded D_def]
  have I: "incenterOf (x0, y0) (x1, y1) (x2, y2) =
      ((a * x0 + b * x1 + c * x2) / (a + b + c), (a * y0 + b * y1 + c * y2) / (a + b + c))"
    unfolding incenterOf_coords a_def b_def c_def ..
  have "(y1 - y0) * ((a * x0 + b * x1 + c * x2) / (a + b + c) - x0)
       - (x1 - x0) * ((a * y0 + b * y1 + c * y2) / (a + b + c) - y0) = 0"
    using d0 unfolding e I edgeDist_zero_iff .
  then have "- (c * D) / (a + b + c) = 0"
    using ex(1) by (simp only:)
  then have "c * D = 0" using P0 by simp
  moreover have "c = 0 \<Longrightarrow> D = 0"
    using distance2_zero[of x0 y0 x1 y1] unfolding c_def D_def by simp
  ultimately have D0: "D = 0" by auto
  have "- (a * D) / (a + b + c) = 0" "- (b * D) / (a + b + c) = 0"
    using D0 by simp_all
  then have z: "(y2 - y1) * ((a * x0 + b * x1 + c * x2) / (a + b + c) - x1)
       - (x2 - x1) * ((a * y0 + b * y1 + c * y2) / (a + b + c) - y1) = 0"
    "(y0 - y2) * ((a * x0 + b * x1 + c * x2) / (a + b + c) - x2)
       - (x0 - x2) * ((a * y0 + b * y1 + c * y2) / (a + b + c) - y2) = 0"
    using ex(2,3) by (simp_all only:)
  show "edgeDist p1 p2 (incenterOf p0 p1 p2) = 0"
    unfolding e I edgeDist_zero_iff by (rule z(1))
  show "edgeDist p2 p0 (incenterOf p0 p1 p2) = 0"
    unfolding e I edgeDist_zero_iff by (rule z(2))
qed


lemma vertex_main_SomeD:
  assumes "vertex_main a = Some out"
  defines "p0 \<equiv> vScreenPos0 out" and "p1 \<equiv> vScreenPos1 out" and "p2 \<equiv> vScreenPos2 out"
  defines "el \<equiv> edgeLoop [p0, p1, p2] (incenterOf p0 p1 p2)
             (1 / 100 / aTriangleMinWeight_in a) (1 / sigma_v a)"
  shows "1 / 100 \<le> aTriangleMinWeight_in a"
    and "1 \<le> perimeterOf p0 p1 p2"
    and "vTriangleMinWeight out = aTriangleMinWeight_in a"
    and "vPhiCenterScale out
           = 1 / (if fst (snd el) \<ge> 0 then - (1 / 10 ^ 4) else fst (snd el))"
    and "vNormal0 out = fst (snd (snd el)) ! 0 \<and> vNormal1 out = fst (snd (snd el)) ! 1
           \<and> vNormal2 out = fst (snd (snd el)) ! 2"
    and "vOffset0 out = snd (snd (snd el)) ! 0 \<and> vOffset1 out = snd (snd (snd el)) ! 1
           \<and> vOffset2 out = snd (snd (snd el)) ! 2"
  using assms(1) unfolding vertex_main_def Let_def p0_def p1_def p2_def el_def
  by (auto split: if_splits prod.splits)


lemma shrink_sizes_equal:
  assumes per: "perimeterOf p0 p1 p2 \<noteq> 0" and pw: "0 < pw"
  defines "I \<equiv> incenterOf p0 p1 p2"
  defines "s0 \<equiv> edgeDist p0 p1 I * pw"
  defines "s1 \<equiv> (if s0 = 0 then edgeDist p1 p2 I * pw else s0)"
  defines "s2 \<equiv> (if s1 = 0 then edgeDist p2 p0 I * pw else s1)"
  shows "s1 = s0" and "s2 = s0"
proof -
  have z: "s0 = 0 \<Longrightarrow> edgeDist p1 p2 I = 0 \<and> edgeDist p2 p0 I = 0"
  proof -
    assume "s0 = 0"
    then have "edgeDist p0 p1 I = 0" using pw unfolding s0_def by simp
    then show ?thesis
      using first_edge_zero_all_zero[OF per] unfolding I_def by simp
  qed
  show 1: "s1 = s0" unfolding s1_def using z by simp
  show "s2 = s0" unfolding s2_def 1 using z by simp
qed

lemma distancePoints_max:
  "distancePoints [p0, p1, p2] I = max (distance2 p0 I) (max (distance2 p1 I) (distance2 p2 I))"
proof -
  have nn: "\<And>a b. 0 \<le> distance2 a b"
  proof -
    fix a b :: vec2
    show "0 \<le> distance2 a b"
      by (cases a; cases b) (simp add: distance2_def length2_def)
  qed
  show ?thesis
    unfolding distancePoints_def upt3 using nn[of p0 I] nn[of p1 I] nn[of p2 I]
    by (simp add: Let_def max_def)
qed

lemma vertex_main_eval:
  assumes m: "1 / 100 \<le> aTriangleMinWeight_in a"
    and cos: "1 / 1000 \<le> \<bar>cosTheta (modelViewMatrix a) (aTriangleV0_in a) (aTriangleV1_in a)
                              (aTriangleV2_in a)\<bar>"
    and c0: "mulMat4Vec4 (mulMat4 (projectionMatrix a) (modelViewMatrix a))
               (point4 (aTriangleV0_in a)) = c0"
    and c1: "mulMat4Vec4 (mulMat4 (projectionMatrix a) (modelViewMatrix a))
               (point4 (aTriangleV1_in a)) = c1"
    and c2: "mulMat4Vec4 (mulMat4 (projectionMatrix a) (modelViewMatrix a))
               (point4 (aTriangleV2_in a)) = c2"
    and w: "0 < wOf c0"
    and p: "projectClip (uResolution a) c0 = p0" "projectClip (uResolution a) c1 = p1"
      "projectClip (uResolution a) c2 = p2"
    and per: "1 \<le> perimeterOf p0 p1 p2"
    and dp: "1 \<le> distancePoints [p0, p1, p2] (incenterOf p0 p1 p2)"
      "distancePoints [p0, p1, p2] (incenterOf p0 p1 p2) \<le> 1600"
    and el: "edgeLoop [p0, p1, p2] (incenterOf p0 p1 p2)
               (1 / 100 / aTriangleMinWeight_in a) (1 / sigma_v a) = (cs, ld, ns, os)"
  shows "vertex_main a =
     Some \<lparr> vScreenPos0 = p0, vScreenPos1 = p1, vScreenPos2 = p2,
            vTriangleMinWeight = aTriangleMinWeight_in a,
            vPhiCenterScale = 1 / (if ld \<ge> 0 then - (1 / 10 ^ 4) else ld),
            vNormal0 = ns ! 0, vNormal1 = ns ! 1, vNormal2 = ns ! 2,
            vOffset0 = os ! 0, vOffset1 = os ! 1, vOffset2 = os ! 2 \<rparr>"
proof -
  have 1: "\<not> aTriangleMinWeight_in a < 1 / 100" using m by simp
  have 2: "\<not> \<bar>cosTheta (modelViewMatrix a) (aTriangleV0_in a) (aTriangleV1_in a)
                              (aTriangleV2_in a)\<bar> < 1 / 1000" using cos by simp
  have 3: "\<not> (wOf c0 \<le> 0 \<and> wOf c1 \<le> 0 \<and> wOf c2 \<le> 0)" using w by simp
  have 4: "\<not> perimeterOf p0 p1 p2 < 1" using per by simp
  have 5: "\<not> (distancePoints [p0, p1, p2] (incenterOf p0 p1 p2) > 1600
      \<or> distancePoints [p0, p1, p2] (incenterOf p0 p1 p2) < 1)" using dp by simp
  have n: "[p0, p1, p2] ! 0 = p0" "[p0, p1, p2] ! 1 = p1" "[p0, p1, p2] ! 2 = p2"
    by simp_all
  show ?thesis
    unfolding vertex_main_def Let_def c0 c1 c2 p n
    using 1 2 3 4 5 el by simp
qed

lemma length2_eqI: "0 \<le> r \<Longrightarrow> x * x + y * y = r * r \<Longrightarrow> length2 (x, y) = r"
  by (simp add: length2_def)

lemma distance2_eqI:
  "0 \<le> r \<Longrightarrow> (ax - bx) * (ax - bx) + (ay - by) * (ay - by) = r * r
     \<Longrightarrow> distance2 (ax, ay) (bx, by) = r"
  by (simp add: distance2_def length2_def)

lemma distance2_bounds:
  assumes "l \<ge> 0" "l * l \<le> (ax - bx) * (ax - bx) + (ay - by) * (ay - by)"
    "(ax - bx) * (ax - bx) + (ay - by) * (ay - by) \<le> u * u" "0 \<le> u"
  shows "l \<le> distance2 (ax, ay) (bx, by)" "distance2 (ax, ay) (bx, by) \<le> u"
proof -
  define q where "q = (ax - bx) * (ax - bx) + (ay - by) * (ay - by)"
  have d: "distance2 (ax, ay) (bx, by) = sqrt q"
    by (simp add: distance2_def length2_def q_def)
  have "sqrt (l * l) \<le> sqrt q" using assms(2) unfolding q_def by (simp only: real_sqrt_le_iff)
  then show "l \<le> distance2 (ax, ay) (bx, by)" using assms(1) unfolding d by simp
  have "sqrt q \<le> sqrt (u * u)" using assms(3) unfolding q_def by (simp only: real_sqrt_le_iff)
  then show "distance2 (ax, ay) (bx, by) \<le> u" using assms(4) unfolding d by simp
qed

lemma cosTheta_flat:
  assumes cx: "x0 + x1 + x2 = 0" and cy: "y0 + y1 + y2 = 0"
    and D: "1 / 10 ^ 4 < \<bar>(x1 - x0) * (y2 - y0) - (y1 - y0) * (x2 - x0)\<bar>"
  shows "cosTheta identity4 (x0, y0, - 1) (x1, y1, - 1) (x2, y2, - 1) = - 1"
proof -
  define E where "E = (x1 - x0) * (y2 - y0) - (y1 - y0) * (x2 - x0)"
  have E0: "E \<noteq> 0" "1 / 10 ^ 4 < \<bar>E\<bar>" using D unfolding E_def by auto
  have c: "cross (sub3 (x1, y1, - 1) (x0, y0, - 1)) (sub3 (x2, y2, - 1) (x0, y0, - 1)) = (0, 0, E)"
    by (simp add: E_def algebra_simps)
  have n: "mulMat3Vec3 (mat3Of identity4) (0, 0, E) = (0, 0, E)"
    by (simp add: identity4_def)
  have l: "length3 (0, 0, E) = \<bar>E\<bar>"
    by (simp add: length3_def)
  have cw: "div3 (add3 (add3 (x0, y0, - 1) (x1, y1, - 1)) (x2, y2, - 1)) 3 = (0, 0, - 1)"
    using cx cy by simp
  have cv: "xyz (mulMat4Vec4 identity4 (point4 (0, 0, - 1))) = (0, 0, - 1)"
    by (simp add: identity4_def)
  have vd: "normalize3 (neg3 (0, 0, - 1)) = (0, 0, 1)"
    by (simp add: normalize3_def length3_def)
  have nv: "normalize3 (0, 0, E) = (0, 0, E / \<bar>E\<bar>)"
    by (simp add: normalize3_def l)
  have "cosTheta identity4 (x0, y0, - 1) (x1, y1, - 1) (x2, y2, - 1)
      = (if E / \<bar>E\<bar> > 0 then - (E / \<bar>E\<bar>) else E / \<bar>E\<bar>)"
    unfolding cosTheta_def Let_def c n l cw cv vd using E0(2) by (simp add: nv)
  also have "\<dots> = - 1"
    using E0(1) by (cases "E > 0") simp_all
  finally show ?thesis .
qed

lemma edgeGeom_eval:
  assumes len: "length2 (ny - cy, - (nx - cx)) = len" and big: "1 / 10 ^ 4 < len"
    and d: "((ny - cy) * (ix - cx) - (nx - cx) * (iy - cy)) / len = d" and neg: "d \<le> 0"
  shows "edgeGeom (cx, cy) (nx, ny) (ix, iy)
     = (((ny - cy) / len, - (nx - cx) / len),
        - ((ny - cy) / len * cx + - (nx - cx) / len * cy), d)"
proof -
  have l0: "len \<noteq> 0" using big by auto
  have e: "(ny - cy) / len * ix + - (nx - cx) / len * iy
      + - ((ny - cy) / len * cx + - (nx - cx) / len * cy) = d"
    unfolding d[symmetric] using l0 by (simp add: field_simps)
  show ?thesis
    unfolding edgeGeom_def Let_def sub2.simps fst_conv snd_conv len
    using big neg e by simp
qed

lemma example_clip:
  "mulMat4Vec4 (mulMat4 pixel_projection identity4) (point4 (x, y, z)) = (x / 400, y / 300, z, 1)"
  by (simp add: pixel_projection_def identity4_def)

lemma example_sides:
  "distance2 (839 / 2, 1717 / 6) (779 / 2, 1957 / 6) = 50"
  "distance2 (779 / 2, 1957 / 6) (779 / 2, 1717 / 6) = 40"
  "distance2 (779 / 2, 1717 / 6) (839 / 2, 1717 / 6) = 30"
  by (rule distance2_eqI; simp)+

lemma example_incenter:
  "incenterOf (779 / 2, 1717 / 6) (839 / 2, 1717 / 6) (779 / 2, 1957 / 6) = (799 / 2, 1777 / 6)"
  by (simp add: incenterOf_def Let_def example_sides)

lemma example_edges:
  "edgeGeom (779 / 2, 1717 / 6) (839 / 2, 1717 / 6) (799 / 2, 1777 / 6)
     = ((0, - 1), 1717 / 6, - 10)"
  "edgeGeom (839 / 2, 1717 / 6) (779 / 2, 1957 / 6) (799 / 2, 1777 / 6)
     = ((4 / 5, 3 / 5), - (5073 / 10), - 10)"
  "edgeGeom (779 / 2, 1957 / 6) (779 / 2, 1717 / 6) (799 / 2, 1777 / 6)
     = ((- 1, 0), 779 / 2, - 10)"
proof -
  have l: "length2 (1717 / 6 - 1717 / 6, - (839 / 2 - 779 / 2)) = 30"
    "length2 (1957 / 6 - 1717 / 6, - (779 / 2 - 839 / 2)) = 50"
    "length2 (1717 / 6 - 1957 / 6, - (779 / 2 - 779 / 2)) = 40"
    by (rule length2_eqI; simp)+
  show "edgeGeom (779 / 2, 1717 / 6) (839 / 2, 1717 / 6) (799 / 2, 1777 / 6)
     = ((0, - 1), 1717 / 6, - 10)"
    using edgeGeom_eval[OF l(1), of "799 / 2" "1777 / 6" "- 10"] by simp
  show "edgeGeom (839 / 2, 1717 / 6) (779 / 2, 1957 / 6) (799 / 2, 1777 / 6)
     = ((4 / 5, 3 / 5), - (5073 / 10), - 10)"
    using edgeGeom_eval[OF l(2), of "799 / 2" "1777 / 6" "- 10"] by simp
  show "edgeGeom (779 / 2, 1957 / 6) (779 / 2, 1717 / 6) (799 / 2, 1777 / 6)
     = ((- 1, 0), 779 / 2, - 10)"
    using edgeGeom_eval[OF l(3), of "799 / 2" "1777 / 6" "- 10"] by simp
qed

lemma example_edgeLoop:
  "edgeLoop [(779 / 2, 1717 / 6), (839 / 2, 1717 / 6), (779 / 2, 1957 / 6)] (799 / 2, 1777 / 6)
     (1 / 100 / (1 / 2)) (1 / 1)
   = (- (1 / 5), - 10, [(0, - 1), (4 / 5, 3 / 5), (- 1, 0)],
      [1717 / 6 + 1 / 5, - (5073 / 10) + 1 / 5, 779 / 2 + 1 / 5])"
  unfolding edgeLoop_unfold Let_def edgeDist_def edgeNormal_def edgeOffset_def example_edges
  by simp

lemma example_distancePoints:
  "1 \<le> distancePoints [(779 / 2, 1717 / 6), (839 / 2, 1717 / 6), (779 / 2, 1957 / 6)]
          (799 / 2, 1777 / 6)"
  "distancePoints [(779 / 2, 1717 / 6), (839 / 2, 1717 / 6), (779 / 2, 1957 / 6)]
          (799 / 2, 1777 / 6) \<le> 1600"
proof -
  have a: "1 \<le> distance2 (779 / 2, 1717 / 6) (799 / 2, 1777 / 6)"
    "distance2 (779 / 2, 1717 / 6) (799 / 2, 1777 / 6) \<le> 1600"
    by (rule distance2_bounds[where l = 1 and u = 1600]; simp)+
  have b: "1 \<le> distance2 (839 / 2, 1717 / 6) (799 / 2, 1777 / 6)"
    "distance2 (839 / 2, 1717 / 6) (799 / 2, 1777 / 6) \<le> 1600"
    by (rule distance2_bounds[where l = 1 and u = 1600]; simp)+
  have c: "1 \<le> distance2 (779 / 2, 1957 / 6) (799 / 2, 1777 / 6)"
    "distance2 (779 / 2, 1957 / 6) (799 / 2, 1777 / 6) \<le> 1600"
    by (rule distance2_bounds[where l = 1 and u = 1600]; simp)+
  show "1 \<le> distancePoints [(779 / 2, 1717 / 6), (839 / 2, 1717 / 6), (779 / 2, 1957 / 6)]
          (799 / 2, 1777 / 6)"
    unfolding distancePoints_max using a b c by linarith
  show "distancePoints [(779 / 2, 1717 / 6), (839 / 2, 1717 / 6), (779 / 2, 1957 / 6)]
          (799 / 2, 1777 / 6) \<le> 1600"
    unfolding distancePoints_max using a b c by linarith
qed

lemma example_vertex_main: "vertex_main example_vertex = Some example_varyings"
proof -
  have sel: "aTriangleMinWeight_in example_vertex = 1 / 2"
    "aTriangleV0_in example_vertex = (- 10, - (40 / 3), - 1)"
    "aTriangleV1_in example_vertex = (20, - (40 / 3), - 1)"
    "aTriangleV2_in example_vertex = (- 10, 80 / 3, - 1)"
    "modelViewMatrix example_vertex = identity4"
    "projectionMatrix example_vertex = pixel_projection"
    "uResolution example_vertex = (800, 600)"
    "sigma_v example_vertex = 1"
    by (simp_all add: example_vertex_def)
  have cos: "cosTheta identity4 (- 10, - (40 / 3), - 1) (20, - (40 / 3), - 1) (- 10, 80 / 3, - 1)
      = - 1"
    by (rule cosTheta_flat) simp_all
  have p: "projectClip (800, 600) (- 10 / 400, - (40 / 3) / 300, - 1, 1) = (779 / 2, 1717 / 6)"
    "projectClip (800, 600) (20 / 400, - (40 / 3) / 300, - 1, 1) = (839 / 2, 1717 / 6)"
    "projectClip (800, 600) (- 10 / 400, 80 / 3 / 300, - 1, 1) = (779 / 2, 1957 / 6)"
    by (simp_all add: projectPixel_def)
  have per: "1 \<le> perimeterOf (779 / 2, 1717 / 6) (839 / 2, 1717 / 6) (779 / 2, 1957 / 6)"
    by (simp add: perimeterOf_def example_sides)
  have "vertex_main example_vertex =
     Some \<lparr> vScreenPos0 = (779 / 2, 1717 / 6), vScreenPos1 = (839 / 2, 1717 / 6),
            vScreenPos2 = (779 / 2, 1957 / 6),
            vTriangleMinWeight = aTriangleMinWeight_in example_vertex,
            vPhiCenterScale = 1 / (if (- 10 :: real) \<ge> 0 then - (1 / 10 ^ 4) else - 10),
            vNormal0 = [(0, - 1), (4 / 5, 3 / 5), (- 1, 0)] ! 0,
            vNormal1 = [(0, - 1), (4 / 5, 3 / 5), (- 1, 0)] ! 1,
            vNormal2 = [(0, - 1), (4 / 5, 3 / 5), (- 1, 0)] ! 2,
            vOffset0 = [1717 / 6 + 1 / 5, - (5073 / 10) + 1 / 5, 779 / 2 + 1 / 5] ! 0,
            vOffset1 = [1717 / 6 + 1 / 5, - (5073 / 10) + 1 / 5, 779 / 2 + 1 / 5] ! 1,
            vOffset2 = [1717 / 6 + 1 / 5, - (5073 / 10) + 1 / 5, 779 / 2 + 1 / 5] ! 2 \<rparr>"
  proof (rule vertex_main_eval)
    show "1 / 100 \<le> aTriangleMinWeight_in example_vertex" unfolding sel by simp
    show "1 / 1000 \<le> \<bar>cosTheta (modelViewMatrix example_vertex) (aTriangleV0_in example_vertex)
        (aTriangleV1_in example_vertex) (aTriangleV2_in example_vertex)\<bar>"
      unfolding sel cos by simp
    show "mulMat4Vec4 (mulMat4 (projectionMatrix example_vertex) (modelViewMatrix example_vertex))
        (point4 (aTriangleV0_in example_vertex)) = (- 10 / 400, - (40 / 3) / 300, - 1, 1)"
      unfolding sel by (rule example_clip)
    show "mulMat4Vec4 (mulMat4 (projectionMatrix example_vertex) (modelViewMatrix example_vertex))
        (point4 (aTriangleV1_in example_vertex)) = (20 / 400, - (40 / 3) / 300, - 1, 1)"
      unfolding sel by (rule example_clip)
    show "mulMat4Vec4 (mulMat4 (projectionMatrix example_vertex) (modelViewMatrix example_vertex))
        (point4 (aTriangleV2_in example_vertex)) = (- 10 / 400, 80 / 3 / 300, - 1, 1)"
      unfolding sel by (rule example_clip)
    show "0 < wOf (- 10 / 400 :: real, - (40 / 3) / 300 :: real, - 1 :: real, 1 :: real)" by simp
    show "projectClip (uResolution example_vertex) (- 10 / 400, - (40 / 3) / 300, - 1, 1)
        = (779 / 2, 1717 / 6)" unfolding sel by (rule p)
    show "projectClip (uResolution example_vertex) (20 / 400, - (40 / 3) / 300, - 1, 1)
        = (839 / 2, 1717 / 6)" unfolding sel by (rule p)
    show "projectClip (uResolution example_vertex) (- 10 / 400, 80 / 3 / 300, - 1, 1)
        = (779 / 2, 1957 / 6)" unfolding sel by (rule p)
    show "1 \<le> perimeterOf (779 / 2, 1717 / 6) (839 / 2, 1717 / 6) (779 / 2, 1957 / 6)"
      by (rule per)
    show "1 \<le> distancePoints [(779 / 2, 1717 / 6), (839 / 2, 1717 / 6), (779 / 2, 1957 / 6)]
        (incenterOf (779 / 2, 1717 / 6) (839 / 2, 1717 / 6) (779 / 2, 1957 / 6))"
      unfolding example_incenter by (rule example_distancePoints)
    show "distancePoints [(779 / 2, 1717 / 6), (839 / 2, 1717 / 6), (779 / 2, 1957 / 6)]
        (incenterOf (779 / 2, 1717 / 6) (839 / 2, 1717 / 6) (779 / 2, 1957 / 6)) \<le> 1600"
      unfolding example_incenter by (rule example_distancePoints)
    show "edgeLoop [(779 / 2, 1717 / 6), (839 / 2, 1717 / 6), (779 / 2, 1957 / 6)]
        (incenterOf (779 / 2, 1717 / 6) (839 / 2, 1717 / 6) (779 / 2, 1957 / 6))
        (1 / 100 / aTriangleMinWeight_in example_vertex) (1 / sigma_v example_vertex)
      = (- (1 / 5), - 10, [(0, - 1), (4 / 5, 3 / 5), (- 1, 0)],
         [1717 / 6 + 1 / 5, - (5073 / 10) + 1 / 5, 779 / 2 + 1 / 5])"
      unfolding example_incenter sel by (rule example_edgeLoop)
  qed
  then show ?thesis
    unfolding sel example_varyings_def by simp
qed

lemma thin_sides:
  "distance2 (799 / 2 + 1599999999 / 800000000, 599 / 2 - 1 / 30000) (799 / 2, 599 / 2 + 2 / 30000)
     = 1600000001 / 800000000"
  "distance2 (799 / 2, 599 / 2 + 2 / 30000) (799 / 2 - 1599999999 / 800000000, 599 / 2 - 1 / 30000)
     = 1600000001 / 800000000"
  "distance2 (799 / 2 - 1599999999 / 800000000, 599 / 2 - 1 / 30000)
     (799 / 2 + 1599999999 / 800000000, 599 / 2 - 1 / 30000) = 1599999999 / 400000000"
  by (rule distance2_eqI; simp)+

lemma thin_incenter:
  "incenterOf (799 / 2 - 1599999999 / 800000000, 599 / 2 - 1 / 30000)
     (799 / 2 + 1599999999 / 800000000, 599 / 2 - 1 / 30000) (799 / 2, 599 / 2 + 2 / 30000)
   = (799 / 2, 599 / 2 + 1599999997 / 96000000000000)"
  unfolding incenterOf_def Let_def thin_sides by simp

lemma thin_edges:
  "edgeGeom (799 / 2 - 1599999999 / 800000000, 599 / 2 - 1 / 30000)
     (799 / 2 + 1599999999 / 800000000, 599 / 2 - 1 / 30000)
     (799 / 2, 599 / 2 + 1599999997 / 96000000000000)
   = ((0, - 1), 599 / 2 - 1 / 30000, - (1599999999 / 32000000000000))"
  "edgeGeom (799 / 2 + 1599999999 / 800000000, 599 / 2 - 1 / 30000) (799 / 2, 599 / 2 + 2 / 30000)
     (799 / 2, 599 / 2 + 1599999997 / 96000000000000)
   = ((80000 / 1600000001, 1599999999 / 1600000001),
      - (80000 / 1600000001 * (799 / 2 + 1599999999 / 800000000)
         + 1599999999 / 1600000001 * (599 / 2 - 1 / 30000)),
      - (1599999999 / 32000000000000))"
  "edgeGeom (799 / 2, 599 / 2 + 2 / 30000) (799 / 2 - 1599999999 / 800000000, 599 / 2 - 1 / 30000)
     (799 / 2, 599 / 2 + 1599999997 / 96000000000000)
   = ((- (80000 / 1600000001), 1599999999 / 1600000001),
      - (- (80000 / 1600000001) * (799 / 2)
         + 1599999999 / 1600000001 * (599 / 2 + 2 / 30000)),
      - (1599999999 / 32000000000000))"
proof -
  have l: "length2 (599 / 2 - 1 / 30000 - (599 / 2 - 1 / 30000),
             - (799 / 2 + 1599999999 / 800000000 - (799 / 2 - 1599999999 / 800000000)))
           = 1599999999 / 400000000"
    "length2 (599 / 2 + 2 / 30000 - (599 / 2 - 1 / 30000),
             - (799 / 2 - (799 / 2 + 1599999999 / 800000000)))
           = 1600000001 / 800000000"
    "length2 (599 / 2 - 1 / 30000 - (599 / 2 + 2 / 30000),
             - (799 / 2 - 1599999999 / 800000000 - 799 / 2))
           = 1600000001 / 800000000"
    by (rule length2_eqI; simp)+
  show "edgeGeom (799 / 2 - 1599999999 / 800000000, 599 / 2 - 1 / 30000)
     (799 / 2 + 1599999999 / 800000000, 599 / 2 - 1 / 30000)
     (799 / 2, 599 / 2 + 1599999997 / 96000000000000)
   = ((0, - 1), 599 / 2 - 1 / 30000, - (1599999999 / 32000000000000))"
    using edgeGeom_eval[OF l(1), of "799 / 2" "599 / 2 + 1599999997 / 96000000000000"
        "- (1599999999 / 32000000000000)"] by simp
  show "edgeGeom (799 / 2 + 1599999999 / 800000000, 599 / 2 - 1 / 30000) (799 / 2, 599 / 2 + 2 / 30000)
     (799 / 2, 599 / 2 + 1599999997 / 96000000000000)
   = ((80000 / 1600000001, 1599999999 / 1600000001),
      - (80000 / 1600000001 * (799 / 2 + 1599999999 / 800000000)
         + 1599999999 / 1600000001 * (599 / 2 - 1 / 30000)),
      - (1599999999 / 32000000000000))"
    using edgeGeom_eval[OF l(2), of "799 / 2" "599 / 2 + 1599999997 / 96000000000000"
        "- (1599999999 / 32000000000000)"] by simp
  show "edgeGeom (799 / 2, 599 / 2 + 2 / 30000) (799 / 2 - 1599999999 / 800000000, 599 / 2 - 1 / 30000)
     (799 / 2, 599 / 2 + 1599999997 / 96000000000000)
   = ((- (80000 / 1600000001), 1599999999 / 1600000001),
      - (- (80000 / 1600000001) * (799 / 2)
         + 1599999999 / 1600000001 * (599 / 2 + 2 / 30000)),
      - (1599999999 / 32000000000000))"
    using edgeGeom_eval[OF l(3), of "799 / 2" "599 / 2 + 1599999997 / 96000000000000"
        "- (1599999999 / 32000000000000)"] by simp
qed

lemma thin_edgeLoop:
  "edgeLoop [(799 / 2 - 1599999999 / 800000000, 599 / 2 - 1 / 30000),
             (799 / 2 + 1599999999 / 800000000, 599 / 2 - 1 / 30000),
             (799 / 2, 599 / 2 + 2 / 30000)]
     (799 / 2, 599 / 2 + 1599999997 / 96000000000000) (1 / 100 / (1 / 2)) (1 / 1)
   = (- (1599999999 / 1600000000000000), - (1599999999 / 32000000000000),
      [(0, - 1), (80000 / 1600000001, 1599999999 / 1600000001),
       (- (80000 / 1600000001), 1599999999 / 1600000001)],
      [599 / 2 - 1 / 30000 + 1599999999 / 1600000000000000,
       - (80000 / 1600000001 * (799 / 2 + 1599999999 / 800000000)
          + 1599999999 / 1600000001 * (599 / 2 - 1 / 30000))
       + 1599999999 / 1600000000000000,
       - (- (80000 / 1600000001) * (799 / 2)
          + 1599999999 / 1600000001 * (599 / 2 + 2 / 30000))
       + 1599999999 / 1600000000000000])"
  unfolding edgeLoop_unfold Let_def edgeDist_def edgeNormal_def edgeOffset_def thin_edges
  by simp

lemma thin_distancePoints:
  "1 \<le> distancePoints [(799 / 2 - 1599999999 / 800000000, 599 / 2 - 1 / 30000),
             (799 / 2 + 1599999999 / 800000000, 599 / 2 - 1 / 30000),
             (799 / 2, 599 / 2 + 2 / 30000)]
          (799 / 2, 599 / 2 + 1599999997 / 96000000000000)"
  "distancePoints [(799 / 2 - 1599999999 / 800000000, 599 / 2 - 1 / 30000),
             (799 / 2 + 1599999999 / 800000000, 599 / 2 - 1 / 30000),
             (799 / 2, 599 / 2 + 2 / 30000)]
          (799 / 2, 599 / 2 + 1599999997 / 96000000000000) \<le> 1600"
proof -
  have a: "1 \<le> distance2 (799 / 2 - 1599999999 / 800000000, 599 / 2 - 1 / 30000)
                  (799 / 2, 599 / 2 + 1599999997 / 96000000000000)"
    "distance2 (799 / 2 - 1599999999 / 800000000, 599 / 2 - 1 / 30000)
                  (799 / 2, 599 / 2 + 1599999997 / 96000000000000) \<le> 1600"
    by (rule distance2_bounds[where l = 1 and u = 1600]; simp)+
  have b: "1 \<le> distance2 (799 / 2 + 1599999999 / 800000000, 599 / 2 - 1 / 30000)
                  (799 / 2, 599 / 2 + 1599999997 / 96000000000000)"
    "distance2 (799 / 2 + 1599999999 / 800000000, 599 / 2 - 1 / 30000)
                  (799 / 2, 599 / 2 + 1599999997 / 96000000000000) \<le> 1600"
    by (rule distance2_bounds[where l = 1 and u = 1600]; simp)+
  have c: "distance2 (799 / 2, 599 / 2 + 2 / 30000)
                  (799 / 2, 599 / 2 + 1599999997 / 96000000000000) \<le> 1600"
    by (rule distance2_bounds[where l = 0 and u = 1600]; simp)
  show "1 \<le> distancePoints [(799 / 2 - 1599999999 / 800000000, 599 / 2 - 1 / 30000),
             (799 / 2 + 1599999999 / 800000000, 599 / 2 - 1 / 30000),
             (799 / 2, 599 / 2 + 2 / 30000)]
          (799 / 2, 599 / 2 + 1599999997 / 96000000000000)"
    unfolding distancePoints_max using a b c by linarith
  show "distancePoints [(799 / 2 - 1599999999 / 800000000, 599 / 2 - 1 / 30000),
             (799 / 2 + 1599999999 / 800000000, 599 / 2 - 1 / 30000),
             (799 / 2, 599 / 2 + 2 / 30000)]
          (799 / 2, 599 / 2 + 1599999997 / 96000000000000) \<le> 1600"
    unfolding distancePoints_max using a b c by linarith
qed

lemma thin_vertex_main: "vertex_main thin_vertex = Some thin_varyings"
proof -
  have sel: "aTriangleMinWeight_in thin_vertex = 1 / 2"
    "aTriangleV0_in thin_vertex = (- (1599999999 / 800000000), - (1 / 30000), - 1)"
    "aTriangleV1_in thin_vertex = (1599999999 / 800000000, - (1 / 30000), - 1)"
    "aTriangleV2_in thin_vertex = (0, 2 / 30000, - 1)"
    "modelViewMatrix thin_vertex = identity4"
    "projectionMatrix thin_vertex = pixel_projection"
    "uResolution thin_vertex = (800, 600)"
    "sigma_v thin_vertex = 1"
    by (simp_all add: thin_vertex_def)
  have cos: "cosTheta identity4 (- (1599999999 / 800000000), - (1 / 30000), - 1)
      (1599999999 / 800000000, - (1 / 30000), - 1) (0, 2 / 30000, - 1) = - 1"
    by (rule cosTheta_flat) simp_all
  have p: "projectClip (800, 600) (- (1599999999 / 800000000) / 400, - (1 / 30000) / 300, - 1, 1)
      = (799 / 2 - 1599999999 / 800000000, 599 / 2 - 1 / 30000)"
    "projectClip (800, 600) (1599999999 / 800000000 / 400, - (1 / 30000) / 300, - 1, 1)
      = (799 / 2 + 1599999999 / 800000000, 599 / 2 - 1 / 30000)"
    "projectClip (800, 600) (0 / 400, 2 / 30000 / 300, - 1, 1) = (799 / 2, 599 / 2 + 2 / 30000)"
    by (simp_all add: projectPixel_def)
  have per: "1 \<le> perimeterOf (799 / 2 - 1599999999 / 800000000, 599 / 2 - 1 / 30000)
      (799 / 2 + 1599999999 / 800000000, 599 / 2 - 1 / 30000) (799 / 2, 599 / 2 + 2 / 30000)"
    unfolding perimeterOf_def thin_sides by simp
  have "vertex_main thin_vertex =
     Some \<lparr> vScreenPos0 = (799 / 2 - 1599999999 / 800000000, 599 / 2 - 1 / 30000),
            vScreenPos1 = (799 / 2 + 1599999999 / 800000000, 599 / 2 - 1 / 30000),
            vScreenPos2 = (799 / 2, 599 / 2 + 2 / 30000),
            vTriangleMinWeight = aTriangleMinWeight_in thin_vertex,
            vPhiCenterScale = 1 / (if (- (1599999999 / 32000000000000) :: real) \<ge> 0
                                    then - (1 / 10 ^ 4) else - (1599999999 / 32000000000000)),
            vNormal0 = [(0, - 1), (80000 / 1600000001, 1599999999 / 1600000001),
                        (- (80000 / 1600000001), 1599999999 / 1600000001)] ! 0,
            vNormal1 = [(0, - 1), (80000 / 1600000001, 1599999999 / 1600000001),
                        (- (80000 / 1600000001), 1599999999 / 1600000001)] ! 1,
            vNormal2 = [(0, - 1), (80000 / 1600000001, 1599999999 / 1600000001),
                        (- (80000 / 1600000001), 1599999999 / 1600000001)] ! 2,
            vOffset0 = [599 / 2 - 1 / 30000 + 1599999999 / 1600000000000000,
       - (80000 / 1600000001 * (799 / 2 + 1599999999 / 800000000)
          + 1599999999 / 1600000001 * (599 / 2 - 1 / 30000))
       + 1599999999 / 1600000000000000,
       - (- (80000 / 1600000001) * (799 / 2)
          + 1599999999 / 1600000001 * (599 / 2 + 2 / 30000))
       + 1599999999 / 1600000000000000] ! 0,
            vOffset1 = [599 / 2 - 1 / 30000 + 1599999999 / 1600000000000000,
       - (80000 / 1600000001 * (799 / 2 + 1599999999 / 800000000)
          + 1599999999 / 1600000001 * (599 / 2 - 1 / 30000))
       + 1599999999 / 1600000000000000,
       - (- (80000 / 1600000001) * (799 / 2)
          + 1599999999 / 1600000001 * (599 / 2 + 2 / 30000))
       + 1599999999 / 1600000000000000] ! 1,
            vOffset2 = [599 / 2 - 1 / 30000 + 1599999999 / 1600000000000000,
       - (80000 / 1600000001 * (799 / 2 + 1599999999 / 800000000)
          + 1599999999 / 1600000001 * (599 / 2 - 1 / 30000))
       + 1599999999 / 1600000000000000,
       - (- (80000 / 1600000001) * (799 / 2)
          + 1599999999 / 1600000001 * (599 / 2 + 2 / 30000))
       + 1599999999 / 1600000000000000] ! 2 \<rparr>"
  proof (rule vertex_main_eval)
    show "1 / 100 \<le> aTriangleMinWeight_in thin_vertex" unfolding sel by simp
    show "1 / 1000 \<le> \<bar>cosTheta (modelViewMatrix thin_vertex) (aTriangleV0_in thin_vertex)
        (aTriangleV1_in thin_vertex) (aTriangleV2_in thin_vertex)\<bar>"
      unfolding sel cos by simp
    show "mulMat4Vec4 (mulMat4 (projectionMatrix thin_vertex) (modelViewMatrix thin_vertex))
        (point4 (aTriangleV0_in thin_vertex))
      = (- (1599999999 / 800000000) / 400, - (1 / 30000) / 300, - 1, 1)"
      unfolding sel by (rule example_clip)
    show "mulMat4Vec4 (mulMat4 (projectionMatrix thin_vertex) (modelViewMatrix thin_vertex))
        (point4 (aTriangleV1_in thin_vertex))
      = (1599999999 / 800000000 / 400, - (1 / 30000) / 300, - 1, 1)"
      unfolding sel by (rule example_clip)
    show "mulMat4Vec4 (mulMat4 (projectionMatrix thin_vertex) (modelViewMatrix thin_vertex))
        (point4 (aTriangleV2_in thin_vertex)) = (0 / 400, 2 / 30000 / 300, - 1, 1)"
      unfolding sel by (rule example_clip)
    show "0 < wOf (- (1599999999 / 800000000) / 400 :: real, - (1 / 30000) / 300 :: real,
        - 1 :: real, 1 :: real)" by simp
    show "projectClip (uResolution thin_vertex)
        (- (1599999999 / 800000000) / 400, - (1 / 30000) / 300, - 1, 1)
        = (799 / 2 - 1599999999 / 800000000, 599 / 2 - 1 / 30000)" unfolding sel by (rule p)
    show "projectClip (uResolution thin_vertex)
        (1599999999 / 800000000 / 400, - (1 / 30000) / 300, - 1, 1)
        = (799 / 2 + 1599999999 / 800000000, 599 / 2 - 1 / 30000)" unfolding sel by (rule p)
    show "projectClip (uResolution thin_vertex) (0 / 400, 2 / 30000 / 300, - 1, 1)
        = (799 / 2, 599 / 2 + 2 / 30000)" unfolding sel by (rule p)
    show "1 \<le> perimeterOf (799 / 2 - 1599999999 / 800000000, 599 / 2 - 1 / 30000)
      (799 / 2 + 1599999999 / 800000000, 599 / 2 - 1 / 30000) (799 / 2, 599 / 2 + 2 / 30000)"
      by (rule per)
    show "1 \<le> distancePoints [(799 / 2 - 1599999999 / 800000000, 599 / 2 - 1 / 30000),
             (799 / 2 + 1599999999 / 800000000, 599 / 2 - 1 / 30000),
             (799 / 2, 599 / 2 + 2 / 30000)]
        (incenterOf (799 / 2 - 1599999999 / 800000000, 599 / 2 - 1 / 30000)
           (799 / 2 + 1599999999 / 800000000, 599 / 2 - 1 / 30000) (799 / 2, 599 / 2 + 2 / 30000))"
      unfolding thin_incenter by (rule thin_distancePoints)
    show "distancePoints [(799 / 2 - 1599999999 / 800000000, 599 / 2 - 1 / 30000),
             (799 / 2 + 1599999999 / 800000000, 599 / 2 - 1 / 30000),
             (799 / 2, 599 / 2 + 2 / 30000)]
        (incenterOf (799 / 2 - 1599999999 / 800000000, 599 / 2 - 1 / 30000)
           (799 / 2 + 1599999999 / 800000000, 599 / 2 - 1 / 30000) (799 / 2, 599 / 2 + 2 / 30000))
        \<le> 1600"
      unfolding thin_incenter by (rule thin_distancePoints)
    show "edgeLoop [(799 / 2 - 1599999999 / 800000000, 599 / 2 - 1 / 30000),
             (799 / 2 + 1599999999 / 800000000, 599 / 2 - 1 / 30000),
             (799 / 2, 599 / 2 + 2 / 30000)]
        (incenterOf (799 / 2 - 1599999999 / 800000000, 599 / 2 - 1 / 30000)
           (799 / 2 + 1599999999 / 800000000, 599 / 2 - 1 / 30000) (799 / 2, 599 / 2 + 2 / 30000))
        (1 / 100 / aTriangleMinWeight_in thin_vertex) (1 / sigma_v thin_vertex)
      = (- (1599999999 / 1600000000000000), - (1599999999 / 32000000000000),
      [(0, - 1), (80000 / 1600000001, 1599999999 / 1600000001),
       (- (80000 / 1600000001), 1599999999 / 1600000001)],
      [599 / 2 - 1 / 30000 + 1599999999 / 1600000000000000,
       - (80000 / 1600000001 * (799 / 2 + 1599999999 / 800000000)
          + 1599999999 / 1600000001 * (599 / 2 - 1 / 30000))
       + 1599999999 / 1600000000000000,
       - (- (80000 / 1600000001) * (799 / 2)
          + 1599999999 / 1600000001 * (599 / 2 + 2 / 30000))
       + 1599999999 / 1600000000000000])"
      unfolding thin_incenter sel by (rule thin_edgeLoop)
  qed
  then show ?thesis
    unfolding sel thin_varyings_def by simp
qed

lemma example_edge_values:
  "edgeDist (779 / 2, 1717 / 6) (839 / 2, 1717 / 6) (799 / 2, 1777 / 6) = - 10"
  "edgeOffset (779 / 2, 1717 / 6) (839 / 2, 1717 / 6) (799 / 2, 1777 / 6) = 1717 / 6"
  "edgeOffset (839 / 2, 1717 / 6) (779 / 2, 1957 / 6) (799 / 2, 1777 / 6) = - (5073 / 10)"
  "edgeOffset (779 / 2, 1957 / 6) (779 / 2, 1717 / 6) (799 / 2, 1777 / 6) = 779 / 2"
  unfolding edgeDist_def edgeOffset_def example_edges by simp_all

lemma thin_d_last: "d_last thin_varyings = - (1599999999 / 32000000000000)"
proof -
  have s: "vScreenPos0 thin_varyings = (799 / 2 - 1599999999 / 800000000, 599 / 2 - 1 / 30000)"
    "vScreenPos1 thin_varyings = (799 / 2 + 1599999999 / 800000000, 599 / 2 - 1 / 30000)"
    "vScreenPos2 thin_varyings = (799 / 2, 599 / 2 + 2 / 30000)"
    by (simp_all add: thin_varyings_def)
  show ?thesis
    unfolding d_last_def s thin_incenter edgeDist_def thin_edges by simp
qed

text \<open>
  Over the reals the recomputation of the shrink amount cannot be seen. For a triangle
  that survives the culling sequence, with \<open>p_k\<close> its projected vertices, \<open>I\<close> their
  exact incentre, and \<open>(n_k, o_k, d_k)\<close> the oriented normal, offset and incentre
  distance of the edge from \<open>p_k\<close> to \<open>p_(k+1)\<close>: the three offsets are \<open>o_k - s\<close>
  for the one amount \<open>s = d_0 * (0.01 / m) ^ (1 / sigma)\<close> of the first edge, and the
  three normals are the \<open>n_k\<close>. When \<open>d_0\<close> is zero the loop computes the amount
  again for the next edge; with the exact incentre the projected triangle is then
  degenerate, the other distances are zero too, and the amount is again \<open>0\<close>.
\<close>

lemma shrink_amounts_equal_exact_incentre:
  assumes "vertex_main a = Some out"
  shows "(let p0 = vScreenPos0 out; p1 = vScreenPos1 out; p2 = vScreenPos2 out;
              I = incenterOf p0 p1 p2;
              s = edgeDist p0 p1 I * (1 / 100 / vTriangleMinWeight out) powr (1 / sigma_v a)
          in vOffset0 out = edgeOffset p0 p1 I - s
             \<and> vOffset1 out = edgeOffset p1 p2 I - s
             \<and> vOffset2 out = edgeOffset p2 p0 I - s
             \<and> vNormal0 out = edgeNormal p0 p1 I
             \<and> vNormal1 out = edgeNormal p1 p2 I
             \<and> vNormal2 out = edgeNormal p2 p0 I)"
proof -
  define p0 where "p0 = vScreenPos0 out"
  define p1 where "p1 = vScreenPos1 out"
  define p2 where "p2 = vScreenPos2 out"
  define I where "I = incenterOf p0 p1 p2"
  define m where "m = aTriangleMinWeight_in a"
  define pw where "pw = (1 / 100 / m) powr (1 / sigma_v a)"
  define s0 where "s0 = edgeDist p0 p1 I * pw"
  define s1 where "s1 = (if s0 = 0 then edgeDist p1 p2 I * pw else s0)"
  define s2 where "s2 = (if s1 = 0 then edgeDist p2 p0 I * pw else s1)"
  note d = vertex_main_SomeD[OF assms, folded p0_def p1_def p2_def, folded I_def m_def]
  have m0: "0 < m" using d(1) by simp
  then have "0 < 1 / 100 / m" by simp
  then have pw0: "0 < pw" unfolding pw_def by simp
  have per: "perimeterOf p0 p1 p2 \<noteq> 0" using d(2) by simp
  have eq: "s1 = s0" "s2 = s0"
    using shrink_sizes_equal[OF per pw0] unfolding s1_def s2_def s0_def I_def by simp_all
  have el: "edgeLoop [p0, p1, p2] I (1 / 100 / m) (1 / sigma_v a) =
      (s2, edgeDist p2 p0 I,
       [edgeNormal p0 p1 I, edgeNormal p1 p2 I, edgeNormal p2 p0 I],
       [edgeOffset p0 p1 I - s0, edgeOffset p1 p2 I - s1, edgeOffset p2 p0 I - s2])"
    unfolding edgeLoop_unfold Let_def pw_def[symmetric] s0_def[symmetric] s1_def[symmetric]
      s2_def[symmetric] ..
  have "vOffset0 out = edgeOffset p0 p1 I - s0 \<and> vOffset1 out = edgeOffset p1 p2 I - s0
      \<and> vOffset2 out = edgeOffset p2 p0 I - s0
      \<and> vNormal0 out = edgeNormal p0 p1 I \<and> vNormal1 out = edgeNormal p1 p2 I
      \<and> vNormal2 out = edgeNormal p2 p0 I"
    using d(5,6) unfolding el using eq by simp
  then show ?thesis
    unfolding Let_def p0_def[symmetric] p1_def[symmetric] p2_def[symmetric] I_def[symmetric]
      d(3) m_def[symmetric] pw_def[symmetric] s0_def[symmetric] .
qed

lemma shrink_amounts_equal_example:
  "vertex_main example_vertex = Some example_varyings
   \<and> edgeDist (779 / 2, 1717 / 6) (839 / 2, 1717 / 6) (799 / 2, 1777 / 6) = - 10
   \<and> vOffset0 example_varyings = 1717 / 6 - (- 10) * (1 / 50)
   \<and> vOffset1 example_varyings = - (5073 / 10) - (- 10) * (1 / 50)
   \<and> vOffset2 example_varyings = 779 / 2 - (- 10) * (1 / 50)"
proof -
  have s: "vScreenPos0 example_varyings = (779 / 2, 1717 / 6)"
    "vScreenPos1 example_varyings = (839 / 2, 1717 / 6)"
    "vScreenPos2 example_varyings = (779 / 2, 1957 / 6)"
    "vTriangleMinWeight example_varyings = 1 / 2"
    "sigma_v example_vertex = 1"
    by (simp_all add: example_varyings_def example_vertex_def)
  have pw: "(1 / 100 / (1 / 2)) powr (1 / 1) = (1 / 50 :: real)"
    by simp
  have "vOffset0 example_varyings = 1717 / 6 - (- 10) * (1 / 50)
      \<and> vOffset1 example_varyings = - (5073 / 10) - (- 10) * (1 / 50)
      \<and> vOffset2 example_varyings = 779 / 2 - (- 10) * (1 / 50)"
    using shrink_amounts_equal_exact_incentre[OF example_vertex_main]
    unfolding Let_def s example_incenter example_edge_values pw by blast
  then show ?thesis
    using example_vertex_main example_edge_values(1) by blast
qed

text \<open>
  C5, as the code has it. For a triangle that survives the culling sequence, with
  \<open>d_last\<close> the incentre distance of the third edge after orientation:
  \<open>d_last \<le> 0\<close>, and the scale passed to the fragment stage is \<open>1 / d_last\<close> when
  \<open>d_last\<close> is negative and \<open>-10000\<close> when it is zero: the replacement by \<open>-10^-4\<close>
  guards the division by zero only. The scale is the \<open>1 / min(d_last, -10^-4)\<close> of the
  specification exactly when \<open>d_last \<le> -10^-4\<close> or \<open>d_last = 0\<close>; for
  \<open>-10^-4 < d_last < 0\<close> it is \<open>1 / d_last\<close>, which is below \<open>-10000\<close>.
\<close>

theorem phi_scale_guard:
  assumes "vertex_main a = Some out"
  shows "d_last out \<le> 0
     \<and> vPhiCenterScale out = (if d_last out < 0 then 1 / d_last out else - 10000)
     \<and> (vPhiCenterScale out = phi_scale_spec out
          \<longleftrightarrow> d_last out \<le> - (1 / 10 ^ 4) \<or> d_last out = 0)
     \<and> (- (1 / 10 ^ 4) < d_last out \<and> d_last out < 0 \<longrightarrow> vPhiCenterScale out < - 10000)"
proof -
  define p0 where "p0 = vScreenPos0 out"
  define p1 where "p1 = vScreenPos1 out"
  define p2 where "p2 = vScreenPos2 out"
  define I where "I = incenterOf p0 p1 p2"
  define dl where "dl = d_last out"
  have dl: "dl = edgeDist p2 p0 I"
    unfolding dl_def d_last_def p0_def p1_def p2_def I_def ..
  note d = vertex_main_SomeD[OF assms, folded p0_def p1_def p2_def, folded I_def]
  have ld: "fst (snd (edgeLoop [p0, p1, p2] I (1 / 100 / aTriangleMinWeight_in a)
      (1 / sigma_v a))) = dl"
    unfolding edgeLoop_unfold Let_def dl by simp
  have le: "dl \<le> 0" unfolding dl by (rule edgeDist_nonpos)
  have phi: "vPhiCenterScale out = (if dl < 0 then 1 / dl else - 10000)"
    using d(4) le unfolding ld by auto
  have small: "vPhiCenterScale out < - 10000" if h: "- (1 / 10 ^ 4) < dl \<and> dl < 0"
  proof -
    have e: "vPhiCenterScale out = 1 / dl" using phi h by simp
    have "0 < - dl" "- dl < 1 / 10 ^ 4" using h by simp_all
    then have "1 / (1 / 10 ^ 4) < 1 / (- dl)"
      by (intro divide_strict_left_mono) simp_all
    then have "1 / dl < - 10000" by simp
    then show ?thesis using e by simp
  qed
  have spec: "phi_scale_spec out = (if dl \<le> - (1 / 10 ^ 4) then 1 / dl else - 10000)"
    unfolding phi_scale_spec_def dl_def[symmetric] by (simp add: min_def)
  have agree: "vPhiCenterScale out = phi_scale_spec out \<longleftrightarrow> dl \<le> - (1 / 10 ^ 4) \<or> dl = 0"
  proof (cases "dl \<le> - (1 / 10 ^ 4)")
    case True
    then have "dl < 0" by simp
    then show ?thesis using True phi spec by simp
  next
    case False
    show ?thesis
    proof (cases "dl = 0")
      case True
      then show ?thesis using phi spec by simp
    next
      case z: False
      then have "- (1 / 10 ^ 4) < dl \<and> dl < 0" using False le by simp
      then have "vPhiCenterScale out < - 10000" by (rule small)
      then show ?thesis using False z spec by simp
    qed
  qed
  show ?thesis
    unfolding dl_def[symmetric] using le phi agree small by blast
qed

theorem phi_scale_guard_witness:
  "vertex_main thin_vertex = Some thin_varyings
   \<and> - (1 / 10 ^ 4) < d_last thin_varyings \<and> d_last thin_varyings < 0
   \<and> vPhiCenterScale thin_varyings < - 10000"
proof -
  have h: "- (1 / 10 ^ 4) < d_last thin_varyings \<and> d_last thin_varyings < 0"
    unfolding thin_d_last by simp
  have "vPhiCenterScale thin_varyings < - 10000"
    using phi_scale_guard[OF thin_vertex_main] h by blast
  then show ?thesis
    using thin_vertex_main h by blast
qed

text \<open>
  C5, as the specification has it, fails: the thin triangle survives the culling sequence
  with \<open>d_last\<close> about \<open>-5 * 10^-5\<close>; the scale the vertex stage passes on is
  \<open>1 / d_last\<close>, about \<open>-20000\<close>, and not the \<open>-10000\<close> of
  \<open>1 / min(d_last, -10^-4)\<close>.
\<close>

theorem phi_scale_not_clamped:
  "vertex_main thin_vertex = Some thin_varyings
   \<and> d_last thin_varyings = - (1599999999 / 32000000000000)
   \<and> vPhiCenterScale thin_varyings = - (32000000000000 / 1599999999)
   \<and> phi_scale_spec thin_varyings = - 10000
   \<and> vPhiCenterScale thin_varyings \<noteq> phi_scale_spec thin_varyings"
proof -
  have v: "vPhiCenterScale thin_varyings = - (32000000000000 / 1599999999)"
    by (simp add: thin_varyings_def)
  have s: "phi_scale_spec thin_varyings = - 10000"
    unfolding phi_scale_spec_def thin_d_last by simp
  have "vPhiCenterScale thin_varyings \<noteq> phi_scale_spec thin_varyings"
    unfolding v s by simp
  then show ?thesis
    using thin_vertex_main thin_d_last v s by blast
qed

lemma round_half_even_eqI:
  "of_int n - 1 / 2 < y \<Longrightarrow> y < of_int n + 1 / 2 \<Longrightarrow> round_half_even y = n"
proof -
  assume a: "of_int n - 1 / 2 < y" and b: "y < of_int n + 1 / 2"
  have "\<lfloor>y\<rfloor> = n \<or> \<lfloor>y\<rfloor> = n - 1"
    using a b by linarith
  then show ?thesis
  proof
    assume f: "\<lfloor>y\<rfloor> = n"
    then have "y - of_int \<lfloor>y\<rfloor> < 1 / 2" using b by simp
    then show ?thesis unfolding round_half_even_def Let_def using f by simp
  next
    assume f: "\<lfloor>y\<rfloor> = n - 1"
    then have "1 / 2 < y - of_int \<lfloor>y\<rfloor>" using a by simp
    then show ?thesis unfolding round_half_even_def Let_def using f by simp
  qed
qed

lemma cosTheta_plane:
  assumes D: "1 / 10 ^ 4 < \<bar>(x1 - x0) * (y2 - y0) - (y1 - y0) * (x2 - x0)\<bar>"
  shows "cosTheta identity4 (x0, y0, - 1) (x1, y1, - 1) (x2, y2, - 1)
     = - (1 / sqrt (((x0 + x1 + x2) / 3) * ((x0 + x1 + x2) / 3)
                    + ((y0 + y1 + y2) / 3) * ((y0 + y1 + y2) / 3) + 1))"
proof -
  define E where "E = (x1 - x0) * (y2 - y0) - (y1 - y0) * (x2 - x0)"
  define cx where "cx = (x0 + x1 + x2) / 3"
  define cy where "cy = (y0 + y1 + y2) / 3"
  define L where "L = sqrt (cx * cx + cy * cy + 1)"
  have E0: "E \<noteq> 0" "1 / 10 ^ 4 < \<bar>E\<bar>" using D unfolding E_def by auto
  have "0 < cx * cx + cy * cy + 1"
    by (smt (verit) zero_le_square)
  then have L0: "0 < L" unfolding L_def by simp
  have c: "cross (sub3 (x1, y1, - 1) (x0, y0, - 1)) (sub3 (x2, y2, - 1) (x0, y0, - 1)) = (0, 0, E)"
    by (simp add: E_def algebra_simps)
  have n: "mulMat3Vec3 (mat3Of identity4) (0, 0, E) = (0, 0, E)"
    by (simp add: identity4_def)
  have l: "length3 (0, 0, E) = \<bar>E\<bar>"
    by (simp add: length3_def)
  have cw: "div3 (add3 (add3 (x0, y0, - 1) (x1, y1, - 1)) (x2, y2, - 1)) 3 = (cx, cy, - 1)"
    by (simp add: cx_def cy_def)
  have cv: "xyz (mulMat4Vec4 identity4 (point4 (cx, cy, - 1))) = (cx, cy, - 1)"
    by (simp add: identity4_def)
  have vd: "normalize3 (neg3 (cx, cy, - 1)) = (- cx / L, - cy / L, 1 / L)"
    by (simp add: normalize3_def length3_def L_def)
  have nv: "normalize3 (0, 0, E) = (0, 0, E / \<bar>E\<bar>)"
    by (simp add: normalize3_def l)
  have "cosTheta identity4 (x0, y0, - 1) (x1, y1, - 1) (x2, y2, - 1)
      = (if E / \<bar>E\<bar> * (1 / L) > 0 then - (E / \<bar>E\<bar> * (1 / L)) else E / \<bar>E\<bar> * (1 / L))"
    unfolding cosTheta_def Let_def c n l cw cv vd using E0(2) by (simp add: nv)
  also have "\<dots> = - (1 / L)"
  proof (cases "E > 0")
    case True
    then have "E / \<bar>E\<bar> = 1" by simp
    then show ?thesis using L0 by simp
  next
    case False
    then have "E / \<bar>E\<bar> = - 1" using E0(1) by simp
    then show ?thesis using L0 by simp
  qed
  finally show ?thesis unfolding L_def cx_def cy_def .
qed

lemma flat_sides:
  "distance2 flat_p1 flat_p2 = sqrt (144 + 1 / 2 ^ 34)"
  "distance2 flat_p2 flat_p0 = sqrt (16 + 1 / 2 ^ 34)"
  "distance2 flat_p0 flat_p1 = 16"
proof -
  show "distance2 flat_p1 flat_p2 = sqrt (144 + 1 / 2 ^ 34)"
    by (simp add: distance2_def length2_def flat_p1_def flat_p2_def)
  show "distance2 flat_p2 flat_p0 = sqrt (16 + 1 / 2 ^ 34)"
    by (simp add: distance2_def length2_def flat_p0_def flat_p2_def)
  show "distance2 flat_p0 flat_p1 = 16"
    unfolding flat_p0_def flat_p1_def by (rule distance2_eqI) simp_all
qed

lemma flat_side_bounds:
  "12 < sqrt (144 + 1 / 2 ^ 34)" "sqrt (144 + 1 / 2 ^ 34) \<le> 12 + 1 / 2 ^ 30"
  "4 < sqrt (16 + 1 / 2 ^ 34)" "sqrt (16 + 1 / 2 ^ 34) \<le> 4 + 1 / 2 ^ 30"
proof -
  show "12 < sqrt (144 + 1 / 2 ^ 34)"
    by (rule real_less_rsqrt) simp
  show "sqrt (144 + 1 / 2 ^ 34) \<le> 12 + 1 / 2 ^ 30"
    by (rule real_le_lsqrt) (simp_all add: power2_eq_square)
  show "4 < sqrt (16 + 1 / 2 ^ 34)"
    by (rule real_less_rsqrt) simp
  show "sqrt (16 + 1 / 2 ^ 34) \<le> 4 + 1 / 2 ^ 30"
    by (rule real_le_lsqrt) (simp_all add: power2_eq_square)
qed

lemma flat_incenter_near:
  "\<bar>fst (incenterOf flat_p0 flat_p1 flat_p2) - 121 / 2\<bar> < 1 / 2 ^ 24"
  "64 < snd (incenterOf flat_p0 flat_p1 flat_p2)"
  "snd (incenterOf flat_p0 flat_p1 flat_p2) < 64 + 1 / 2 ^ 18"
proof -
  define a where "a = sqrt (144 + 1 / 2 ^ 34)"
  define b where "b = sqrt (16 + 1 / 2 ^ 34)"
  note bd = flat_side_bounds[folded a_def b_def]
  have P: "32 < a + b + 16" using bd by linarith
  have I: "incenterOf flat_p0 flat_p1 flat_p2 =
      ((a * (113 / 2) + b * (145 / 2) + 16 * (121 / 2)) / (a + b + 16),
       (a * 64 + b * 64 + 16 * (64 + 1 / 2 ^ 17)) / (a + b + 16))"
    unfolding incenterOf_def Let_def flat_sides a_def[symmetric] b_def[symmetric]
    by (simp add: flat_p0_def flat_p1_def flat_p2_def)
  have x: "(a * (113 / 2) + b * (145 / 2) + 16 * (121 / 2)) / (a + b + 16) - 121 / 2
      = (12 * b - 4 * a) / (a + b + 16)"
    using P by (simp add: field_simps)
  have y: "(a * 64 + b * 64 + 16 * (64 + 1 / 2 ^ 17)) / (a + b + 16) - 64
      = (1 / 2 ^ 13) / (a + b + 16)"
    using P by (simp add: field_simps)
  have "12 * b - 4 * a \<le> 12 / 2 ^ 30" "- (12 / 2 ^ 30) \<le> 12 * b - 4 * a"
    using bd by simp_all
  then have n: "\<bar>12 * b - 4 * a\<bar> \<le> 12 / 2 ^ 30" by linarith
  have "\<bar>(12 * b - 4 * a) / (a + b + 16)\<bar> = \<bar>12 * b - 4 * a\<bar> / (a + b + 16)"
    using P by simp
  also have "\<dots> \<le> (12 / 2 ^ 30) / (a + b + 16)"
    by (rule divide_right_mono[OF n]) (use P in simp)
  also have "\<dots> < (12 / 2 ^ 30) / 32"
    using P by (intro divide_strict_left_mono) simp_all
  also have "\<dots> < 1 / 2 ^ 24" by simp
  finally show "\<bar>fst (incenterOf flat_p0 flat_p1 flat_p2) - 121 / 2\<bar> < 1 / 2 ^ 24"
    unfolding I fst_conv x .
  define t where "t = (1 / 2 ^ 13) / (a + b + 16)"
  have t0: "0 < t" unfolding t_def using P by simp
  have "(1 / 2 ^ 13) / (a + b + 16) < (1 / 2 ^ 13) / 32"
    using P by (intro divide_strict_left_mono) simp_all
  then have t1: "t < 1 / 2 ^ 18" unfolding t_def by simp
  have yt: "(a * 64 + b * 64 + 16 * (64 + 1 / 2 ^ 17)) / (a + b + 16) = 64 + t"
    using y unfolding t_def by linarith
  show "64 < snd (incenterOf flat_p0 flat_p1 flat_p2)"
    unfolding I snd_conv yt using t0 by linarith
  show "snd (incenterOf flat_p0 flat_p1 flat_p2) < 64 + 1 / 2 ^ 18"
    unfolding I snd_conv yt using t1 by linarith
qed

lemma flat_incenter_binary32:
  "Math_fround (Num (fst (incenterOf flat_p0 flat_p1 flat_p2))) = Num (121 / 2)"
  "Math_fround (Num (snd (incenterOf flat_p0 flat_p1 flat_p2))) = Num 64"
proof -
  define x where "x = fst (incenterOf flat_p0 flat_p1 flat_p2)"
  define y where "y = snd (incenterOf flat_p0 flat_p1 flat_p2)"
  note b = flat_incenter_near[folded x_def y_def]
  have xb: "121 / 2 - 1 / 2 ^ 24 < x" "x < 121 / 2 + 1 / 2 ^ 24"
    using b(1) by linarith+
  have px: "(2::real) powr of_int (5 - 23) = 1 / 2 ^ 18"
    by (simp add: powr_neg_numeral)
  have rx: "round_half_even (x / (1 / 2 ^ 18)) = 15859712"
  proof (rule round_half_even_eqI)
    show "of_int 15859712 - 1 / 2 < x / (1 / 2 ^ 18)" using xb by simp
    show "x / (1 / 2 ^ 18) < of_int 15859712 + 1 / 2" using xb by simp
  qed
  have ex: "Math_fround (Num x) =
      Num (2 powr of_int (5 - 23) * of_int (round_half_even (x / 2 powr of_int (5 - 23))))"
  proof (rule Math_fround_eval)
    show "x \<noteq> 0" using xb by simp
    show "2 powr of_int 5 \<le> \<bar>x\<bar>" using xb by simp
    show "\<bar>x\<bar> < 2 powr of_int (5 + 1)" using xb by simp
    show "- 126 \<le> (5::int)" by simp
    show "\<bar>(2::real) powr of_int (5 - 23) * of_int (round_half_even (x / 2 powr of_int (5 - 23)))\<bar>
           < 2 ^ 128"
      unfolding px rx by simp
  qed
  have vx: "(2::real) powr of_int (5 - 23) * of_int (round_half_even (x / 2 powr of_int (5 - 23)))
      = 121 / 2"
    unfolding px rx by simp
  show "Math_fround (Num (fst (incenterOf flat_p0 flat_p1 flat_p2))) = Num (121 / 2)"
    unfolding x_def[symmetric] ex vx ..
  have py: "(2::real) powr of_int (6 - 23) = 1 / 2 ^ 17"
    by (simp add: powr_neg_numeral)
  have ry: "round_half_even (y / (1 / 2 ^ 17)) = 8388608"
  proof (rule round_half_even_eqI)
    show "of_int 8388608 - 1 / 2 < y / (1 / 2 ^ 17)" using b(2) by simp
    show "y / (1 / 2 ^ 17) < of_int 8388608 + 1 / 2" using b(3) by simp
  qed
  have ey: "Math_fround (Num y) =
      Num (2 powr of_int (6 - 23) * of_int (round_half_even (y / 2 powr of_int (6 - 23))))"
  proof (rule Math_fround_eval)
    show "y \<noteq> 0" using b(2) by simp
    show "2 powr of_int 6 \<le> \<bar>y\<bar>" using b(2) by simp
    show "\<bar>y\<bar> < 2 powr of_int (6 + 1)" using b(2,3) by simp
    show "- 126 \<le> (6::int)" by simp
    show "\<bar>(2::real) powr of_int (6 - 23) * of_int (round_half_even (y / 2 powr of_int (6 - 23)))\<bar>
           < 2 ^ 128"
      unfolding py ry by simp
  qed
  have vy: "(2::real) powr of_int (6 - 23) * of_int (round_half_even (y / 2 powr of_int (6 - 23)))
      = 64"
    unfolding py ry by simp
  show "Math_fround (Num (snd (incenterOf flat_p0 flat_p1 flat_p2))) = Num 64"
    unfolding y_def[symmetric] ey vy ..
qed

lemma flat_edges:
  "edgeGeom flat_p0 flat_p1 flat_incenter = ((0, - 1), 64, 0)"
  "edgeGeom flat_p1 flat_p2 flat_incenter
     = ((1 / 2 ^ 17 / sqrt (144 + 1 / 2 ^ 34), 12 / sqrt (144 + 1 / 2 ^ 34)),
        - (1 / 2 ^ 17 / sqrt (144 + 1 / 2 ^ 34) * (145 / 2) + 12 / sqrt (144 + 1 / 2 ^ 34) * 64),
        - (12 / 2 ^ 17) / sqrt (144 + 1 / 2 ^ 34))"
  "edgeGeom flat_p2 flat_p0 flat_incenter
     = ((- (1 / 2 ^ 17) / sqrt (16 + 1 / 2 ^ 34), 4 / sqrt (16 + 1 / 2 ^ 34)),
        - (- (1 / 2 ^ 17) / sqrt (16 + 1 / 2 ^ 34) * (121 / 2)
           + 4 / sqrt (16 + 1 / 2 ^ 34) * (64 + 1 / 2 ^ 17)),
        - (4 / 2 ^ 17) / sqrt (16 + 1 / 2 ^ 34))"
proof -
  define a where "a = sqrt (144 + 1 / 2 ^ 34)"
  define b where "b = sqrt (16 + 1 / 2 ^ 34)"
  note bd = flat_side_bounds[folded a_def b_def]
  have l0: "length2 (64 - 64, - (145 / 2 - 113 / 2)) = 16"
    by (rule length2_eqI) simp_all
  have l1: "length2 (64 + 1 / 2 ^ 17 - 64, - (121 / 2 - 145 / 2)) = a"
    by (simp add: length2_def a_def)
  have l2: "length2 (64 - (64 + 1 / 2 ^ 17), - (113 / 2 - 121 / 2)) = b"
    by (simp add: length2_def b_def)
  have a0: "1 / 10 ^ 4 < a" "0 < a" using bd by simp_all
  have b0: "1 / 10 ^ 4 < b" "0 < b" using bd by simp_all
  show "edgeGeom flat_p0 flat_p1 flat_incenter = ((0, - 1), 64, 0)"
    unfolding flat_p0_def flat_p1_def flat_incenter_def
    using edgeGeom_eval[OF l0, of "121 / 2" 64 0] by simp
  have d1: "((64 + 1 / 2 ^ 17 - 64) * (121 / 2 - 145 / 2) - (121 / 2 - 145 / 2) * (64 - 64)) / a
      = - (12 / 2 ^ 17) / a"
    by simp
  have n1: "- (12 / 2 ^ 17) / a \<le> 0" using a0 by simp
  show "edgeGeom flat_p1 flat_p2 flat_incenter
     = ((1 / 2 ^ 17 / sqrt (144 + 1 / 2 ^ 34), 12 / sqrt (144 + 1 / 2 ^ 34)),
        - (1 / 2 ^ 17 / sqrt (144 + 1 / 2 ^ 34) * (145 / 2) + 12 / sqrt (144 + 1 / 2 ^ 34) * 64),
        - (12 / 2 ^ 17) / sqrt (144 + 1 / 2 ^ 34))"
    unfolding flat_p1_def flat_p2_def flat_incenter_def a_def[symmetric]
    using edgeGeom_eval[OF l1 a0(1) d1 n1] by simp
  have d2: "((64 - (64 + 1 / 2 ^ 17)) * (121 / 2 - 121 / 2) - (113 / 2 - 121 / 2) * (64 - (64 + 1 / 2 ^ 17))) / b
      = - (4 / 2 ^ 17) / b"
    by simp
  have n2: "- (4 / 2 ^ 17) / b \<le> 0" using b0 by simp
  show "edgeGeom flat_p2 flat_p0 flat_incenter
     = ((- (1 / 2 ^ 17) / sqrt (16 + 1 / 2 ^ 34), 4 / sqrt (16 + 1 / 2 ^ 34)),
        - (- (1 / 2 ^ 17) / sqrt (16 + 1 / 2 ^ 34) * (121 / 2)
           + 4 / sqrt (16 + 1 / 2 ^ 34) * (64 + 1 / 2 ^ 17)),
        - (4 / 2 ^ 17) / sqrt (16 + 1 / 2 ^ 34))"
    unfolding flat_p2_def flat_p0_def flat_incenter_def b_def[symmetric]
    using edgeGeom_eval[OF l2 b0(1) d2 n2] by simp
qed

lemma flat_edge_values:
  "edgeDist flat_p0 flat_p1 flat_incenter = 0"
  "edgeDist flat_p1 flat_p2 flat_incenter = - (12 / 2 ^ 17) / sqrt (144 + 1 / 2 ^ 34)"
  "edgeDist flat_p2 flat_p0 flat_incenter = - (4 / 2 ^ 17) / sqrt (16 + 1 / 2 ^ 34)"
  "edgeDist flat_p1 flat_p2 flat_incenter < 0"
proof -
  show "edgeDist flat_p0 flat_p1 flat_incenter = 0"
    unfolding edgeDist_def flat_edges by simp
  show 1: "edgeDist flat_p1 flat_p2 flat_incenter = - (12 / 2 ^ 17) / sqrt (144 + 1 / 2 ^ 34)"
    unfolding edgeDist_def flat_edges by simp
  show "edgeDist flat_p2 flat_p0 flat_incenter = - (4 / 2 ^ 17) / sqrt (16 + 1 / 2 ^ 34)"
    unfolding edgeDist_def flat_edges by simp
  have "0 < sqrt (144 + 1 / 2 ^ 34)" using flat_side_bounds(1) by simp
  then show "edgeDist flat_p1 flat_p2 flat_incenter < 0"
    unfolding 1 by simp
qed

lemma flat_edgeLoop:
  "snd (snd (snd (edgeLoop [flat_p0, flat_p1, flat_p2] flat_incenter (1 / 100 / (1 / 64)) (1 / 1))))
   = [edgeOffset flat_p0 flat_p1 flat_incenter - 0,
      edgeOffset flat_p1 flat_p2 flat_incenter - edgeDist flat_p1 flat_p2 flat_incenter * (16 / 25),
      edgeOffset flat_p2 flat_p0 flat_incenter - edgeDist flat_p1 flat_p2 flat_incenter * (16 / 25)]"
proof -
  have pw: "(1 / 100 / (1 / 64)) powr (1 / 1) = (16 / 25 :: real)" by simp
  have nz: "edgeDist flat_p1 flat_p2 flat_incenter * (16 / 25) \<noteq> 0"
    using flat_edge_values(4) by simp
  show ?thesis
    unfolding edgeLoop_unfold Let_def pw flat_edge_values(1)
    using nz by simp
qed

lemma ortho_clip:
  "mulMat4Vec4 (mulMat4 ortho_128 identity4) (point4 (x, y, z)) = (x / 64, y / 64, - z - 1, 1)"
  by (simp add: ortho_128_def identity4_def)

lemma flat_cos:
  "1 / 1000 \<le> \<bar>cosTheta identity4 (- 7, 1 / 2, - 1) (9, 1 / 2, - 1) (- 3, 1 / 2 + 1 / 2 ^ 17, - 1)\<bar>"
proof -
  define q :: real where "q = ((- 7 + 9 + - 3) / 3) * ((- 7 + 9 + - 3) / 3)
      + ((1 / 2 + 1 / 2 + (1 / 2 + 1 / 2 ^ 17)) / 3) * ((1 / 2 + 1 / 2 + (1 / 2 + 1 / 2 ^ 17)) / 3) + 1"
  have c: "cosTheta identity4 (- 7, 1 / 2, - 1) (9, 1 / 2, - 1) (- 3, 1 / 2 + 1 / 2 ^ 17, - 1)
      = - (1 / sqrt q)"
    unfolding q_def by (rule cosTheta_plane) simp
  have q1: "1 \<le> q" "q \<le> 2 * 2" unfolding q_def by simp_all
  have "sqrt q \<le> sqrt (2 * 2)" using q1(2) by (simp only: real_sqrt_le_iff)
  then have s: "sqrt q \<le> 2" by simp
  have s0: "0 < sqrt q" using q1(1) by simp
  have "1 / 2 \<le> 1 / sqrt q"
    using s s0 by (intro divide_left_mono) simp_all
  then show ?thesis unfolding c using s0 by simp
qed

lemma flat_distancePoints:
  "1 \<le> distancePoints [flat_p0, flat_p1, flat_p2] (incenterOf flat_p0 flat_p1 flat_p2)"
  "distancePoints [flat_p0, flat_p1, flat_p2] (incenterOf flat_p0 flat_p1 flat_p2) \<le> 1600"
proof -
  obtain x y where I: "incenterOf flat_p0 flat_p1 flat_p2 = (x, y)"
    by (cases "incenterOf flat_p0 flat_p1 flat_p2")
  have xb: "121 / 2 - 1 / 2 ^ 24 < x" "x < 121 / 2 + 1 / 2 ^ 24"
    using flat_incenter_near(1) unfolding I fst_conv by linarith+
  have yb: "64 < y" "y < 64 + 1 / 2 ^ 18"
    using flat_incenter_near(2,3) unfolding I snd_conv by simp_all
  have sq: "\<And>u l h :: real. l \<le> u \<Longrightarrow> u \<le> h \<Longrightarrow> 0 \<le> l \<Longrightarrow> l * l \<le> u * u \<and> u * u \<le> h * h"
    by (simp add: mult_mono)
  have sqn: "\<And>u h :: real. - h \<le> u \<Longrightarrow> u \<le> h \<Longrightarrow> 0 \<le> u * u \<and> u * u \<le> h * h"
  proof -
    fix u h :: real
    assume "- h \<le> u" "u \<le> h"
    then have "\<bar>u\<bar> \<le> h" by linarith
    then have "\<bar>u\<bar> * \<bar>u\<bar> \<le> h * h" by (intro mult_mono) simp_all
    then show "0 \<le> u * u \<and> u * u \<le> h * h" by (simp add: abs_mult_self_eq)
  qed
  define X0 where "X0 = (113 / 2 - x) * (113 / 2 - x)"
  define X1 where "X1 = (145 / 2 - x) * (145 / 2 - x)"
  define X2 where "X2 = (121 / 2 - x) * (121 / 2 - x)"
  define Y0 where "Y0 = (64 - y) * (64 - y)"
  define Y2 where "Y2 = (64 + 1 / 2 ^ 17 - y) * (64 + 1 / 2 ^ 17 - y)"
  have "3 * 3 \<le> (x - 113 / 2) * (x - 113 / 2) \<and> (x - 113 / 2) * (x - 113 / 2) \<le> 5 * 5"
    by (rule sq) (use xb in simp_all)
  moreover have "(113 / 2 - x) * (113 / 2 - x) = (x - 113 / 2) * (x - 113 / 2)"
    by (simp add: algebra_simps)
  ultimately have x0: "9 \<le> X0" "X0 \<le> 25" unfolding X0_def by simp_all
  have "0 \<le> (145 / 2 - x) * (145 / 2 - x) \<and> (145 / 2 - x) * (145 / 2 - x) \<le> 13 * 13"
    by (rule sqn) (use xb in simp_all)
  then have x1: "0 \<le> X1" "X1 \<le> 169" unfolding X1_def by simp_all
  have "0 \<le> (121 / 2 - x) * (121 / 2 - x) \<and> (121 / 2 - x) * (121 / 2 - x) \<le> 1 * 1"
    by (rule sqn) (use xb in simp_all)
  then have x2: "0 \<le> X2" "X2 \<le> 1" unfolding X2_def by simp_all
  have "0 \<le> (64 - y) * (64 - y) \<and> (64 - y) * (64 - y) \<le> 1 * 1"
    by (rule sqn) (use yb in simp_all)
  then have y0: "0 \<le> Y0" "Y0 \<le> 1" unfolding Y0_def by simp_all
  have "0 \<le> (64 + 1 / 2 ^ 17 - y) * (64 + 1 / 2 ^ 17 - y)
      \<and> (64 + 1 / 2 ^ 17 - y) * (64 + 1 / 2 ^ 17 - y) \<le> 1 * 1"
    by (rule sqn) (use yb in simp_all)
  then have y2: "0 \<le> Y2" "Y2 \<le> 1" unfolding Y2_def by simp_all
  have q0: "1 * 1 \<le> (113 / 2 - x) * (113 / 2 - x) + (64 - y) * (64 - y)"
    "(113 / 2 - x) * (113 / 2 - x) + (64 - y) * (64 - y) \<le> 1600 * 1600"
    unfolding X0_def[symmetric] Y0_def[symmetric] using x0 y0 by simp_all
  have q1: "0 * 0 \<le> (145 / 2 - x) * (145 / 2 - x) + (64 - y) * (64 - y)"
    "(145 / 2 - x) * (145 / 2 - x) + (64 - y) * (64 - y) \<le> 1600 * 1600"
    unfolding X1_def[symmetric] Y0_def[symmetric] using x1 y0 by simp_all
  have q2: "0 * 0 \<le> (121 / 2 - x) * (121 / 2 - x) + (64 + 1 / 2 ^ 17 - y) * (64 + 1 / 2 ^ 17 - y)"
    "(121 / 2 - x) * (121 / 2 - x) + (64 + 1 / 2 ^ 17 - y) * (64 + 1 / 2 ^ 17 - y) \<le> 1600 * 1600"
    unfolding X2_def[symmetric] Y2_def[symmetric] using x2 y2 by simp_all
  have a: "1 \<le> distance2 (113 / 2, 64) (x, y)" "distance2 (113 / 2, 64) (x, y) \<le> 1600"
    using distance2_bounds[OF _ q0] by simp_all
  have b: "distance2 (145 / 2, 64) (x, y) \<le> 1600"
    using distance2_bounds(2)[OF _ q1] by simp
  have c: "distance2 (121 / 2, 64 + 1 / 2 ^ 17) (x, y) \<le> 1600"
    using distance2_bounds(2)[OF _ q2] by simp
  show "1 \<le> distancePoints [flat_p0, flat_p1, flat_p2] (incenterOf flat_p0 flat_p1 flat_p2)"
    unfolding distancePoints_max I unfolding flat_p0_def flat_p1_def flat_p2_def
    using a b c by linarith
  show "distancePoints [flat_p0, flat_p1, flat_p2] (incenterOf flat_p0 flat_p1 flat_p2) \<le> 1600"
    unfolding distancePoints_max I unfolding flat_p0_def flat_p1_def flat_p2_def
    using a b c by linarith
qed

lemma flat_vertex_main:
  "map_option vScreenPos0 (vertex_main flat_vertex) = Some flat_p0"
  "map_option vScreenPos1 (vertex_main flat_vertex) = Some flat_p1"
  "map_option vScreenPos2 (vertex_main flat_vertex) = Some flat_p2"
proof -
  have sel: "aTriangleMinWeight_in flat_vertex = 1 / 64"
    "aTriangleV0_in flat_vertex = (- 7, 1 / 2, - 1)"
    "aTriangleV1_in flat_vertex = (9, 1 / 2, - 1)"
    "aTriangleV2_in flat_vertex = (- 3, 1 / 2 + 1 / 2 ^ 17, - 1)"
    "modelViewMatrix flat_vertex = identity4"
    "projectionMatrix flat_vertex = ortho_128"
    "uResolution flat_vertex = (128, 128)"
    "sigma_v flat_vertex = 1"
    by (simp_all add: flat_vertex_def)
  have p: "projectClip (128, 128) (- 7 / 64, 1 / 2 / 64, - (- 1) - 1, 1) = flat_p0"
    "projectClip (128, 128) (9 / 64, 1 / 2 / 64, - (- 1) - 1, 1) = flat_p1"
    "projectClip (128, 128) (- 3 / 64, (1 / 2 + 1 / 2 ^ 17) / 64, - (- 1) - 1, 1) = flat_p2"
    by (simp_all add: projectPixel_def flat_p0_def flat_p1_def flat_p2_def)
  have d: "0 \<le> distance2 flat_p1 flat_p2" "0 \<le> distance2 flat_p2 flat_p0"
    unfolding flat_sides by simp_all
  have per: "1 \<le> perimeterOf flat_p0 flat_p1 flat_p2"
    unfolding perimeterOf_def using d flat_sides(3) by linarith
  obtain cs ld ns os where el: "edgeLoop [flat_p0, flat_p1, flat_p2]
      (incenterOf flat_p0 flat_p1 flat_p2)
      (1 / 100 / aTriangleMinWeight_in flat_vertex) (1 / sigma_v flat_vertex) = (cs, ld, ns, os)"
    by (cases "edgeLoop [flat_p0, flat_p1, flat_p2] (incenterOf flat_p0 flat_p1 flat_p2)
      (1 / 100 / aTriangleMinWeight_in flat_vertex) (1 / sigma_v flat_vertex)")
  have v: "vertex_main flat_vertex =
     Some \<lparr> vScreenPos0 = flat_p0, vScreenPos1 = flat_p1, vScreenPos2 = flat_p2,
            vTriangleMinWeight = aTriangleMinWeight_in flat_vertex,
            vPhiCenterScale = 1 / (if ld \<ge> 0 then - (1 / 10 ^ 4) else ld),
            vNormal0 = ns ! 0, vNormal1 = ns ! 1, vNormal2 = ns ! 2,
            vOffset0 = os ! 0, vOffset1 = os ! 1, vOffset2 = os ! 2 \<rparr>"
  proof (rule vertex_main_eval)
    show "1 / 100 \<le> aTriangleMinWeight_in flat_vertex" unfolding sel by simp
    show "1 / 1000 \<le> \<bar>cosTheta (modelViewMatrix flat_vertex) (aTriangleV0_in flat_vertex)
        (aTriangleV1_in flat_vertex) (aTriangleV2_in flat_vertex)\<bar>"
      unfolding sel by (rule flat_cos)
    show "mulMat4Vec4 (mulMat4 (projectionMatrix flat_vertex) (modelViewMatrix flat_vertex))
        (point4 (aTriangleV0_in flat_vertex)) = (- 7 / 64, 1 / 2 / 64, - (- 1) - 1, 1)"
      unfolding sel by (rule ortho_clip)
    show "mulMat4Vec4 (mulMat4 (projectionMatrix flat_vertex) (modelViewMatrix flat_vertex))
        (point4 (aTriangleV1_in flat_vertex)) = (9 / 64, 1 / 2 / 64, - (- 1) - 1, 1)"
      unfolding sel by (rule ortho_clip)
    show "mulMat4Vec4 (mulMat4 (projectionMatrix flat_vertex) (modelViewMatrix flat_vertex))
        (point4 (aTriangleV2_in flat_vertex))
      = (- 3 / 64, (1 / 2 + 1 / 2 ^ 17) / 64, - (- 1) - 1, 1)"
      unfolding sel by (rule ortho_clip)
    show "0 < wOf (- 7 / 64 :: real, 1 / 2 / 64 :: real, - (- 1) - 1 :: real, 1 :: real)" by simp
    show "projectClip (uResolution flat_vertex) (- 7 / 64, 1 / 2 / 64, - (- 1) - 1, 1) = flat_p0"
      unfolding sel by (rule p)
    show "projectClip (uResolution flat_vertex) (9 / 64, 1 / 2 / 64, - (- 1) - 1, 1) = flat_p1"
      unfolding sel by (rule p)
    show "projectClip (uResolution flat_vertex)
        (- 3 / 64, (1 / 2 + 1 / 2 ^ 17) / 64, - (- 1) - 1, 1) = flat_p2"
      unfolding sel by (rule p)
    show "1 \<le> perimeterOf flat_p0 flat_p1 flat_p2" by (rule per)
    show "1 \<le> distancePoints [flat_p0, flat_p1, flat_p2] (incenterOf flat_p0 flat_p1 flat_p2)"
      by (rule flat_distancePoints)
    show "distancePoints [flat_p0, flat_p1, flat_p2] (incenterOf flat_p0 flat_p1 flat_p2) \<le> 1600"
      by (rule flat_distancePoints)
    show "edgeLoop [flat_p0, flat_p1, flat_p2] (incenterOf flat_p0 flat_p1 flat_p2)
        (1 / 100 / aTriangleMinWeight_in flat_vertex) (1 / sigma_v flat_vertex) = (cs, ld, ns, os)"
      by (rule el)
  qed
  show "map_option vScreenPos0 (vertex_main flat_vertex) = Some flat_p0"
    "map_option vScreenPos1 (vertex_main flat_vertex) = Some flat_p1"
    "map_option vScreenPos2 (vertex_main flat_vertex) = Some flat_p2"
    unfolding v by simp_all
qed

text \<open>
  C6. The three offsets are to be \<open>o_k - s\<close> for the one amount
  \<open>s = d_0 * (0.01 / m) ^ (1 / sigma)\<close>, also when \<open>d_0\<close> is zero. The loop takes
  \<open>computedSize = 0.0\<close> for "not yet computed": after a first edge with \<open>d_0 = 0\<close> it
  computes the amount again, from the next edge. With binary32 numbers this happens for a
  triangle that is not degenerate. The input \<^const>\<open>flat_vertex\<close> survives the culling
  sequence with the projected vertices \<^const>\<open>flat_p0\<close>, \<^const>\<open>flat_p1\<close>,
  \<^const>\<open>flat_p2\<close>; the binary32 number nearest to each coordinate of their incentre
  is that of \<^const>\<open>flat_incenter\<close>, on the line of the first edge; the loop, run on
  that incentre, finds \<open>d_0 = 0\<close> and \<open>d_1 < 0\<close>, subtracts \<open>0\<close> from the first offset
  and \<open>d_1 * (0.01 / m) ^ (1 / sigma) = d_1 * 16/25\<close>, which is not zero, from the second
  and the third: the offsets are not \<open>o_k - s\<close> for the amount \<open>s = d_0 * 16/25\<close>.
\<close>

theorem zero_first_distance_recomputes_shrink:
  "map_option vScreenPos0 (vertex_main flat_vertex) = Some flat_p0
   \<and> map_option vScreenPos1 (vertex_main flat_vertex) = Some flat_p1
   \<and> map_option vScreenPos2 (vertex_main flat_vertex) = Some flat_p2
   \<and> Math_fround (Num (fst (incenterOf flat_p0 flat_p1 flat_p2))) = Num (fst flat_incenter)
   \<and> Math_fround (Num (snd (incenterOf flat_p0 flat_p1 flat_p2))) = Num (snd flat_incenter)
   \<and> edgeDist flat_p0 flat_p1 flat_incenter = 0
   \<and> edgeDist flat_p1 flat_p2 flat_incenter = - (12 / 2 ^ 17) / sqrt (144 + 1 / 2 ^ 34)
   \<and> edgeDist flat_p1 flat_p2 flat_incenter < 0
   \<and> snd (snd (snd (edgeLoop [flat_p0, flat_p1, flat_p2] flat_incenter
                       (1 / 100 / (1 / 64)) (1 / 1))))
       = [edgeOffset flat_p0 flat_p1 flat_incenter - 0,
          edgeOffset flat_p1 flat_p2 flat_incenter
            - edgeDist flat_p1 flat_p2 flat_incenter * (16 / 25),
          edgeOffset flat_p2 flat_p0 flat_incenter
            - edgeDist flat_p1 flat_p2 flat_incenter * (16 / 25)]
   \<and> snd (snd (snd (edgeLoop [flat_p0, flat_p1, flat_p2] flat_incenter
                       (1 / 100 / (1 / 64)) (1 / 1))))
       \<noteq> [edgeOffset flat_p0 flat_p1 flat_incenter
            - edgeDist flat_p0 flat_p1 flat_incenter * (16 / 25),
          edgeOffset flat_p1 flat_p2 flat_incenter
            - edgeDist flat_p0 flat_p1 flat_incenter * (16 / 25),
          edgeOffset flat_p2 flat_p0 flat_incenter
            - edgeDist flat_p0 flat_p1 flat_incenter * (16 / 25)]"
proof -
  have r: "Math_fround (Num (fst (incenterOf flat_p0 flat_p1 flat_p2))) = Num (fst flat_incenter)"
    "Math_fround (Num (snd (incenterOf flat_p0 flat_p1 flat_p2))) = Num (snd flat_incenter)"
    using flat_incenter_binary32 by (simp_all add: flat_incenter_def del: Math_fround.simps)
  have n: "snd (snd (snd (edgeLoop [flat_p0, flat_p1, flat_p2] flat_incenter
                       (1 / 100 / (1 / 64)) (1 / 1))))
       \<noteq> [edgeOffset flat_p0 flat_p1 flat_incenter
            - edgeDist flat_p0 flat_p1 flat_incenter * (16 / 25),
          edgeOffset flat_p1 flat_p2 flat_incenter
            - edgeDist flat_p0 flat_p1 flat_incenter * (16 / 25),
          edgeOffset flat_p2 flat_p0 flat_incenter
            - edgeDist flat_p0 flat_p1 flat_incenter * (16 / 25)]"
    unfolding flat_edgeLoop flat_edge_values(1) using flat_edge_values(4) by simp
  show ?thesis
    using flat_vertex_main r flat_edge_values(1,2,4) flat_edgeLoop n by (simp only: simp_thms)
qed
end
